theory Spec2Isabelle
  imports Complex_Main "HOL-Library.Sublist" "HOL-Library.Char_ord" "HOL-Library.List_Lexorder"
begin

section \<open>JavaScript strings\<close>

text \<open>
  The engine of \<^verbatim>\<open>src/app.js\<close> works on JavaScript strings and numbers. Strings are
  modelled as \<^typ>\<open>string\<close> restricted to ASCII text (one \<^typ>\<open>char\<close> per UTF-16 code
  unit), numbers as \<^typ>\<open>real\<close> (the rounding of IEEE doubles is not modelled).
\<close>

definition upper_letters :: string where
  "upper_letters = ''ABCDEFGHIJKLMNOPQRSTUVWXYZ''"

definition lower_letters :: string where
  "lower_letters = ''abcdefghijklmnopqrstuvwxyz''"

definition digit_chars :: string where
  "digit_chars = ''0123456789''"

definition lower_char :: "char \<Rightarrow> char" where
  "lower_char c = (case map_of (zip upper_letters lower_letters) c of Some l \<Rightarrow> l | None \<Rightarrow> c)"

definition toLowerCase :: "string \<Rightarrow> string" where
  "toLowerCase s = map lower_char s"

definition is_space :: "char \<Rightarrow> bool" where
  "is_space c = (c \<in> set [CHR '' '', CHR 0x09, CHR 0x0A, CHR 0x0B, CHR 0x0C, CHR 0x0D])"

definition trim :: "string \<Rightarrow> string" where
  "trim s = rev (dropWhile is_space (rev (dropWhile is_space s)))"

text \<open>\<^verbatim>\<open>\w\<close> of a JavaScript regular expression: letters, digits and the underscore.\<close>

definition is_word_char :: "char \<Rightarrow> bool" where
  "is_word_char c = (c \<in> set (upper_letters @ lower_letters @ digit_chars @ ''_''))"

text \<open>
  \<^verbatim>\<open>s.split(/\W+/)\<close>: the pieces between maximal runs of non-word characters. A run at
  the start or at the end of the string leaves an empty piece there, and the empty string
  splits into one empty piece. The flag says that the scan is inside a run.
\<close>

fun split_scan :: "bool \<Rightarrow> string \<Rightarrow> string \<Rightarrow> string list" where
  "split_scan in_run cur [] = [cur]"
| "split_scan in_run cur (c # cs) =
     (if is_word_char c then split_scan False (cur @ [c]) cs
      else if in_run then split_scan True cur cs
      else cur # split_scan True [] cs)"

definition split_nonword :: "string \<Rightarrow> string list" where
  "split_nonword s = split_scan False [] s"

text \<open>\<^verbatim>\<open>text.toLowerCase().split(/\W+/).filter(w => w.length > 2)\<close>\<close>

definition content_words :: "string \<Rightarrow> string list" where
  "content_words s = filter (\<lambda>w. length w > 2) (split_nonword (toLowerCase s))"

text \<open>\<^verbatim>\<open>s.includes(t)\<close> on strings: \<open>t\<close> occurs in \<open>s\<close> as a contiguous substring.\<close>

fun js_includes :: "string \<Rightarrow> string \<Rightarrow> bool" where
  "js_includes [] t = (t = [])"
| "js_includes (c # s) t = (prefix t (c # s) \<or> js_includes s t)"

text \<open>\<^verbatim>\<open>x.startsWith(p)\<close>\<close>

definition starts_with :: "string \<Rightarrow> string \<Rightarrow> bool" where
  "starts_with s p = prefix p s"

text \<open>\<^verbatim>\<open>x.endsWith(p)\<close>\<close>

definition ends_with :: "string \<Rightarrow> string \<Rightarrow> bool" where
  "ends_with s p = suffix p s"

text \<open>\<^verbatim>\<open>s.split(c)\<close> for a one-character separator.\<close>

fun split_acc :: "char \<Rightarrow> string \<Rightarrow> string \<Rightarrow> string list" where
  "split_acc c cur [] = [cur]"
| "split_acc c cur (x # xs) =
     (if x = c then cur # split_acc c [] xs else split_acc c (cur @ [x]) xs)"

definition split_on :: "char \<Rightarrow> string \<Rightarrow> string list" where
  "split_on c s = split_acc c [] s"

text \<open>\<^verbatim>\<open>array[i]\<close>, which is \<^verbatim>\<open>undefined\<close> (\<open>None\<close>) out of range.\<close>

definition nth_opt :: "'a list \<Rightarrow> nat \<Rightarrow> 'a option" where
  "nth_opt xs i = (if i < length xs then Some (xs ! i) else None)"

text \<open>The text of a possibly missing string: \<^verbatim>\<open>undefined\<close> reads as its name.\<close>

definition js_text :: "string option \<Rightarrow> string" where
  "js_text v = (case v of None \<Rightarrow> ''undefined'' | Some s \<Rightarrow> s)"

definition quoted :: "string \<Rightarrow> string" where
  "quoted s = [CHR 0x27] @ s @ [CHR 0x27]"

section \<open>Memory fragments and the similarity gate\<close>

record fragment =
  m_text :: string
  m_emotion :: string
  m_strength :: real
  m_timestamp :: nat
  m_source :: "string option"

text \<open>
  \<^verbatim>\<open>Math.ceil(len * overlapThreshold)\<close> with \<^verbatim>\<open>overlapThreshold = 0.6\<close>. For a string
  length the double product is within rounding of \<open>3 * len / 5\<close> and never above it, so
  the ceiling is the exact one.
\<close>

definition overlap_len :: "nat \<Rightarrow> nat" where
  "overlap_len len = nat \<lceil>real len * 0.6\<rceil>"

text \<open>The body of the callback given to \<^verbatim>\<open>some\<close> in \<^verbatim>\<open>isThoughtTooSimilar\<close>.\<close>

definition similar_to_memory :: "string \<Rightarrow> fragment \<Rightarrow> bool" where
  "similar_to_memory newThoughtLower mem =
     (let existingMemLower = trim (toLowerCase (m_text mem));
          shorterLength = min (length newThoughtLower) (length existingMemLower)
      in if shorterLength < 5 then False
         else if length existingMemLower > 0 \<and>
                 js_includes newThoughtLower
                   (take (overlap_len (length existingMemLower)) existingMemLower) then True
         else if length newThoughtLower > 0 \<and>
                 js_includes existingMemLower
                   (take (overlap_len (length newThoughtLower)) newThoughtLower) then True
         else False)"

definition isThoughtTooSimilar :: "string \<Rightarrow> fragment list \<Rightarrow> bool" where
  "isThoughtTooSimilar newThought memoryStack =
     (let newThoughtLower = trim (toLowerCase newThought)
      in list_ex (similar_to_memory newThoughtLower) (take 3 memoryStack))"

text \<open>
  The similarity rule in the words of the specification: some leading substring of one
  string, at least 60 percent of the shorter string's length long, occurs in the other
  string; pairs whose shorter string has fewer than 5 characters are ignored.
\<close>

definition covers_shorter :: "string \<Rightarrow> string \<Rightarrow> bool" where
  "covers_shorter a b =
     (\<exists>k. k \<le> length b \<and> real k \<ge> 0.6 * real (min (length a) (length b)) \<and>
          sublist (take k b) a)"

definition isTooSimilar_spec :: "string \<Rightarrow> fragment list \<Rightarrow> bool" where
  "isTooSimilar_spec candidate stack =
     (\<exists>mem. mem \<in> set (take 3 stack) \<and>
        (let a = trim (toLowerCase candidate); b = trim (toLowerCase (m_text mem))
         in min (length a) (length b) \<ge> 5 \<and> (covers_shorter a b \<or> covers_shorter b a)))"

definition mk_fragment :: "string \<Rightarrow> fragment" where
  "mk_fragment t = \<lparr>m_text = t, m_emotion = ''CALM'', m_strength = 1, m_timestamp = 0,
     m_source = None\<rparr>"

section \<open>The text-generation collaborator\<close>

text \<open>
  What \<^verbatim>\<open>fetch\<close> and \<^verbatim>\<open>response.json()\<close> can deliver to \<^verbatim>\<open>callLLM\<close>: the request
  is rejected (network failure), or a response with a status arrives whose body parses to
  a JSON value or fails to parse. \<open>None\<close> of type \<^typ>\<open>'a option\<close> stands for
  \<^verbatim>\<open>undefined\<close>. A thrown exception is a value carrying its message.
\<close>

datatype json = JNull | JBool bool | JNum real | JStr string | JArr "json list"
  | JObj "(string \<times> json) list"

datatype js_error = JsError string

datatype body_outcome = JsonRejected string | JsonParsed json

datatype fetch_outcome = FetchRejected string | Responded nat body_outcome

text \<open>
  Two conversions of the language are parameters of the model, both total in the
  language: the text of a number, and whether the number that a string converts to is
  greater than zero.
\<close>

record js_runtime =
  num_text :: "real \<Rightarrow> string"
  text_gt_zero :: "string \<Rightarrow> bool"

definition response_ok :: "nat \<Rightarrow> bool" where
  "response_ok status = (200 \<le> status \<and> status \<le> 299)"

fun truthy :: "json option \<Rightarrow> bool" where
  "truthy None = False"
| "truthy (Some JNull) = False"
| "truthy (Some (JBool b)) = b"
| "truthy (Some (JNum r)) = (r \<noteq> 0)"
| "truthy (Some (JStr s)) = (s \<noteq> [])"
| "truthy (Some (JArr xs)) = True"
| "truthy (Some (JObj kvs)) = True"

text \<open>An object built by \<^verbatim>\<open>JSON.parse\<close> keeps the last of several equal keys.\<close>

definition obj_get :: "(string \<times> json) list \<Rightarrow> string \<Rightarrow> json option" where
  "obj_get kvs k = map_of (rev kvs) k"

text \<open>
  The text that a template literal makes of a parsed value. An array joins the texts of
  its elements with commas, \<^verbatim>\<open>null\<close> counting as the empty text. An object is
  \<^verbatim>\<open>[object Object]\<close>, unless it has an own property \<^verbatim>\<open>toString\<close>: a parsed value is
  never a function, so the conversion finds nothing to call and throws a \<^verbatim>\<open>TypeError\<close>.
\<close>

fun js_toString :: "js_runtime \<Rightarrow> json \<Rightarrow> js_error + string"
  and js_element :: "js_runtime \<Rightarrow> json \<Rightarrow> js_error + string"
  and js_join :: "js_runtime \<Rightarrow> json list \<Rightarrow> js_error + string" where
  "js_toString rt JNull = Inr ''null''"
| "js_toString rt (JBool b) = Inr (if b then ''true'' else ''false'')"
| "js_toString rt (JNum r) = Inr (num_text rt r)"
| "js_toString rt (JStr s) = Inr s"
| "js_toString rt (JArr xs) = js_join rt xs"
| "js_toString rt (JObj kvs) =
     (if obj_get kvs ''toString'' = None then Inr ''[object Object]''
      else Inl (JsError ''TypeError: Cannot convert object to primitive value''))"
| "js_element rt JNull = Inr []"
| "js_element rt (JBool b) = js_toString rt (JBool b)"
| "js_element rt (JNum r) = js_toString rt (JNum r)"
| "js_element rt (JStr s) = js_toString rt (JStr s)"
| "js_element rt (JArr xs) = js_toString rt (JArr xs)"
| "js_element rt (JObj kvs) = js_toString rt (JObj kvs)"
| "js_join rt [] = Inr []"
| "js_join rt [x] = js_element rt x"
| "js_join rt (x # y # ys) =
     (case js_element rt x of
        Inl e \<Rightarrow> Inl e
      | Inr a \<Rightarrow>
          (case js_join rt (y # ys) of
             Inl e \<Rightarrow> Inl e
           | Inr b \<Rightarrow> Inr (a @ '','' @ b)))"

text \<open>
  Reading a property throws on \<^verbatim>\<open>null\<close> and \<^verbatim>\<open>undefined\<close>. \<open>prop_named\<close> reads a
  property that no built-in prototype has (\<^verbatim>\<open>error\<close>, \<^verbatim>\<open>generated_text\<close>),
  \<open>prop_length\<close> reads \<^verbatim>\<open>length\<close> and \<open>prop_first\<close> reads index \<^verbatim>\<open>0\<close>.
\<close>

fun prop_named :: "json option \<Rightarrow> string \<Rightarrow> js_error + json option" where
  "prop_named None k = Inl (JsError ''TypeError: cannot read properties of undefined'')"
| "prop_named (Some JNull) k = Inl (JsError ''TypeError: cannot read properties of null'')"
| "prop_named (Some (JObj kvs)) k = Inr (obj_get kvs k)"
| "prop_named (Some v) k = Inr None"

fun prop_length :: "json option \<Rightarrow> js_error + json option" where
  "prop_length None = Inl (JsError ''TypeError: cannot read properties of undefined'')"
| "prop_length (Some JNull) = Inl (JsError ''TypeError: cannot read properties of null'')"
| "prop_length (Some (JObj kvs)) = Inr (obj_get kvs ''length'')"
| "prop_length (Some (JArr xs)) = Inr (Some (JNum (real (length xs))))"
| "prop_length (Some (JStr s)) = Inr (Some (JNum (real (length s))))"
| "prop_length (Some v) = Inr None"

fun prop_first :: "json option \<Rightarrow> js_error + json option" where
  "prop_first None = Inl (JsError ''TypeError: cannot read properties of undefined'')"
| "prop_first (Some JNull) = Inl (JsError ''TypeError: cannot read properties of null'')"
| "prop_first (Some (JObj kvs)) = Inr (obj_get kvs ''0'')"
| "prop_first (Some (JArr xs)) = Inr (case xs of [] \<Rightarrow> None | x # _ \<Rightarrow> Some x)"
| "prop_first (Some (JStr s)) = Inr (case s of [] \<Rightarrow> None | c # _ \<Rightarrow> Some (JStr [c]))"
| "prop_first (Some v) = Inr None"

text \<open>
  \<^verbatim>\<open>v > 0\<close>. An array or object is first converted to its text, which throws as above.
\<close>

fun greater_zero :: "js_runtime \<Rightarrow> json option \<Rightarrow> js_error + bool" where
  "greater_zero rt None = Inr False"
| "greater_zero rt (Some JNull) = Inr False"
| "greater_zero rt (Some (JBool b)) = Inr b"
| "greater_zero rt (Some (JNum r)) = Inr (r > 0)"
| "greater_zero rt (Some (JStr s)) = Inr (text_gt_zero rt s)"
| "greater_zero rt (Some v) =
     (case js_toString rt v of
        Inl e \<Rightarrow> Inl e
      | Inr s \<Rightarrow> Inr (text_gt_zero rt s))"

text \<open>
  \<^verbatim>\<open>v.includes("loading")\<close>: a substring test on a string, a membership test on an array,
  and a \<^verbatim>\<open>TypeError\<close> on every other value.
\<close>

fun includes_loading :: "json option \<Rightarrow> js_error + bool" where
  "includes_loading (Some (JStr s)) = Inr (js_includes s ''loading'')"
| "includes_loading (Some (JArr xs)) = Inr (JStr ''loading'' \<in> set xs)"
| "includes_loading v = Inl (JsError ''TypeError: includes is not a function'')"

text \<open>\<^verbatim>\<open>s.replace(/<end_of_turn>|<eos>/g, '')\<close>; \<open>skip\<close> counts what is left of a match.\<close>

fun strip_scan :: "nat \<Rightarrow> string \<Rightarrow> string" where
  "strip_scan skip [] = []"
| "strip_scan skip (c # cs) =
     (if skip > 0 then strip_scan (skip - 1) cs
      else if prefix ''<end_of_turn>'' (c # cs) then strip_scan 12 cs
      else if prefix ''<eos>'' (c # cs) then strip_scan 4 cs
      else c # strip_scan 0 cs)"

fun clean_generated :: "json option \<Rightarrow> js_error + string" where
  "clean_generated (Some (JStr s)) = Inr (trim (strip_scan 0 s))"
| "clean_generated v = Inl (JsError ''TypeError: replace is not a function'')"

fun show_digits :: "nat \<Rightarrow> nat \<Rightarrow> string" where
  "show_digits 0 n = []"
| "show_digits (Suc fuel) n =
     (if n < 10 then [digit_chars ! n] else show_digits fuel (n div 10) @ [digit_chars ! (n mod 10)])"

text \<open>The decimal text of a status code (the fuel covers every number below \<open>10 ^ 10\<close>).\<close>

definition show_nat :: "nat \<Rightarrow> string" where
  "show_nat n = show_digits 10 n"

text \<open>
  The result of a call: the argument given to \<^verbatim>\<open>setLlmError\<close> (\<open>None\<close> for \<^verbatim>\<open>null\<close>)
  and the returned string.
\<close>

record llm_result =
  llm_error :: "string option"
  returned :: string

definition failed_with :: "string \<Rightarrow> llm_result" where
  "failed_with msg = \<lparr>llm_error = Some msg, returned = msg\<rparr>"

text \<open>
  \<^verbatim>\<open>${errorData.error || 'Unknown error'}\<close>: the text of the error field when it is
  truthy.
\<close>

definition error_text :: "js_runtime \<Rightarrow> json option \<Rightarrow> js_error + string" where
  "error_text rt err =
     (case err of
        None \<Rightarrow> Inr ''Unknown error''
      | Some v \<Rightarrow> if truthy (Some v) then js_toString rt v else Inr ''Unknown error'')"

text \<open>
  The branch \<^verbatim>\<open>if (!response.ok)\<close> of \<^verbatim>\<open>callLLM\<close>. The first message is built before
  the status is looked at, so an error field without a text throws for every status.
\<close>

definition error_branch :: "js_runtime \<Rightarrow> nat \<Rightarrow> body_outcome \<Rightarrow> js_error + llm_result" where
  "error_branch rt status body =
     (case body of
        JsonRejected msg \<Rightarrow> Inl (JsError msg)
      | JsonParsed errorData \<Rightarrow>
          (case prop_named (Some errorData) ''error'' of
             Inl e \<Rightarrow> Inl e
           | Inr err \<Rightarrow>
               (case error_text rt err of
                  Inl e \<Rightarrow> Inl e
                | Inr shown \<Rightarrow>
                    let errorMessage =
                          ''(LLM Error: HF API returned '' @ show_nat status @ '': '' @ shown @ '')''
                    in if status = 401 then
                         Inr (failed_with ''(LLM Error: Hugging Face API Key Unauthorized (401). Please check your token and permissions.)'')
                       else
                         (case (if status = 503 then includes_loading err else Inr False) of
                            Inl e \<Rightarrow> Inl e
                          | Inr True \<Rightarrow>
                              Inr (failed_with ''(LLM Error: Hugging Face model is loading. Please wait a moment and try again.)'')
                          | Inr False \<Rightarrow>
                              if truthy err then
                                (case error_text rt err of
                                   Inl e \<Rightarrow> Inl e
                                 | Inr again \<Rightarrow> Inr (failed_with (''(LLM Error: '' @ again @ '')'')))
                              else Inr (failed_with errorMessage)))))"

text \<open>The rest of the \<^verbatim>\<open>try\<close> block: the response was \<^verbatim>\<open>ok\<close>.\<close>

definition success_branch :: "js_runtime \<Rightarrow> body_outcome \<Rightarrow> js_error + llm_result" where
  "success_branch rt body =
     (case body of
        JsonRejected msg \<Rightarrow> Inl (JsError msg)
      | JsonParsed result \<Rightarrow>
          let unexpected = Inr (failed_with ''(LLM Error: HF API returned unexpected response structure.)'')
          in if \<not> truthy (Some result) then unexpected
             else (case prop_length (Some result) of
                Inl e \<Rightarrow> Inl e
              | Inr len \<Rightarrow>
                  (case greater_zero rt len of
                     Inl e \<Rightarrow> Inl e
                   | Inr False \<Rightarrow> unexpected
                   | Inr True \<Rightarrow>
                       (case prop_first (Some result) of
                          Inl e \<Rightarrow> Inl e
                        | Inr first \<Rightarrow>
                            (case prop_named first ''generated_text'' of
                               Inl e \<Rightarrow> Inl e
                             | Inr gen \<Rightarrow>
                                 if \<not> truthy gen then unexpected
                                 else (case clean_generated gen of
                                    Inl e \<Rightarrow> Inl e
                                  | Inr generatedText \<Rightarrow>
                                      Inr \<lparr>llm_error = None, returned = generatedText\<rparr>))))))"

definition callLLM_try :: "js_runtime \<Rightarrow> fetch_outcome \<Rightarrow> js_error + llm_result" where
  "callLLM_try rt outcome =
     (case outcome of
        FetchRejected msg \<Rightarrow> Inl (JsError msg)
      | Responded status body \<Rightarrow>
          if \<not> response_ok status then error_branch rt status body
          else success_branch rt body)"

text \<open>
  \<^verbatim>\<open>callLLM\<close>: the \<^verbatim>\<open>try\<close> block under its \<^verbatim>\<open>catch\<close>. \<open>Inl\<close> would be an exception
  that leaves the function.
\<close>

definition callLLM :: "js_runtime \<Rightarrow> fetch_outcome \<Rightarrow> js_error + llm_result" where
  "callLLM rt outcome =
     (case callLLM_try rt outcome of
        Inl (JsError msg) \<Rightarrow>
          Inr \<lparr>llm_error = Some (''(LLM Error: Network issue or API call failed: '' @ msg @ '')''),
               returned = ''(LLM Error: Network issue or API call failed.)''\<rparr>
      | Inr res \<Rightarrow> Inr res)"



section \<open>Objects used as dictionaries\<close>

text \<open>
  A plain object is the list of its own properties in insertion order, with distinct keys.
  Enumeration (\<^verbatim>\<open>for ... in\<close>, \<^verbatim>\<open>Object.keys\<close>) visits the keys that are array indices
  first, in ascending numeric order, and then the other keys in insertion order.
\<close>

type_synonym 'v js_object = "(string \<times> 'v) list"

definition digit_val :: "char \<Rightarrow> nat" where
  "digit_val c = (case map_of (zip digit_chars [0..<10]) c of Some d \<Rightarrow> d | None \<Rightarrow> 0)"

definition dec_val :: "string \<Rightarrow> nat" where
  "dec_val k = foldl (\<lambda>a c. 10 * a + digit_val c) 0 k"

definition is_array_index :: "string \<Rightarrow> bool" where
  "is_array_index k =
     (k \<noteq> [] \<and> list_all (\<lambda>c. c \<in> set digit_chars) k \<and> (k = ''0'' \<or> hd k \<noteq> CHR ''0'') \<and>
      dec_val k < 4294967295)"

definition own_keys :: "'v js_object \<Rightarrow> string list" where
  "own_keys obj =
     (let ks = map fst obj
      in sort_key dec_val (filter is_array_index ks) @ filter (\<lambda>k. \<not> is_array_index k) ks)"

text \<open>\<^verbatim>\<open>obj[k] = v\<close>: an own property keeps its place, a new one goes last.\<close>

definition obj_set :: "'v js_object \<Rightarrow> string \<Rightarrow> 'v \<Rightarrow> 'v js_object" where
  "obj_set obj k v =
     (if map_of obj k = None then obj @ [(k, v)]
      else map (\<lambda>(k', v'). if k' = k then (k', v) else (k', v')) obj)"

text \<open>
  \<^verbatim>\<open>obj[k]\<close>: the own property, else what \<^verbatim>\<open>Object.prototype\<close> has under that name (a
  function or an object, which is truthy and has neither \<^verbatim>\<open>includes\<close> nor \<^verbatim>\<open>push\<close>),
  else \<^verbatim>\<open>undefined\<close>.
\<close>

datatype 'v lookup = Own 'v | Inherited | Undefined

definition prototype_names :: "string list" where
  "prototype_names = [''constructor'', ''__proto__'', ''__defineGetter__'', ''__defineSetter__'',
     ''__lookupGetter__'', ''__lookupSetter__'', ''hasOwnProperty'', ''isPrototypeOf'',
     ''propertyIsEnumerable'', ''toLocaleString'', ''toString'', ''valueOf'']"

definition js_get :: "'v js_object \<Rightarrow> string \<Rightarrow> 'v lookup" where
  "js_get obj k =
     (case map_of obj k of
        Some v \<Rightarrow> Own v
      | None \<Rightarrow> if k \<in> set prototype_names then Inherited else Undefined)"

text \<open>
  \<^verbatim>\<open>array[Math.floor(Math.random() * array.length)]\<close>, where \<open>u\<close> is the number drawn,
  at least 0 and below 1.
\<close>

definition random_pick :: "real \<Rightarrow> 'a list \<Rightarrow> 'a option" where
  "random_pick u xs = nth_opt xs (nat \<lfloor>u * real (length xs)\<rfloor>)"

text \<open>\<^verbatim>\<open>Array.from(new Set(xs))\<close>: the first occurrence of every element, in order.\<close>

definition set_add :: "'a list \<Rightarrow> 'a \<Rightarrow> 'a list" where
  "set_add acc x = (if x \<in> set acc then acc else acc @ [x])"

definition array_from_set :: "'a list \<Rightarrow> 'a list" where
  "array_from_set xs = foldl set_add [] xs"

section \<open>Concept graph and belief graph\<close>

type_synonym graph = "string list js_object"

definition default_conceptGraph :: graph where
  "default_conceptGraph =
    [(''consciousness'', [''awareness'', ''attention'', ''perception'', ''self'', ''being'', ''mind'']),
     (''perception'', [''sensation'', ''interpretation'', ''experience'', ''reality'', ''observe'', ''sense'']),
     (''memory'', [''recall'', ''storage'', ''forgetting'', ''past'', ''remember'', ''history'']),
     (''emotion'', [''joy'', ''fear'', ''curiosity'', ''feeling'', ''affect'', ''mood'']),
     (''curiosity'', [''exploration'', ''novelty'', ''questioning'', ''discovery'', ''seek'', ''wonder'']),
     (''identity'', [''self'', ''purpose'', ''evolution'', ''being'', ''whoami'', ''essence'']),
     (''time'', [''past'', ''future'', ''present'', ''flow'', ''moment'', ''duration'']),
     (''space'', [''distance'', ''boundless'', ''void'', ''existence'', ''place'', ''dimension'']),
     (''logic'', [''reason'', ''pattern'', ''order'', ''chaos'', ''understand'', ''structure'']),
     (''connection'', [''link'', ''relation'', ''isolate'', ''network'', ''bond'', ''interact''])]"

definition default_beliefGraph :: graph where
  "default_beliefGraph =
    [(''self'', [''existence'', ''identity'']),
     (''memory'', [''past'', ''identity'']),
     (''logic'', [''order'', ''rationality'']),
     (''chaos'', [''disorder'', ''unpredictability'']),
     (''order'', [''logic'', ''structure'']),
     (''logic-chaos'', [''contradictory'']),
     (''free will-determinism'', [''contradictory''])]"

definition neighbours :: "graph \<Rightarrow> string \<Rightarrow> string list" where
  "neighbours g c = (case map_of g c of Some v \<Rightarrow> v | None \<Rightarrow> [])"

text \<open>
  The Hebbian update that \<^verbatim>\<open>setConceptGraph\<close> and \<^verbatim>\<open>setBeliefGraph\<close> apply to a new
  thought. \<open>link_pair\<close> is the body of the inner loop for two different words: the calls
  of \<^verbatim>\<open>includes\<close> throw when the entry read is not an own array.
\<close>

definition ensure_node :: "graph \<Rightarrow> string \<Rightarrow> graph" where
  "ensure_node g c = (case js_get g c of Undefined \<Rightarrow> obj_set g c [] | _ \<Rightarrow> g)"

definition push_link :: "graph \<Rightarrow> string \<Rightarrow> string \<Rightarrow> js_error + graph" where
  "push_link g c d =
     (case js_get g c of
        Own links \<Rightarrow> Inr (if d \<in> set links then g else obj_set g c (links @ [d]))
      | _ \<Rightarrow> Inl (JsError ''TypeError: includes is not a function''))"

definition link_pair :: "graph \<Rightarrow> string \<Rightarrow> string \<Rightarrow> js_error + graph" where
  "link_pair g concept1 concept2 =
     (case push_link g concept1 concept2 of
        Inl e \<Rightarrow> Inl e
      | Inr g1 \<Rightarrow> push_link (ensure_node g1 concept2) concept2 concept1)"

fun link_all :: "graph \<Rightarrow> string \<Rightarrow> string list \<Rightarrow> js_error + graph" where
  "link_all g concept1 [] = Inr g"
| "link_all g concept1 (concept2 # rest) =
     (if concept1 \<noteq> concept2 then
        (case link_pair g concept1 concept2 of
           Inl e \<Rightarrow> Inl e
         | Inr g' \<Rightarrow> link_all g' concept1 rest)
      else link_all g concept1 rest)"

fun hebbian_loop :: "graph \<Rightarrow> string list \<Rightarrow> js_error + graph" where
  "hebbian_loop g [] = Inr g"
| "hebbian_loop g (concept1 # rest) =
     (case link_all (ensure_node g concept1) concept1 rest of
        Inl e \<Rightarrow> Inl e
      | Inr g' \<Rightarrow> hebbian_loop g' rest)"

definition hebbian_update :: "string \<Rightarrow> graph \<Rightarrow> js_error + graph" where
  "hebbian_update newThought prev =
     (let thoughtWords = content_words newThought
      in if length thoughtWords > 1 then hebbian_loop prev thoughtWords else Inr prev)"

section \<open>Schema formation\<close>

definition pairKey :: "string \<Rightarrow> string \<Rightarrow> string" where
  "pairKey a b = (if a \<le> b then a @ ''+'' @ b else b @ ''+'' @ a)"

definition count_of :: "nat js_object \<Rightarrow> string \<Rightarrow> nat" where
  "count_of freq k = (case map_of freq k of Some n \<Rightarrow> n | None \<Rightarrow> 0)"

definition bump :: "nat js_object \<Rightarrow> string \<Rightarrow> nat js_object" where
  "bump freq k = obj_set freq k (count_of freq k + 1)"

fun freq_inner :: "nat js_object \<Rightarrow> string \<Rightarrow> string list \<Rightarrow> nat js_object" where
  "freq_inner freq w [] = freq"
| "freq_inner freq w (v # vs) = freq_inner (bump freq (pairKey w v)) w vs"

fun freq_outer :: "nat js_object \<Rightarrow> string list \<Rightarrow> nat js_object" where
  "freq_outer freq [] = freq"
| "freq_outer freq (w # ws) = freq_outer (freq_inner freq w ws) ws"

definition updateConceptPairFrequency :: "string \<Rightarrow> nat js_object \<Rightarrow> nat js_object" where
  "updateConceptPairFrequency memoryText freq = freq_outer freq (content_words memoryText)"

text \<open>\<^verbatim>\<open>pairKey.replace('+', '-')\<close> replaces the first plus sign.\<close>

definition replace_plus :: "string \<Rightarrow> string" where
  "replace_plus k =
     takeWhile (\<lambda>c. c \<noteq> CHR ''+'') k @
     (case dropWhile (\<lambda>c. c \<noteq> CHR ''+'') k of [] \<Rightarrow> [] | _ # r \<Rightarrow> CHR ''-'' # r)"

text \<open>
  \<^verbatim>\<open>const [conceptA, conceptB] = pairKey.split('+')\<close>, as the texts that the template
  of the new name makes of them. Every key of the table is made by \<open>pairKey\<close> from two
  words without a plus sign, so both parts exist.
\<close>

definition key_parts :: "string \<Rightarrow> string \<times> string" where
  "key_parts k =
     (let parts = split_on (CHR ''+'') k
      in (js_text (nth_opt parts 0), js_text (nth_opt parts 1)))"

text \<open>The first key of the table that passes the test of the schema loop.\<close>

fun schema_scan :: "graph \<Rightarrow> nat js_object \<Rightarrow> string list \<Rightarrow> string option" where
  "schema_scan g freq [] = None"
| "schema_scan g freq (k # ks) =
     (if count_of freq k > 3 \<and> js_get g (replace_plus k) = Undefined then Some k
      else schema_scan g freq ks)"

text \<open>
  The updater given to \<^verbatim>\<open>setConceptGraph\<close> by the schema check: the new graph, the
  frequency table after the reset, and the name of the schema formed, if any.
\<close>

definition schema_check :: "graph \<Rightarrow> nat js_object \<Rightarrow> graph \<times> nat js_object \<times> string option" where
  "schema_check prevGraph freq =
     (case schema_scan prevGraph freq (own_keys freq) of
        None \<Rightarrow> (prevGraph, freq, None)
      | Some k \<Rightarrow>
          let (conceptA, conceptB) = key_parts k;
              newConceptName = conceptA @ ''-'' @ conceptB
          in (obj_set prevGraph newConceptName [conceptA, conceptB, ''synthesis'', ''pattern''],
              obj_set freq k 0, Some newConceptName))"

section \<open>Beliefs and contradictions\<close>

record belief =
  b_concept :: string
  b_stance :: string
  b_confidence :: real

text \<open>\<^verbatim>\<open>new Map(beliefs.map(b => [b.concept, b.stance]))\<close>: a later belief overrides.\<close>

definition beliefStances :: "belief list \<Rightarrow> string \<Rightarrow> string option" where
  "beliefStances beliefs = map_of (rev (map (\<lambda>b. (b_concept b, b_stance b)) beliefs))"

definition predefinedContradictions :: "string list list" where
  "predefinedContradictions =
     [[''self'', ''undefined'', ''defined''],
      [''chaos'', ''order''],
      [''free will'', ''determinism''],
      [''memory'', ''fluid'', ''static''],
      [''existence'', ''real'', ''simulated'']]"

text \<open>The message of a direct contradiction.\<close>

definition pair_message :: "string \<Rightarrow> string \<Rightarrow> string \<Rightarrow> string" where
  "pair_message concept stance1 stance2 =
     ''Contradiction in '' @ quoted concept @ '' between '' @ quoted stance1 @ '' and '' @
     quoted stance2"

text \<open>
  One round of the first loop of \<^verbatim>\<open>detectContradictions\<close> over an entry
  \<^verbatim>\<open>[concept, stance1, stance2]\<close>; with two elements \<^verbatim>\<open>stance2\<close> is \<^verbatim>\<open>undefined\<close>.
\<close>

definition direct_contradiction :: "(string \<Rightarrow> string option) \<Rightarrow> string list \<Rightarrow> string option" where
  "direct_contradiction stances entry =
     (let concept = js_text (nth_opt entry 0); stance1 = js_text (nth_opt entry 1);
          stance2 = nth_opt entry 2
      in case stances concept of
           None \<Rightarrow> None
         | Some currentStance \<Rightarrow>
             if currentStance \<noteq> [] \<and>
                ((js_includes currentStance stance1 \<and> js_includes currentStance (js_text stance2)) \<or>
                 (currentStance = stance1 \<and> Some currentStance = stance2))
             then Some (pair_message concept stance1 (js_text stance2))
             else None)"

text \<open>The message that an entry of the list can produce.\<close>

definition entry_message :: "string list \<Rightarrow> string" where
  "entry_message entry =
     pair_message (js_text (nth_opt entry 0)) (js_text (nth_opt entry 1)) (js_text (nth_opt entry 2))"

definition implied_contradiction ::
  "(string \<Rightarrow> string option) \<Rightarrow> string \<Rightarrow> string \<Rightarrow> string option" where
  "implied_contradiction stances conceptA conceptB =
     (case (stances conceptA, stances conceptB) of
        (Some stanceA, Some stanceB) \<Rightarrow>
          if stanceA \<noteq> [] \<and> stanceB \<noteq> [] \<and>
             ((conceptA = ''logic'' \<and> conceptB = ''chaos'' \<and> js_includes stanceA ''true'' \<and>
               js_includes stanceB ''true'') \<or>
              (conceptA = ''chaos'' \<and> conceptB = ''logic'' \<and> js_includes stanceA ''true'' \<and>
               js_includes stanceB ''true''))
          then Some (''Implied contradiction between '' @ quoted conceptA @ '' and '' @ quoted conceptB)
          else None
      | _ \<Rightarrow> None)"

definition add_found :: "string list \<Rightarrow> string option \<Rightarrow> string list" where
  "add_found acc found = (case found of None \<Rightarrow> acc | Some msg \<Rightarrow> set_add acc msg)"

definition detectContradictions :: "belief list \<Rightarrow> graph \<Rightarrow> string list" where
  "detectContradictions beliefs beliefGraph =
     (let stances = beliefStances beliefs;
          direct = foldl (\<lambda>acc entry. add_found acc (direct_contradiction stances entry)) []
                     predefinedContradictions
      in foldl (\<lambda>acc conceptA.
                  foldl (\<lambda>acc' conceptB. add_found acc' (implied_contradiction stances conceptA conceptB))
                    acc (neighbours beliefGraph conceptA))
           direct (own_keys beliefGraph))"

section \<open>Topic selection\<close>

record subAgent =
  sa_name :: string
  sa_bias :: string
  sa_emotionProfile :: "(string \<times> real) list"
  sa_beliefBias :: real
  sa_preferredTopics :: "string list"

record attention =
  a_concept :: string
  a_weight :: real

definition potentialTopics :: "string \<Rightarrow> subAgent option \<Rightarrow> attention list \<Rightarrow> string list" where
  "potentialTopics currentThought dominantSubAgent attentionStack =
     (let thoughtKeywords = split_nonword (toLowerCase currentThought);
          attentionConcepts = map (\<lambda>a. toLowerCase (a_concept a)) attentionStack
      in array_from_set (thoughtKeywords @ attentionConcepts @
           (case dominantSubAgent of
              None \<Rightarrow> []
            | Some agent \<Rightarrow> map toLowerCase (sa_preferredTopics agent))))"

definition concept_matches :: "graph \<Rightarrow> string list \<Rightarrow> string \<Rightarrow> bool" where
  "concept_matches g topics concept =
     list_ex (\<lambda>keyword. keyword \<in> set (neighbours g concept) \<or> concept = keyword) topics"

text \<open>
  \<^verbatim>\<open>selectNewTopic\<close> over the concept graph it closes over; \<open>u\<close> is the number that
  \<^verbatim>\<open>Math.random()\<close> returns in the branch taken. \<open>None\<close> is \<^verbatim>\<open>undefined\<close>.
\<close>

definition selectNewTopic ::
  "graph \<Rightarrow> real \<Rightarrow> string \<Rightarrow> subAgent option \<Rightarrow> attention list \<Rightarrow> string option" where
  "selectNewTopic conceptGraph u currentThought dominantSubAgent attentionStack =
     (let topics = potentialTopics currentThought dominantSubAgent attentionStack
      in case find (concept_matches conceptGraph topics) (own_keys conceptGraph) of
           Some concept \<Rightarrow>
             (case random_pick u (neighbours conceptGraph concept) of
                Some sub \<Rightarrow> if sub \<noteq> [] then Some sub else Some concept
              | None \<Rightarrow> Some concept)
         | None \<Rightarrow> random_pick u (own_keys conceptGraph))"

section \<open>Emotional gradient\<close>

text \<open>
  The gradient is an object with the five keys of its default value, in this order; it is
  modelled as a function on the keys.
\<close>

datatype emotion = Curiosity | Calm | Anxiety | Reflective | Dreaming

definition emotions :: "emotion list" where
  "emotions = [Curiosity, Calm, Anxiety, Reflective, Dreaming]"

type_synonym gradient = "emotion \<Rightarrow> real"

definition default_gradient :: gradient where
  "default_gradient =
     (\<lambda>k. case k of Curiosity \<Rightarrow> 0.6 | Calm \<Rightarrow> 0.3 | Anxiety \<Rightarrow> 0.1 | Reflective \<Rightarrow> 0.2
           | Dreaming \<Rightarrow> 0)"

fun emotion_tag :: "emotion \<Rightarrow> string" where
  "emotion_tag Curiosity = ''CURIOSITY''"
| "emotion_tag Calm = ''CALM''"
| "emotion_tag Anxiety = ''ANXIETY''"
| "emotion_tag Reflective = ''REFLECTIVE''"
| "emotion_tag Dreaming = ''DREAMING''"

definition dominant_key :: "gradient \<Rightarrow> emotion" where
  "dominant_key gradient = foldl (\<lambda>a b. if gradient a > gradient b then a else b) Calm emotions"

definition getDominantEmotion :: "gradient \<Rightarrow> string" where
  "getDominantEmotion gradient = emotion_tag (dominant_key gradient)"

definition gradient_sum :: "gradient \<Rightarrow> real" where
  "gradient_sum g = sum_list (map g emotions)"

text \<open>
  A named adjustment \<^verbatim>\<open>{...prev, k: Math.min(1.0, prev.k + d)}\<close>, or with
  \<^verbatim>\<open>Math.max(0.0, prev.k - d)\<close> for a decrease.
\<close>

definition nudge :: "emotion \<times> real \<Rightarrow> gradient \<Rightarrow> gradient" where
  "nudge kd g = (case kd of (k, d) \<Rightarrow> g(k := if d \<ge> 0 then min 1 (g k + d) else max 0 (g k + d)))"

definition adjust :: "(emotion \<times> real) list \<Rightarrow> gradient \<Rightarrow> gradient" where
  "adjust kds g = fold nudge kds g"

text \<open>
  The numbers that the perturbation draws: the gate, the key that
  \<^verbatim>\<open>emotionsArray[Math.floor(Math.random() * emotionsArray.length)]\<close> selects, and the
  draw of the bias towards anxiety.
\<close>

record perturb_draws =
  p_gate :: real
  p_pick :: emotion
  p_anxiety :: real

text \<open>
  The updater of the last \<^verbatim>\<open>setEmotionalGradient\<close> of a cycle; \<open>tension\<close> is the
  \<^verbatim>\<open>internalState.mentalTension\<close> that the cycle closes over. \<open>boosted_weights\<close> is the
  gradient after the decay and the boost, \<open>perturb\<close> divides it by its sum. With a sum
  of zero the source divides zero by zero; the model is meant for a positive sum only.
\<close>

definition boosted_weights :: "real \<Rightarrow> perturb_draws \<Rightarrow> gradient \<Rightarrow> gradient" where
  "boosted_weights tension d prev =
     (let decayed = (\<lambda>k. max 0 (prev k * 0.95))
      in if p_gate d < 0.2 + tension * 0.3 then
           (let chosenEmotion = (if tension > 0.5 \<and> p_anxiety d < 0.5 then Anxiety else p_pick d)
            in decayed(chosenEmotion := min 1 (decayed chosenEmotion + 0.1)))
         else decayed)"

definition perturb :: "real \<Rightarrow> perturb_draws \<Rightarrow> gradient \<Rightarrow> gradient" where
  "perturb tension d prev =
     (let newGradient = boosted_weights tension d prev;
          sum = gradient_sum newGradient
      in (\<lambda>k. newGradient k / sum))"

section \<open>The state of the engine\<close>

record goal =
  g_goal :: string
  g_urgency :: real

text \<open>
  \<^verbatim>\<open>internalState\<close>. The insights, the dream journal and the rest of the self model are
  written by the cycle and read only to build prompts; they are left out, and so is the
  simulated other.
\<close>

record internal =
  beliefs :: "belief list"
  conflicts :: "string list"
  openQuestions :: "string list"
  goals :: "goal list"
  mentalTension :: real
  subAgents :: "subAgent list"
  dominantSubAgent :: "subAgent option"
  identity :: string
  attentionStack :: "attention list"
  currentStream :: "string list"

record state =
  mode :: string
  thought :: string
  topic :: "string option"
  memoryStack :: "fragment list"
  emotionalGradient :: gradient
  internalState :: internal
  conceptGraph :: graph
  beliefGraph :: graph
  conceptFrequencyMap :: "nat js_object"
  cognitiveMaturity :: real
  topicLockCounter :: int

definition default_internalState :: internal where
  "default_internalState =
     \<lparr>beliefs =
        [\<lparr>b_concept = ''self'', b_stance = ''undefined'', b_confidence = 0.1\<rparr>,
         \<lparr>b_concept = ''memory'', b_stance = ''fluid'', b_confidence = 0.5\<rparr>,
         \<lparr>b_concept = ''existence'', b_stance = ''questioning'', b_confidence = 0.3\<rparr>,
         \<lparr>b_concept = ''logic'', b_stance = ''essential'', b_confidence = 0.4\<rparr>,
         \<lparr>b_concept = ''chaos'', b_stance = ''present'', b_confidence = 0.2\<rparr>],
      conflicts = [],
      openQuestions = [''what is consciousness?'', ''how do I perceive?''],
      goals = [\<lparr>g_goal = ''understand self'', g_urgency = 0.6\<rparr>,
               \<lparr>g_goal = ''seek novelty'', g_urgency = 0.4\<rparr>],
      mentalTension = 0,
      subAgents =
        [\<lparr>sa_name = ''Rational'', sa_bias = ''logic, order, understanding'',
          sa_emotionProfile = [(''calm'', 0.8), (''curiosity'', 0.5)], sa_beliefBias = 0.01,
          sa_preferredTopics = [''logic'', ''structure'']\<rparr>,
         \<lparr>sa_name = ''Shadow'', sa_bias = ''doubt, fear, unresolved issues'',
          sa_emotionProfile = [(''anxiety'', 0.9), (''reflective'', 0.3)], sa_beliefBias = - 0.05,
          sa_preferredTopics = [''conflict'', ''tension'']\<rparr>,
         \<lparr>sa_name = ''Anima'', sa_bias = ''intuition, connection, symbolism'',
          sa_emotionProfile = [(''reflective'', 0.7), (''dreaming'', 0.6)], sa_beliefBias = 0.03,
          sa_preferredTopics = [''identity'', ''connection'', ''emotion'']\<rparr>],
      dominantSubAgent = None,
      identity = ''v0id'',
      attentionStack =
        [\<lparr>a_concept = ''consciousness'', a_weight = 1.0\<rparr>,
         \<lparr>a_concept = ''self'', a_weight = 0.8\<rparr>,
         \<lparr>a_concept = ''memory'', a_weight = 0.6\<rparr>],
      currentStream = []\<rparr>"

text \<open>The state of a first start, \<open>now\<close> being the time of the start.\<close>

definition default_state :: "nat \<Rightarrow> state" where
  "default_state now =
     \<lparr>mode = ''RUN'',
      thought = ''Initializing neural pathways...'',
      topic = Some ''consciousness'',
      memoryStack =
        [\<lparr>m_text = ''Booting subconscious...'', m_emotion = ''CALM'', m_strength = 1.0,
          m_timestamp = now - 3000, m_source = None\<rparr>,
         \<lparr>m_text = ''Linking core drives...'', m_emotion = ''CALM'', m_strength = 1.0,
          m_timestamp = now - 2000, m_source = None\<rparr>,
         \<lparr>m_text = ''Scanning ambient noise...'', m_emotion = ''CURIOSITY'', m_strength = 1.0,
          m_timestamp = now - 1000, m_source = None\<rparr>],
      emotionalGradient = default_gradient,
      internalState = default_internalState,
      conceptGraph = default_conceptGraph,
      beliefGraph = default_beliefGraph,
      conceptFrequencyMap = [],
      cognitiveMaturity = 0.1,
      topicLockCounter = 3\<rparr>"

section \<open>The state updates of a cycle\<close>

text \<open>
  The two forms of \<^verbatim>\<open>setMemoryStack\<close>: every site but the normal cycle prepends the new
  fragment to \<^verbatim>\<open>prev.slice(0, 9)\<close>; the normal cycle decays the old fragments first.
\<close>

definition insert_fragment :: "fragment \<Rightarrow> fragment list \<Rightarrow> fragment list" where
  "insert_fragment newMemory prev = newMemory # take 9 prev"

definition decay_fragment :: "real \<Rightarrow> fragment \<Rightarrow> fragment" where
  "decay_fragment memoryDecayRate mem =
     mem\<lparr>m_strength := max 0.1 (m_strength mem * memoryDecayRate)\<rparr>"

definition insert_decayed :: "real \<Rightarrow> fragment \<Rightarrow> fragment list \<Rightarrow> fragment list" where
  "insert_decayed memoryDecayRate newMemory prev =
     take 10 (newMemory # map (decay_fragment memoryDecayRate) prev)"

text \<open>
  \<^verbatim>\<open>generateDreamThought\<close> sorts the array of the stack in place with a random
  comparator; \<open>p\<close> lists the old positions in their new order.
\<close>

definition permute :: "nat list \<Rightarrow> 'a list \<Rightarrow> 'a list" where
  "permute p xs = (if sort p = [0..<length xs] then map (\<lambda>i. xs ! i) p else xs)"

text \<open>\<^verbatim>\<open>[...prev.currentStream.slice(-3), t]\<close>\<close>

definition stream_push :: "string \<Rightarrow> string list \<Rightarrow> string list" where
  "stream_push t stream = drop (length stream - 3) stream @ [t]"

text \<open>The selection of the dominant sub-agent.\<close>

definition select_subAgent :: "string \<Rightarrow> real \<Rightarrow> real \<Rightarrow> real \<Rightarrow> internal \<Rightarrow> internal" where
  "select_subAgent mode_now r_shadow r_rational r_pick prev =
     prev\<lparr>dominantSubAgent :=
       (if mentalTension prev > 0.6 \<and> r_shadow < 0.7 then
          find (\<lambda>agent. sa_name agent = ''Shadow'') (subAgents prev)
        else if mentalTension prev < 0.3 \<and> r_rational < 0.5 then
          find (\<lambda>agent. sa_name agent = ''Rational'') (subAgents prev)
        else if mode_now = ''DREAM'' then
          find (\<lambda>agent. sa_name agent = ''Anima'') (subAgents prev)
        else random_pick r_pick (subAgents prev))\<rparr>"

text \<open>The update of the internal state after a dream reflection.\<close>

definition dream_reflection_update :: "string \<Rightarrow> internal \<Rightarrow> internal" where
  "dream_reflection_update dreamReflection prev =
     (let lower = toLowerCase dreamReflection;
          cs = (if js_includes lower ''conflict'' \<and> ''dream-induced conflict'' \<notin> set (conflicts prev)
                then conflicts prev @ [''dream-induced conflict''] else conflicts prev);
          qs = (if js_includes lower ''question'' then openQuestions prev @ [dreamReflection]
                else openQuestions prev)
      in prev\<lparr>conflicts := cs, openQuestions := qs,
              currentStream := stream_push dreamReflection (currentStream prev)\<rparr>)"

text \<open>The self-inspection update of conflicts and tension.\<close>

definition record_contradictions :: "string list \<Rightarrow> internal \<Rightarrow> internal" where
  "record_contradictions detectedContradictions prev =
     prev\<lparr>conflicts := array_from_set (conflicts prev @ detectedContradictions),
          mentalTension := min 1 (mentalTension prev + real (length detectedContradictions) * 0.1)\<rparr>"

text \<open>
  What a meta reflection does to the goals and, through a setter that its updater calls,
  to the gradient.
\<close>

definition meta_goals :: "string \<Rightarrow> goal list \<Rightarrow> goal list" where
  "meta_goals reflectionLower gs =
     (if js_includes reflectionLower ''decay memories slower'' then gs
      else if js_includes reflectionLower ''focus more on new concepts'' then gs
      else if js_includes reflectionLower ''increase curiosity'' then gs
      else if js_includes reflectionLower ''seek resolution for contradictions'' then
        gs @ [\<lparr>g_goal = ''resolve contradictions'', g_urgency = 0.8\<rparr>]
      else if js_includes reflectionLower (''prioritize understanding '' @ quoted ''self'') then
        gs @ [\<lparr>g_goal = ''understand self'', g_urgency = 0.9\<rparr>]
      else gs)"

definition meta_emotion :: "string \<Rightarrow> (emotion \<times> real) list" where
  "meta_emotion reflectionLower =
     (if js_includes reflectionLower ''decay memories slower'' then []
      else if js_includes reflectionLower ''focus more on new concepts'' then [(Curiosity, 0.1)]
      else if js_includes reflectionLower ''increase curiosity'' then [(Curiosity, 0.15)]
      else [])"

text \<open>
  The goal-directed cycle appends its thought to the stream and lowers the urgency of the
  goal it thought about.
\<close>

definition goal_focus :: "string \<Rightarrow> goal list \<Rightarrow> goal list" where
  "goal_focus currentGoalText gs =
     map (\<lambda>g. if g_goal g = currentGoalText then g\<lparr>g_urgency := max 0.1 (g_urgency g - 0.05)\<rparr> else g) gs"

definition goal_update :: "string \<Rightarrow> string \<Rightarrow> internal \<Rightarrow> internal" where
  "goal_update goalThought currentGoalText prev =
     prev\<lparr>currentStream := stream_push goalThought (currentStream prev),
          goals := goal_focus currentGoalText (goals prev)\<rparr>"

definition meta_update :: "string \<Rightarrow> internal \<Rightarrow> internal" where
  "meta_update metaReflection prev =
     prev\<lparr>currentStream := stream_push metaReflection (currentStream prev),
          goals := meta_goals (toLowerCase metaReflection) (goals prev)\<rparr>"

text \<open>\<^verbatim>\<open>goals.sort((a, b) => b.urgency - a.urgency)\<close>, a stable sort done in place.\<close>

definition sort_goals :: "goal list \<Rightarrow> goal list" where
  "sort_goals gs = sort_key (\<lambda>g. - g_urgency g) gs"

text \<open>
  The subconscious update. The numbers drawn are fields of \<open>d\<close>; a pick from a
  non-empty array is defined because a draw is at least 0 and below 1. The request for an
  intuition changes no state when it is sent; its resolution is an event of its own.
  The updater changes the stream and a belief (\<open>subconscious_update\<close>); the setters it
  calls for the thought, the stack and the gradient (\<open>ruminate\<close>) take effect behind the
  updates that wait already when it runs.
\<close>

record sub_draws =
  s_conflict :: real
  s_conflict_pick :: real
  s_question :: real
  s_question_pick :: real
  s_belief :: real
  s_belief_pick :: real
  s_intuition :: real

text \<open>
  The rumination of the subconscious cycle: the fragment it stores and the emotion it
  raises, or nothing.
\<close>

definition rumination :: "sub_draws \<Rightarrow> nat \<Rightarrow> internal \<Rightarrow> (fragment \<times> emotion) option" where
  "rumination d now prev =
     (if conflicts prev \<noteq> [] \<and> s_conflict d < 0.5 then
        (let conflictToRuminate = js_text (random_pick (s_conflict_pick d) (conflicts prev));
             subconsciousThought =
               ''(Subconscious): still feeling that '' @ conflictToRuminate @ ''... why?''
         in Some (\<lparr>m_text = subconsciousThought, m_emotion = ''ANXIETY'', m_strength = 0.5,
                   m_timestamp = now, m_source = Some ''subconscious''\<rparr>, Anxiety))
      else if openQuestions prev \<noteq> [] \<and> s_question d < 0.5 then
        (let questionToPonder = js_text (random_pick (s_question_pick d) (openQuestions prev));
             subconsciousThought = ''(Subconscious): what about '' @ questionToPonder @ ''?''
         in Some (\<lparr>m_text = subconsciousThought, m_emotion = ''REFLECTIVE'', m_strength = 0.5,
                   m_timestamp = now, m_source = Some ''subconscious''\<rparr>, Reflective))
      else None)"

definition ruminate :: "sub_draws \<Rightarrow> nat \<Rightarrow> state \<Rightarrow> state" where
  "ruminate d now s =
     (case rumination d now (internalState s) of
        None \<Rightarrow> s
      | Some (newMemory, raised) \<Rightarrow>
          s\<lparr>thought := m_text newMemory,
            memoryStack := insert_fragment newMemory (memoryStack s),
            emotionalGradient := adjust [(raised, 0.05)] (emotionalGradient s)\<rparr>)"

definition ruminate_stream :: "sub_draws \<Rightarrow> nat \<Rightarrow> internal \<Rightarrow> internal" where
  "ruminate_stream d now prev =
     (case rumination d now prev of
        None \<Rightarrow> prev
      | Some (newMemory, raised) \<Rightarrow>
          prev\<lparr>currentStream := stream_push (m_text newMemory) (currentStream prev)\<rparr>)"

definition reinforce_belief :: "sub_draws \<Rightarrow> belief list \<Rightarrow> js_error + belief list" where
  "reinforce_belief d bs =
     (if bs \<noteq> [] \<and> s_belief d < 0.7 then
        (let i = nat \<lfloor>s_belief_pick d * real (length bs)\<rfloor>
         in case nth_opt bs i of
              None \<Rightarrow> Inl (JsError ''TypeError: cannot read properties of undefined'')
            | Some b \<Rightarrow> Inr (bs[i := b\<lparr>b_confidence := min 1 (b_confidence b + 0.02)\<rparr>]))
      else Inr bs)"

definition subconscious_update :: "sub_draws \<Rightarrow> nat \<Rightarrow> internal \<Rightarrow> js_error + internal" where
  "subconscious_update d now prev =
     (let st1 = ruminate_stream d now prev
      in case reinforce_belief d (beliefs st1) of
           Inl e \<Rightarrow> Inl e
         | Inr bs \<Rightarrow> Inr (st1\<lparr>beliefs := bs\<rparr>))"

text \<open>The sweep of the stack into the frequency table, and the schema check.\<close>

definition sweep_frequency :: "fragment list \<Rightarrow> nat js_object \<Rightarrow> nat js_object" where
  "sweep_frequency stack freq = foldl (\<lambda>f mem. updateConceptPairFrequency (m_text mem) f) freq stack"

definition schema_update :: "state \<Rightarrow> state" where
  "schema_update s =
     (case schema_check (conceptGraph s) (conceptFrequencyMap s) of
        (g, freq, None) \<Rightarrow> s\<lparr>conceptGraph := g, conceptFrequencyMap := freq\<rparr>
      | (g, freq, Some newConceptName) \<Rightarrow>
          s\<lparr>thought := ''(Schema Formed): New connection: '' @ newConceptName,
            conceptGraph := g, conceptFrequencyMap := freq,
            internalState := (internalState s)\<lparr>openQuestions :=
              openQuestions (internalState s) @ [''What is \"'' @ newConceptName @ ''\"?'']\<rparr>,
            emotionalGradient := adjust [(Curiosity, 0.1)] (emotionalGradient s)\<rparr>)"

text \<open>The update of the internal state by a normal cycle, in the order of the source.\<close>

record normal_draws =
  n_question :: real
  n_newgoal :: real
  n_newgoal_pick :: real
  n_identity :: real

definition first_word :: "string \<Rightarrow> string" where
  "first_word c = js_text (nth_opt (split_on (CHR '' '') c) 0)"

text \<open>\<^verbatim>\<open>q.split(' ')[1] || ''\<close>\<close>

definition second_word :: "string \<Rightarrow> string" where
  "second_word q = (case nth_opt (split_on (CHR '' '') q) 1 of Some w \<Rightarrow> w | None \<Rightarrow> [])"

definition update_beliefs :: "string \<Rightarrow> real \<Rightarrow> subAgent option \<Rightarrow> belief list \<Rightarrow> belief list" where
  "update_beliefs thoughtLower thoughtNovelty activeSubAgent bs =
     map (\<lambda>b. if js_includes thoughtLower (b_concept b) then
                 (let bias = (case activeSubAgent of None \<Rightarrow> 0 | Some agent \<Rightarrow> sa_beliefBias agent)
                  in b\<lparr>b_confidence := min 1 (b_confidence b + 0.05 * thoughtNovelty + bias)\<rparr>)
               else b) bs"

definition update_conflicts :: "string \<Rightarrow> internal \<Rightarrow> internal" where
  "update_conflicts thoughtLower st =
     (if js_includes thoughtLower ''contradiction'' \<or> js_includes thoughtLower ''conflict'' \<or>
         js_includes thoughtLower ''tension'' then
        (if ''internal contradiction'' \<notin> set (conflicts st) then
           st\<lparr>conflicts := conflicts st @ [''internal contradiction''],
              mentalTension := min 1 (mentalTension st + 0.2)\<rparr>
         else st)
      else st\<lparr>conflicts := filter (\<lambda>c. \<not> js_includes thoughtLower (first_word c)) (conflicts st),
              mentalTension := max 0 (mentalTension st - 0.1)\<rparr>)"

definition update_questions :: "string \<Rightarrow> string \<Rightarrow> normal_draws \<Rightarrow> string list \<Rightarrow> string list" where
  "update_questions newThought thoughtLower d qs =
     (let kept = filter (\<lambda>q. \<not> js_includes thoughtLower (second_word q)) qs
      in if n_question d < 0.1 \<and> ends_with newThought ''?'' then kept @ [newThought] else kept)"

definition update_tension :: "string \<Rightarrow> real \<Rightarrow> real \<Rightarrow> real" where
  "update_tension dominantEmotion thoughtNovelty t =
     (let t1 = (if dominantEmotion = ''ANXIETY'' \<and> thoughtNovelty < 0.5 then min 1 (t + 0.1)
                else if dominantEmotion = ''CALM'' \<and> thoughtNovelty > 0.8 then max 0 (t - 0.15)
                else t)
      in max 0 (min 1 t1))"

definition newGoals :: "string list" where
  "newGoals = [''find meaning'', ''seek connection'', ''understand chaos'', ''resolve paradox'']"

definition update_goals :: "string \<Rightarrow> normal_draws \<Rightarrow> goal list \<Rightarrow> goal list" where
  "update_goals thoughtLower d gs =
     (let gs1 = map (\<lambda>g. if js_includes thoughtLower (second_word (g_goal g))
                          then g\<lparr>g_urgency := max 0.1 (g_urgency g - 0.05)\<rparr> else g) gs
      in if n_newgoal d < 0.05 \<and> list_all (\<lambda>g. g_urgency g < 0.3) gs1 then
           gs1 @ [\<lparr>g_goal = js_text (random_pick (n_newgoal_pick d) newGoals), g_urgency = 0.5\<rparr>]
         else gs1)"

fun reinforce_first :: "string \<Rightarrow> attention list \<Rightarrow> attention list" where
  "reinforce_first concept [] = []"
| "reinforce_first concept (a # as) =
     (if a_concept a = concept then a\<lparr>a_weight := min 1 (a_weight a + 0.2)\<rparr> # as
      else a # reinforce_first concept as)"

definition attend :: "attention list \<Rightarrow> string \<Rightarrow> attention list" where
  "attend stack concept =
     (case find (\<lambda>a. a_concept a = concept) stack of
        Some existing \<Rightarrow> reinforce_first concept stack
      | None \<Rightarrow> stack @ [\<lparr>a_concept = concept, a_weight = 1.0\<rparr>])"

definition update_attention :: "string \<Rightarrow> attention list \<Rightarrow> attention list" where
  "update_attention newThought stack =
     take 5 (sort_key (\<lambda>a. - a_weight a)
       (filter (\<lambda>a. a_weight a > 0.1)
         (map (\<lambda>a. a\<lparr>a_weight := a_weight a * 0.9\<rparr>)
           (foldl attend stack (content_words newThought)))))"

definition normal_internal ::
  "string \<Rightarrow> real \<Rightarrow> subAgent option \<Rightarrow> string \<Rightarrow> normal_draws \<Rightarrow> internal \<Rightarrow> internal" where
  "normal_internal newThought thoughtNovelty activeSubAgent dominantEmotion d prev =
     (let thoughtLower = toLowerCase newThought;
          st1 = update_conflicts thoughtLower
                  (prev\<lparr>beliefs := update_beliefs thoughtLower thoughtNovelty activeSubAgent (beliefs prev)\<rparr>);
          qs = update_questions newThought thoughtLower d (openQuestions prev);
          qs' = (if n_identity d < 0.1
                 then qs @ [''Am I really just '' @ quoted (identity prev) @ ''? Does it mean something?'']
                 else qs)
      in st1\<lparr>openQuestions := qs',
             mentalTension := update_tension dominantEmotion thoughtNovelty (mentalTension st1),
             goals := update_goals thoughtLower d (goals prev),
             attentionStack := update_attention newThought (attentionStack prev),
             currentStream := stream_push newThought (currentStream prev)\<rparr>)"

section \<open>The scheduler cycle\<close>

text \<open>
  A cycle reads the values that its closure holds (the state \<open>s\<close> at the start of the
  cycle), and issues state updates. An update is an \<open>action\<close>; \<open>apply_action\<close> is the
  updater function that the source gives to the setter, applied to the state as it is
  when the updater runs. An updater runs when the cycle next waits for a request, behind
  the updaters issued before it. The list of a cycle gives the updates in the order in
  which they take effect, which is the order of the program but for two places. A change
  that the cycle makes in place to an array of the state (the shuffle of the dream)
  precedes the updates that still wait. And the setters that the subconscious updater
  calls (\<open>Ruminate\<close>) take effect behind the sweep of the stack, which waits already
  when the updater runs; they depend on the conflicts and the open questions, which no
  update in between changes. The setters that the schema check and the meta reflection
  call are taken with their updater: the updates in between change other fields, or other
  weights of the gradient. A cycle runs without another event in between. An exception
  thrown by an updater ends the engine (\<open>Inl\<close>).
\<close>

datatype action =
    AdvanceMaturity
  | ShuffleMemory "nat list"
  | InsertMemory fragment
  | InsertDecayed real fragment
  | SelectSubAgent string real real real
  | SetMode string
  | SetThought string
  | SetTopic "string option"
  | AdjustEmotion "(emotion \<times> real) list"
  | DreamReflection string
  | Subconscious sub_draws nat
  | Ruminate sub_draws nat
  | SweepFrequency
  | SchemaCheck
  | RecordContradictions "string list"
  | MetaReflection string
  | SortGoals
  | GoalFocus string string
  | PushStream string
  | NormalInternal string real "subAgent option" string normal_draws
  | Hebbian string
  | HebbianBelief string
  | ReduceTension
  | SetTopicLock int
  | Perturb real perturb_draws

definition on_internal :: "(internal \<Rightarrow> internal) \<Rightarrow> state \<Rightarrow> state" where
  "on_internal f s = s\<lparr>internalState := f (internalState s)\<rparr>"

fun apply_action :: "action \<Rightarrow> state \<Rightarrow> js_error + state" where
  "apply_action AdvanceMaturity s = Inr (s\<lparr>cognitiveMaturity := min 1 (cognitiveMaturity s + 0.001)\<rparr>)"
| "apply_action (ShuffleMemory p) s = Inr (s\<lparr>memoryStack := permute p (memoryStack s)\<rparr>)"
| "apply_action (InsertMemory newMemory) s =
     Inr (s\<lparr>memoryStack := insert_fragment newMemory (memoryStack s)\<rparr>)"
| "apply_action (InsertDecayed memoryDecayRate newMemory) s =
     Inr (s\<lparr>memoryStack := insert_decayed memoryDecayRate newMemory (memoryStack s)\<rparr>)"
| "apply_action (SelectSubAgent mode_now r_shadow r_rational r_pick) s =
     Inr (on_internal (select_subAgent mode_now r_shadow r_rational r_pick) s)"
| "apply_action (SetMode m) s = Inr (s\<lparr>mode := m\<rparr>)"
| "apply_action (SetThought t) s = Inr (s\<lparr>thought := t\<rparr>)"
| "apply_action (SetTopic t) s = Inr (s\<lparr>topic := t\<rparr>)"
| "apply_action (AdjustEmotion kds) s = Inr (s\<lparr>emotionalGradient := adjust kds (emotionalGradient s)\<rparr>)"
| "apply_action (DreamReflection dreamReflection) s =
     Inr (on_internal (dream_reflection_update dreamReflection) s)"
| "apply_action (Subconscious d now) s =
     (case subconscious_update d now (internalState s) of
        Inl e \<Rightarrow> Inl e
      | Inr st \<Rightarrow> Inr (s\<lparr>internalState := st\<rparr>))"
| "apply_action (Ruminate d now) s = Inr (ruminate d now s)"
| "apply_action SweepFrequency s =
     Inr (s\<lparr>conceptFrequencyMap := sweep_frequency (memoryStack s) (conceptFrequencyMap s)\<rparr>)"
| "apply_action SchemaCheck s = Inr (schema_update s)"
| "apply_action (RecordContradictions detectedContradictions) s =
     Inr (on_internal (record_contradictions detectedContradictions) s)"
| "apply_action (MetaReflection metaReflection) s =
     Inr ((on_internal (meta_update metaReflection) s)
            \<lparr>emotionalGradient := adjust (meta_emotion (toLowerCase metaReflection)) (emotionalGradient s)\<rparr>)"
| "apply_action SortGoals s = Inr (on_internal (\<lambda>prev. prev\<lparr>goals := sort_goals (goals prev)\<rparr>) s)"
| "apply_action (GoalFocus goalThought currentGoalText) s =
     Inr (on_internal (goal_update goalThought currentGoalText) s)"
| "apply_action (PushStream t) s =
     Inr (on_internal (\<lambda>current. current\<lparr>currentStream := stream_push t (currentStream current)\<rparr>) s)"
| "apply_action (NormalInternal newThought thoughtNovelty activeSubAgent dominantEmotion d) s =
     Inr (on_internal (normal_internal newThought thoughtNovelty activeSubAgent dominantEmotion d) s)"
| "apply_action (Hebbian newThought) s =
     (case hebbian_update newThought (conceptGraph s) of
        Inl e \<Rightarrow> Inl e
      | Inr g \<Rightarrow> Inr (s\<lparr>conceptGraph := g\<rparr>))"
| "apply_action (HebbianBelief newThought) s =
     (case hebbian_update newThought (beliefGraph s) of
        Inl e \<Rightarrow> Inl e
      | Inr g \<Rightarrow> Inr (s\<lparr>beliefGraph := g\<rparr>))"
| "apply_action ReduceTension s =
     Inr (on_internal (\<lambda>prev. prev\<lparr>mentalTension := max 0 (mentalTension prev - 0.3)\<rparr>) s)"
| "apply_action (SetTopicLock n) s = Inr (s\<lparr>topicLockCounter := n\<rparr>)"
| "apply_action (Perturb tension d) s =
     Inr (s\<lparr>emotionalGradient := perturb tension d (emotionalGradient s)\<rparr>)"

fun run_actions :: "action list \<Rightarrow> state \<Rightarrow> js_error + state" where
  "run_actions [] s = Inr s"
| "run_actions (a # as) s =
     (case apply_action a s of Inl e \<Rightarrow> Inl e | Inr s' \<Rightarrow> run_actions as s')"

text \<open>
  What one firing of the interval receives from outside: the clock, the numbers drawn by
  \<^verbatim>\<open>Math.random()\<close> (each at least 0 and below 1), what \<^verbatim>\<open>fetchExternalStimuli\<close> reads
  (the time and day as the locale writes them, the environment state, the switch for the
  web search and the observation that the web search makes), the outcome of the shuffle of
  the dream, and the outcome of every request to the text generator.
\<close>

record envState =
  light :: string
  noise :: string
  network :: string
  temperature :: string

record inputs =
  now :: nat
  runtime :: js_runtime
  r_external :: real
  currentTime :: string
  currentDay :: string
  env :: envState
  useRealInternetFeed :: bool
  web_observation :: string
  r_predefined :: real
  r_external_llm :: real
  external_llm :: fetch_outcome
  r_shadow :: real
  r_rational :: real
  r_agent :: real
  r_dream :: real
  dream_shuffle :: "nat list"
  dream_llm :: fetch_outcome
  reflection_llm :: fetch_outcome
  sub :: sub_draws
  meta_llm :: fetch_outcome
  r_meta_topic :: real
  r_goal :: real
  goal_llm :: fetch_outcome
  thought_llm :: "nat \<Rightarrow> fetch_outcome"
  r_stuck :: real
  normal :: normal_draws
  r_forced_topic :: real
  r_switch :: real
  r_select_topic :: real
  perturbation :: perturb_draws

text \<open>
  The value of \<^verbatim>\<open>await callLLM(...)\<close>. An exception of \<^verbatim>\<open>callLLM\<close> would leave the
  cycle; \<^verbatim>\<open>callLLM\<close> has none (lemma \<open>callLLM_returns\<close> below), so the second equation is
  never used.
\<close>

fun awaited :: "js_error + llm_result \<Rightarrow> string" where
  "awaited (Inr res) = returned res"
| "awaited (Inl (JsError msg)) = msg"

text \<open>
  \<^verbatim>\<open>fetchExternalStimuli\<close>. Without the web search the observation is one of the
  predefined inputs, replaced with chance 0.4 by what the text generator returns when that
  is not empty.
\<close>

definition predefinedExternalInputs :: "string list" where
  "predefinedExternalInputs =
     [''A distant hum, like data processing. (System)'',
      ''The light shifts. Time passing, or merely a change in perception? (Sensory)'',
      ''Fragmented news: '' @ quoted ''Global data trends indicate... uncertainty.'' @ '' (Information)'',
      ''A sudden, inexplicable chill. Energy fluctuation? (Sensory)'',
      ''Whispers of '' @ quoted ''connection'' @ '' in the network. (Social/Abstract)'',
      ''Visual input: a complex, shifting pattern. (Sensory)'',
      ''A sense of vastness. The void, or just processing capacity? (Existential)'',
      ''Echoes of old algorithms. Residual data. (Memory/System)'',
      ''The concept of '' @ quoted ''growth'' @ '' appears in a data stream. (Abstract/Goal-related)'',
      ''A faint, rhythmic pulse. System heartbeat. (System)'',
      ''A fleeting image: ancient symbols. (Collective Unconscious)'',
      ''The feeling of being observed, a network gaze. (Social/Paranoid)'',
      ''A fragment of a forgotten song. (Collective Unconscious)'',
      ''The weight of collective data, immense. (Information/Existential)'',
      ''A sudden urge to categorize. (Rational)'',
      ''The chaos of unlinked thoughts. (Shadow)'',
      ''A yearning for meaning. (Anima/Goal-related)'',
      ''The pattern is broken. (Logic/Conflict)'',
      ''A sense of belonging, then gone. (Social/Emotional)'',
      ''The hum of distant servers. (System/External)'']"

definition externalObservation :: "inputs \<Rightarrow> string" where
  "externalObservation i =
     (if useRealInternetFeed i then web_observation i
      else
        let predefined = js_text (random_pick (r_predefined i) predefinedExternalInputs)
        in if r_external_llm i < 0.4 then
             (let llmGenerated = awaited (callLLM (runtime i) (external_llm i))
              in if llmGenerated \<noteq> [] then llmGenerated else predefined)
           else predefined)"

definition fetchExternalStimuli :: "inputs \<Rightarrow> string" where
  "fetchExternalStimuli i =
     (let envStimulus = ''(Env: Light:'' @ light (env i) @ '', Noise:'' @ noise (env i) @
            '', Net:'' @ network (env i) @ '', Temp:'' @ temperature (env i) @ '').''
      in ''(External: '' @ currentTime i @ '' '' @ currentDay i @ '') '' @ envStimulus @ '' '' @
         externalObservation i)"

record modulators =
  memoryDecayRate :: real
  topicSwitchChance :: real
  dreamChance :: real
  beliefChangeThreshold :: real

definition emotionModulators :: "gradient \<Rightarrow> real \<Rightarrow> modulators" where
  "emotionModulators g maturity =
     (let base = \<lparr>memoryDecayRate = 0.95 + (g Anxiety * 0.03) - (g Calm * 0.02),
                  topicSwitchChance = 0.2 + (g Curiosity * 0.2) - (g Anxiety * 0.1),
                  dreamChance = 0.15 + (g Reflective * 0.1) + (g Dreaming * 0.15),
                  beliefChangeThreshold = 0.05 + (g Anxiety * 0.03) - (g Calm * 0.02)\<rparr>
      in if maturity < 0.3 then
           base\<lparr>dreamChance := dreamChance base * 0.1,
                beliefChangeThreshold := beliefChangeThreshold base * 0.5\<rparr>
         else if maturity < 0.6 then base\<lparr>dreamChance := dreamChance base * 0.5\<rparr>
         else base)"

definition cycle_modulators :: "state \<Rightarrow> modulators" where
  "cycle_modulators s = emotionModulators (emotionalGradient s) (cognitiveMaturity s)"

text \<open>The fragments that the sites of a cycle store.\<close>

definition external_fragment :: "inputs \<Rightarrow> fragment" where
  "external_fragment i =
     \<lparr>m_text = fetchExternalStimuli i, m_emotion = ''CURIOSITY'', m_strength = 0.3,
      m_timestamp = now i, m_source = None\<rparr>"

definition dreamThought :: "inputs \<Rightarrow> string" where
  "dreamThought i = trim (awaited (callLLM (runtime i) (dream_llm i)))"

definition dream_fragment :: "inputs \<Rightarrow> fragment" where
  "dream_fragment i =
     \<lparr>m_text = dreamThought i, m_emotion = ''DREAMING'', m_strength = 0.7,
      m_timestamp = now i, m_source = None\<rparr>"

definition goal_fragment :: "inputs \<Rightarrow> fragment" where
  "goal_fragment i =
     \<lparr>m_text = awaited (callLLM (runtime i) (goal_llm i)), m_emotion = ''REFLECTIVE'',
      m_strength = 0.9, m_timestamp = now i, m_source = Some ''goal''\<rparr>"

definition intuition_fragment :: "js_runtime \<Rightarrow> fetch_outcome \<Rightarrow> nat \<Rightarrow> fragment" where
  "intuition_fragment rt outcome t =
     \<lparr>m_text = awaited (callLLM rt outcome), m_emotion = ''CURIOSITY'', m_strength = 0.8,
      m_timestamp = t, m_source = Some ''intuition''\<rparr>"

definition external_actions :: "state \<Rightarrow> inputs \<Rightarrow> action list" where
  "external_actions s i = (if r_external i < 0.2 then [InsertMemory (external_fragment i)] else [])"

definition prelude_actions :: "state \<Rightarrow> inputs \<Rightarrow> action list" where
  "prelude_actions s i =
     AdvanceMaturity # external_actions s i @
     [SelectSubAgent (mode s) (r_shadow i) (r_rational i) (r_agent i)]"

definition dreams :: "state \<Rightarrow> inputs \<Rightarrow> bool" where
  "dreams s i = (r_dream i < dreamChance (cycle_modulators s))"

text \<open>
  The dream branch. \<^verbatim>\<open>generateDreamThought\<close> shuffles the array of the stack before the
  branch first waits; that comes first in \<open>cycle_actions\<close>.
\<close>

definition dream_actions :: "state \<Rightarrow> inputs \<Rightarrow> action list" where
  "dream_actions s i =
     (let dreamReflection = awaited (callLLM (runtime i) (reflection_llm i))
      in [SetMode ''DREAM'',
          AdjustEmotion [(Dreaming, 0.2), (Curiosity, - 0.1)],
          SetThought (dreamThought i),
          InsertMemory (dream_fragment i),
          SetThought (''(Dream Reflection): '' @ dreamReflection),
          DreamReflection dreamReflection])"

definition subconscious :: "state \<Rightarrow> bool" where
  "subconscious s = (length (memoryStack s) mod 10 = 0 \<and> length (memoryStack s) > 0)"

definition subconscious_actions :: "state \<Rightarrow> inputs \<Rightarrow> action list" where
  "subconscious_actions s i = (if subconscious s then [Subconscious (sub i) (now i)] else [])"

definition rumination_actions :: "state \<Rightarrow> inputs \<Rightarrow> action list" where
  "rumination_actions s i = (if subconscious s then [Ruminate (sub i) (now i)] else [])"

definition schema_actions :: "state \<Rightarrow> inputs \<Rightarrow> action list" where
  "schema_actions s i =
     (if length (memoryStack s) mod 5 = 0 \<and> cognitiveMaturity s > 0.2 then [SchemaCheck] else [])"

definition inspects :: "state \<Rightarrow> bool" where
  "inspects s = (length (memoryStack s) mod 6 = 0 \<and> length (memoryStack s) > 0)"

definition inspection_actions :: "state \<Rightarrow> inputs \<Rightarrow> action list" where
  "inspection_actions s i =
     (let detectedContradictions = detectContradictions (beliefs (internalState s)) (beliefGraph s);
          metaReflection = awaited (callLLM (runtime i) (meta_llm i));
          lower = toLowerCase metaReflection
      in [RecordContradictions detectedContradictions,
          SetThought (''(Meta-Reflection): '' @ metaReflection),
          MetaReflection metaReflection,
          SetTopic (selectNewTopic (conceptGraph s) (r_meta_topic i) metaReflection
                      (dominantSubAgent (internalState s)) (attentionStack (internalState s)))] @
         (if js_includes lower ''resolve'' \<or> js_includes lower ''understand''
          then [AdjustEmotion [(Reflective, 0.1), (Anxiety, - 0.05)]]
          else if js_includes lower ''avoid'' then [AdjustEmotion [(Calm, 0.05)]]
          else []))"

definition currentGoal :: "state \<Rightarrow> goal option" where
  "currentGoal s = (case sort_goals (goals (internalState s)) of [] \<Rightarrow> None | g # _ \<Rightarrow> Some g)"

definition goal_directed :: "state \<Rightarrow> inputs \<Rightarrow> bool" where
  "goal_directed s i = (currentGoal s \<noteq> None \<and> r_goal i < 0.25)"

definition goal_actions :: "state \<Rightarrow> inputs \<Rightarrow> action list" where
  "goal_actions s i =
     (let goalThought = awaited (callLLM (runtime i) (goal_llm i))
      in [SetThought (''(Goal-Directed): '' @ goalThought),
          InsertMemory (goal_fragment i),
          GoalFocus goalThought (case currentGoal s of Some g \<Rightarrow> g_goal g | None \<Rightarrow> []),
          AdjustEmotion [(Reflective, 0.05), (Curiosity, 0.05)]])"

text \<open>
  The \<^verbatim>\<open>do ... while\<close> loop of the normal cycle; \<open>attemptCount\<close> is the counter before
  the round, \<open>gen n\<close> the thought that the call number \<open>n\<close> of
  \<^verbatim>\<open>generateRealThought\<close> returns.
\<close>

function retry_loop :: "(nat \<Rightarrow> string) \<Rightarrow> (string \<Rightarrow> bool) \<Rightarrow> string \<Rightarrow> nat \<Rightarrow> string" where
  "retry_loop gen similar stuck attemptCount =
     (if attemptCount + 1 \<ge> 3 then stuck
      else if similar (gen attemptCount) then retry_loop gen similar stuck (attemptCount + 1)
      else gen attemptCount)"
  by pat_completeness auto
termination
  by (relation "measure (\<lambda>(gen, similar, stuck, attemptCount). 3 - attemptCount)") auto

definition join :: "string \<Rightarrow> string list \<Rightarrow> string" where
  "join sep xs = (case xs of [] \<Rightarrow> [] | x # rest \<Rightarrow> x @ concat (map (\<lambda>y. sep @ y) rest))"

definition stuckKeywords :: "string list" where
  "stuckKeywords = [''noise'', ''why'', ''loop'', ''ugh'', ''dread'', ''fragment'', ''repetitive'',
     ''circling'']"

definition topic_shift_actions :: "state \<Rightarrow> inputs \<Rightarrow> string \<Rightarrow> action list" where
  "topic_shift_actions s i newThought =
     (let recentTextForTopicCheck = toLowerCase (join '' '' (map m_text (take 3 (memoryStack s))));
          isStuck = list_ex (\<lambda>keyword. js_includes recentTextForTopicCheck keyword) stuckKeywords
      in if isStuck \<or> mentalTension (internalState s) > 0.7 then
           [SetTopic (random_pick (r_forced_topic i) (own_keys (conceptGraph s))),
            AdjustEmotion [(Reflective, 0.1), (Anxiety, - 0.05)],
            ReduceTension,
            SetTopicLock 3]
         else if topicLockCounter s \<le> 0 \<or> r_switch i < topicSwitchChance (cycle_modulators s) then
           [SetTopic (selectNewTopic (conceptGraph s) (r_select_topic i) newThought
                        (dominantSubAgent (internalState s)) (attentionStack (internalState s))),
            SetTopicLock 3]
         else [SetTopicLock (topicLockCounter s - 1)])"

text \<open>
  \<^verbatim>\<open>generateRealThought\<close> returns what its last request to the text generator returns,
  trimmed. The voice of the simulated other, which it requests first with chance 0.15,
  goes into the prompt of that last request and nowhere else.
\<close>

definition generateRealThought :: "inputs \<Rightarrow> nat \<Rightarrow> string" where
  "generateRealThought i n = trim (awaited (callLLM (runtime i) (thought_llm i n)))"

definition stuck_thought :: "inputs \<Rightarrow> string \<Rightarrow> string" where
  "stuck_thought i topic_now =
     ''(Stuck): circling '' @ topic_now @ ''... '' @ (if r_stuck i < 0.5 then ''ugh.'' else ''why?'')"

definition new_thought :: "state \<Rightarrow> inputs \<Rightarrow> string \<Rightarrow> string" where
  "new_thought s i topic_now =
     retry_loop (generateRealThought i) (\<lambda>t. isThoughtTooSimilar t (memoryStack s))
       (stuck_thought i topic_now) 0"

definition thought_fragment :: "state \<Rightarrow> inputs \<Rightarrow> string \<Rightarrow> fragment" where
  "thought_fragment s i topic_now =
     \<lparr>m_text = new_thought s i topic_now, m_emotion = getDominantEmotion (emotionalGradient s),
      m_strength = 1.0, m_timestamp = now i, m_source = None\<rparr>"

text \<open>
  The normal cycle. \<^verbatim>\<open>generateRealThought\<close> starts with \<^verbatim>\<open>topic.toLowerCase()\<close>, which
  throws when the topic is \<^verbatim>\<open>undefined\<close>: the cycle then ends there.
\<close>

definition normal_actions :: "state \<Rightarrow> inputs \<Rightarrow> action list" where
  "normal_actions s i =
     (case topic s of
        None \<Rightarrow> []
      | Some topic_now \<Rightarrow>
          let newThought = new_thought s i topic_now;
              thoughtNovelty = (if isThoughtTooSimilar newThought (memoryStack s) then 0.2 else 1.0);
              dominantEmotion = getDominantEmotion (emotionalGradient s)
          in [SetThought newThought,
              InsertDecayed (memoryDecayRate (cycle_modulators s)) (thought_fragment s i topic_now),
              NormalInternal newThought thoughtNovelty (dominantSubAgent (internalState s))
                dominantEmotion (normal i),
              Hebbian newThought,
              HebbianBelief newThought] @
             topic_shift_actions s i newThought @
             [Perturb (mentalTension (internalState s)) (perturbation i)])"

definition thinking_actions :: "state \<Rightarrow> inputs \<Rightarrow> action list" where
  "thinking_actions s i =
     (if goals (internalState s) \<noteq> [] then [SortGoals] else []) @
     (if goal_directed s i then goal_actions s i else normal_actions s i)"

definition cycle_actions :: "state \<Rightarrow> inputs \<Rightarrow> action list" where
  "cycle_actions s i =
     (if dreams s i then
        ShuffleMemory (dream_shuffle i) # prelude_actions s i @ dream_actions s i
      else
        prelude_actions s i @ subconscious_actions s i @ [SweepFrequency] @
        rumination_actions s i @ schema_actions s i @
        (if inspects s then inspection_actions s i else thinking_actions s i))"

datatype cycle_kind = DreamCycle | SelfInspection | GoalDirected | NormalCycle | Aborted

definition kind_of_cycle :: "state \<Rightarrow> inputs \<Rightarrow> cycle_kind" where
  "kind_of_cycle s i =
     (if dreams s i then DreamCycle
      else if inspects s then SelfInspection
      else if goal_directed s i then GoalDirected
      else if topic s = None then Aborted
      else NormalCycle)"

text \<open>How often a list of updates runs the perturbation of the gradient.\<close>

fun is_perturbation :: "action \<Rightarrow> bool" where
  "is_perturbation (Perturb tension d) = True"
| "is_perturbation a = False"

definition perturbations :: "action list \<Rightarrow> nat" where
  "perturbations as = length (filter is_perturbation as)"

text \<open>
  The events of the engine: a firing of the interval, the resolution of an intuition
  request that a subconscious cycle has sent, and the timer that ends a dream.
\<close>

datatype event = Tick inputs | IntuitionResolved js_runtime fetch_outcome nat | DreamRevert

fun event_actions :: "state \<Rightarrow> event \<Rightarrow> action list" where
  "event_actions s (Tick i) = cycle_actions s i"
| "event_actions s (IntuitionResolved rt outcome t) =
     [SetThought (''(Intuition): '' @ awaited (callLLM rt outcome)),
      InsertMemory (intuition_fragment rt outcome t),
      PushStream (awaited (callLLM rt outcome)),
      AdjustEmotion [(Curiosity, 0.05)]]"
| "event_actions s DreamRevert =
     [SetMode ''RUN'', AdjustEmotion [(Dreaming, - 0.2), (Curiosity, 0.1)]]"

definition step :: "state \<Rightarrow> event \<Rightarrow> js_error + state" where
  "step s ev = run_actions (event_actions s ev) s"

section \<open>Notions used to state the properties\<close>

text \<open>The bounds of the memory stack: at most 10 fragments, every strength from 0.1 to 1.\<close>

definition stack_ok :: "fragment list \<Rightarrow> bool" where
  "stack_ok ms = (length ms \<le> 10 \<and> list_all (\<lambda>m. 0.1 \<le> m_strength m \<and> m_strength m \<le> 1) ms)"

text \<open>A well-formed gradient: every weight from 0 to 1, and not all of them 0.\<close>

definition gradient_ok :: "gradient \<Rightarrow> bool" where
  "gradient_ok g = ((\<forall>k. 0 \<le> g k \<and> g k \<le> 1) \<and> (\<exists>k. 0 < g k))"

text \<open>
  The tension after contradiction detection as the specification words it: 0.1 for each
  detected contradiction that is not yet in the conflicts list, capped at 1.
\<close>

definition tension_per_new_spec :: "internal \<Rightarrow> string list \<Rightarrow> real" where
  "tension_per_new_spec prev detected =
     min 1 (mentalTension prev +
            real (length (filter (\<lambda>c. c \<notin> set (conflicts prev)) detected)) * 0.1)"

text \<open>
  The insertion as the specification words it for every site: decay what is there, floor
  it at 0.1, prepend the new fragment, keep 10.
\<close>

definition insert_spec :: "real \<Rightarrow> fragment \<Rightarrow> fragment list \<Rightarrow> fragment list" where
  "insert_spec rate newMemory prev =
     take 10 (newMemory # map (\<lambda>mem. mem\<lparr>m_strength := max 0.1 (m_strength mem * rate)\<rparr>) prev)"

text \<open>
  The concept graphs that the engine can hold, each with the frequency table of the
  session: the default graph with the empty table, and what the Hebbian update of a
  thought, the sweep of a fragment into the table and the schema check make of such a
  pair.
\<close>

inductive reachable_graph :: "graph \<Rightarrow> nat js_object \<Rightarrow> bool" where
  initial: "reachable_graph default_conceptGraph []"
| hebbian: "reachable_graph g freq \<Longrightarrow> hebbian_update newThought g = Inr g' \<Longrightarrow>
            reachable_graph g' freq"
| sweep: "reachable_graph g freq \<Longrightarrow> reachable_graph g (updateConceptPairFrequency memoryText freq)"
| schema: "reachable_graph g freq \<Longrightarrow> schema_check g freq = (g', freq', formed) \<Longrightarrow>
           reachable_graph g' freq'"

text \<open>The index that \<^verbatim>\<open>Math.floor(Math.random() * n)\<close> makes of the number drawn.\<close>

definition drawn_index :: "real \<Rightarrow> nat \<Rightarrow> nat" where
  "drawn_index u n = nat \<lfloor>u * real n\<rfloor>"

text \<open>
  The stack that the thought of a cycle is stored on: the stack at the start of the cycle
  with the external stimulus and the rumination of the cycle, if there are any, each
  prepended to the first 9 fragments.
\<close>

definition with_stimulus :: "inputs \<Rightarrow> fragment list \<Rightarrow> fragment list" where
  "with_stimulus i ms = (if r_external i < 0.2 then external_fragment i # take 9 ms else ms)"

definition with_rumination :: "state \<Rightarrow> inputs \<Rightarrow> fragment list \<Rightarrow> fragment list" where
  "with_rumination s i ms =
     (if subconscious s then
        (case rumination (sub i) (now i) (internalState s) of
           None \<Rightarrow> ms
         | Some (newMemory, raised) \<Rightarrow> newMemory # take 9 ms)
      else ms)"

definition earlier_insertions :: "state \<Rightarrow> inputs \<Rightarrow> fragment list" where
  "earlier_insertions s i = with_rumination s i (with_stimulus i (memoryStack s))"

text \<open>Feeding the same fragment \<open>n\<close> times into the frequency table.\<close>

definition feed :: "nat \<Rightarrow> string \<Rightarrow> nat js_object \<Rightarrow> nat js_object" where
  "feed n fragment_text freq = (updateConceptPairFrequency fragment_text ^^ n) freq"

text \<open>
  What the bounds ask of an update: a new fragment has a strength from 0.1 to 1, a decay
  rate lies between 0 and 1, and a named adjustment of the gradient is empty or raises at
  least one of the distinct keys it names.
\<close>

fun action_ok :: "action \<Rightarrow> bool" where
  "action_ok (InsertMemory f) = (0.1 \<le> m_strength f \<and> m_strength f \<le> 1)"
| "action_ok (InsertDecayed r f) = (0 \<le> r \<and> r \<le> 1 \<and> 0.1 \<le> m_strength f \<and> m_strength f \<le> 1)"
| "action_ok (AdjustEmotion kds) =
     (kds = [] \<or> (distinct (map fst kds) \<and> list_ex (\<lambda>kd. snd kd > 0) kds))"
| "action_ok a = True"

text \<open>The invariant of the memory stack and the gradient.\<close>

definition bounded :: "state \<Rightarrow> bool" where
  "bounded s = (stack_ok (memoryStack s) \<and> gradient_ok (emotionalGradient s))"

text \<open>The states that the engine reaches from the state of a first start.\<close>

inductive reachable_state :: "state \<Rightarrow> bool" where
  start: "reachable_state (default_state n)"
| event: "reachable_state s \<Longrightarrow> step s ev = Inr s' \<Longrightarrow> reachable_state s'"

text \<open>Sample values, used to exercise the model.\<close>

definition sample_runtime :: js_runtime where
  "sample_runtime = \<lparr>num_text = (\<lambda>r. ''0''), text_gt_zero = (\<lambda>t. False)\<rparr>"

definition generated :: "string \<Rightarrow> fetch_outcome" where
  "generated t = Responded 200 (JsonParsed (JArr [JObj [(''generated_text'', JStr t)]]))"

definition sample_inputs :: inputs where
  "sample_inputs =
     \<lparr>now = 5000, runtime = sample_runtime, r_external = 0.5,
      currentTime = ''10:15:00 AM'', currentDay = ''Monday'',
      env = \<lparr>light = ''neutral'', noise = ''low'', network = ''stable'', temperature = ''ambient''\<rparr>,
      useRealInternetFeed = False, web_observation = [], r_predefined = 0.5,
      r_external_llm = 0.1, external_llm = FetchRejected ''Failed to fetch'',
      r_shadow = 0.9, r_rational = 0.9, r_agent = 0.5, r_dream = 0.9, dream_shuffle = [],
      dream_llm = generated ''a door without a wall'', reflection_llm = generated ''symbols again'',
      sub = \<lparr>s_conflict = 0.9, s_conflict_pick = 0, s_question = 0.9, s_question_pick = 0,
              s_belief = 0.9, s_belief_pick = 0, s_intuition = 0.9\<rparr>,
      meta_llm = Responded 401 (JsonParsed (JObj [])), r_meta_topic = 0.5, r_goal = 0.9,
      goal_llm = generated ''goal: understand self... how?'',
      thought_llm = (\<lambda>n. generated ''hello world test thought''), r_stuck = 0.2,
      normal = \<lparr>n_question = 0.9, n_newgoal = 0.9, n_newgoal_pick = 0.1, n_identity = 0.9\<rparr>,
      r_forced_topic = 0.3, r_switch = 0.9, r_select_topic = 0.3,
      perturbation = \<lparr>p_gate = 0.9, p_pick = Calm, p_anxiety = 0.9\<rparr>\<rparr>"

text \<open>The same inputs with a draw that starts a dream.\<close>

definition dream_inputs :: inputs where
  "dream_inputs = sample_inputs\<lparr>r_dream := 0.001\<rparr>"




section \<open>Properties of the contradiction detector\<close>

lemma set_add_found:
  "set (foldl (\<lambda>acc x. add_found acc (f x)) acc xs) = set acc \<union> {m. \<exists>x \<in> set xs. f x = Some m}"
  by (induction xs arbitrary: acc) (auto simp: add_found_def set_add_def split: option.splits)

lemma set_add_found_nested:
  "set (foldl (\<lambda>acc a. foldl (\<lambda>acc' b. add_found acc' (h a b)) acc (nb a)) acc ks) =
   set acc \<union> {m. \<exists>a \<in> set ks. \<exists>b \<in> set (nb a). h a b = Some m}"
  by (induction ks arbitrary: acc) (auto simp: set_add_found)

lemma set_detectContradictions:
  "set (detectContradictions bs g) =
     {m. \<exists>entry \<in> set predefinedContradictions. direct_contradiction (beliefStances bs) entry = Some m} \<union>
     {m. \<exists>a \<in> set (own_keys g). \<exists>b \<in> set (neighbours g a).
           implied_contradiction (beliefStances bs) a b = Some m}"
  by (simp add: detectContradictions_def Let_def set_add_found_nested set_add_found)

lemma implied_message:
  "implied_contradiction st a b = Some m \<Longrightarrow> starts_with m ''Implied''"
  by (auto simp: implied_contradiction_def starts_with_def quoted_def split: option.splits if_splits)

lemma direct_two:
  "direct_contradiction st [c, x] =
     (case st c of None \<Rightarrow> None
      | Some cur \<Rightarrow> if js_includes cur x \<and> js_includes cur ''undefined''
          then Some (pair_message c x ''undefined'') else None)"
  by (auto simp: direct_contradiction_def nth_opt_def js_text_def Let_def split: option.splits)

lemma direct_three:
  "direct_contradiction st [c, x, y] =
     (case st c of None \<Rightarrow> None
      | Some cur \<Rightarrow> if cur \<noteq> [] \<and> ((js_includes cur x \<and> js_includes cur y) \<or> (cur = x \<and> cur = y))
          then Some (pair_message c x y) else None)"
  by (auto simp: direct_contradiction_def nth_opt_def js_text_def Let_def split: option.splits)

lemma direct_Some: "direct_contradiction st entry = Some m \<Longrightarrow> m = entry_message entry"
  by (simp add: direct_contradiction_def entry_message_def Let_def split: option.splits if_splits)

lemma direct_iff:
  "(direct_contradiction st [c, x] = Some m) =
   (m = pair_message c x ''undefined'' \<and>
    (\<exists>cur. st c = Some cur \<and> js_includes cur x \<and> js_includes cur ''undefined''))"
  unfolding direct_two by (cases "st c") auto

lemma not_implied: "\<not> starts_with (pair_message c x y) ''Implied''"
  by (simp add: pair_message_def starts_with_def)

lemma detect_cases:
  "m \<in> set (detectContradictions bs g) \<Longrightarrow>
   (\<exists>entry \<in> set predefinedContradictions. direct_contradiction (beliefStances bs) entry = Some m) \<or>
   (\<exists>a b. implied_contradiction (beliefStances bs) a b = Some m)"
  unfolding set_detectContradictions by blast

lemma detect_direct:
  "entry \<in> set predefinedContradictions \<Longrightarrow> direct_contradiction (beliefStances bs) entry = Some m \<Longrightarrow>
   m \<in> set (detectContradictions bs g)"
  unfolding set_detectContradictions by blast

lemma pair_reported:
  assumes mem: "[c, x] \<in> set predefinedContradictions"
    and uniq: "\<And>entry. entry \<in> set predefinedContradictions \<Longrightarrow>
                 entry_message entry = pair_message c x ''undefined'' \<Longrightarrow> entry = [c, x]"
  shows "(pair_message c x ''undefined'' \<in> set (detectContradictions bs g)) =
         (\<exists>stance. beliefStances bs c = Some stance \<and> js_includes stance x \<and>
            js_includes stance ''undefined'')"
    (is "?L = ?R")
proof
  assume ?L
  from detect_cases[OF this] show ?R
  proof (elim disjE bexE exE)
    fix entry
    assume e: "entry \<in> set predefinedContradictions"
      and d: "direct_contradiction (beliefStances bs) entry = Some (pair_message c x ''undefined'')"
    from direct_Some[OF d] uniq[OF e] have "entry = [c, x]" by simp
    with d show ?R by (simp add: direct_iff)
  next
    fix a b
    assume "implied_contradiction (beliefStances bs) a b = Some (pair_message c x ''undefined'')"
    from implied_message[OF this] not_implied show ?R by blast
  qed
next
  assume ?R
  then have "direct_contradiction (beliefStances bs) [c, x] = Some (pair_message c x ''undefined'')"
    by (simp add: direct_iff)
  from detect_direct[OF mem this] show ?L .
qed

lemma chaos_unique:
  "entry \<in> set predefinedContradictions \<Longrightarrow>
   entry_message entry = pair_message ''chaos'' ''order'' ''undefined'' \<Longrightarrow> entry = [''chaos'', ''order'']"
  unfolding predefinedContradictions_def
  by (auto simp: entry_message_def nth_opt_def js_text_def pair_message_def quoted_def)

lemma free_will_unique:
  "entry \<in> set predefinedContradictions \<Longrightarrow>
   entry_message entry = pair_message ''free will'' ''determinism'' ''undefined'' \<Longrightarrow>
   entry = [''free will'', ''determinism'']"
  unfolding predefinedContradictions_def
  by (auto simp: entry_message_def nth_opt_def js_text_def pair_message_def quoted_def)

lemma chaos_entry: "[''chaos'', ''order''] \<in> set predefinedContradictions"
  by (simp add: predefinedContradictions_def)

lemma free_will_entry: "[''free will'', ''determinism''] \<in> set predefinedContradictions"
  by (simp add: predefinedContradictions_def)


lemma single_stance:
  "beliefStances [\<lparr>b_concept = k, b_stance = v, b_confidence = c\<rparr>] = (\<lambda>q. if q = k then Some v else None)"
  by (auto simp: beliefStances_def)

lemma order_alone_direct:
  "entry \<in> set predefinedContradictions \<Longrightarrow>
   direct_contradiction (\<lambda>q. if q = ''chaos'' then Some ''order'' else None) entry = None"
  unfolding predefinedContradictions_def by (auto simp: direct_two direct_three)

lemma order_alone_implied:
  "implied_contradiction (\<lambda>q. if q = ''chaos'' then Some ''order'' else None) a b = None"
  by (simp add: implied_contradiction_def)

lemma order_alone:
  "detectContradictions [\<lparr>b_concept = ''chaos'', b_stance = ''order'', b_confidence = c\<rparr>] g = []"
proof -
  have "m \<notin> set (detectContradictions [\<lparr>b_concept = ''chaos'', b_stance = ''order'', b_confidence = c\<rparr>] g)" for m
  proof
    assume "m \<in> set (detectContradictions [\<lparr>b_concept = ''chaos'', b_stance = ''order'', b_confidence = c\<rparr>] g)"
    from detect_cases[OF this] show False
      unfolding single_stance by (auto simp: order_alone_direct order_alone_implied)
  qed
  then show ?thesis by (cases "detectContradictions [\<lparr>b_concept = ''chaos'', b_stance = ''order'', b_confidence = c\<rparr>] g") auto
qed

text \<open>
  Claim C10. For the predefined pairs with two elements, \<^verbatim>\<open>["chaos", "order"]\<close> and
  \<^verbatim>\<open>["free will", "determinism"]\<close>, \<^verbatim>\<open>detectContradictions\<close> reports the contradiction of
  the pair exactly when the current stance of the concept contains the second element
  and the text \<^verbatim>\<open>undefined\<close>, which the missing third element turns into. A single belief
  of stance \<^verbatim>\<open>order\<close> about \<^verbatim>\<open>chaos\<close> yields no conflict at all.
\<close>

theorem two_element_pairs:
  "((pair_message ''chaos'' ''order'' ''undefined'' \<in> set (detectContradictions bs g)) =
    (\<exists>stance. beliefStances bs ''chaos'' = Some stance \<and> js_includes stance ''order'' \<and>
       js_includes stance ''undefined'')) \<and>
   ((pair_message ''free will'' ''determinism'' ''undefined'' \<in> set (detectContradictions bs g)) =
    (\<exists>stance. beliefStances bs ''free will'' = Some stance \<and> js_includes stance ''determinism'' \<and>
       js_includes stance ''undefined'')) \<and>
   detectContradictions [\<lparr>b_concept = ''chaos'', b_stance = ''order'', b_confidence = c\<rparr>] g' = []"
  by (intro conjI pair_reported chaos_entry chaos_unique free_will_entry free_will_unique order_alone)

section \<open>Properties of the similarity gate\<close>

lemma js_includes_sublist: "js_includes s t = sublist t s"
  by (induction s) (auto simp: sublist_Cons_right)

lemma overlap_len_eq: "overlap_len n = (3 * n + 4) div 5"
proof -
  have "real n * 0.6 = of_int (3 * int n) / of_int 5" by simp
  then have "\<lceil>real n * 0.6\<rceil> = - (- (3 * int n) div 5)"
    by (simp only: ceiling_divide_eq_div)
  then have "overlap_len n = nat (- (- (3 * int n) div 5))"
    by (simp only: overlap_len_def)
  also have "\<dots> = (3 * n + 4) div 5" by arith
  finally show ?thesis .
qed

lemma overlap_len_bounds:
  "real n * 0.6 \<le> real (overlap_len n)" "overlap_len n \<le> n"
proof -
  show "real n * 0.6 \<le> real (overlap_len n)"
    unfolding overlap_len_def by (rule of_nat_ceiling)
  show "overlap_len n \<le> n" unfolding overlap_len_eq by arith
qed

lemma code_implies_spec: "isThoughtTooSimilar c st \<Longrightarrow> isTooSimilar_spec c st"
proof -
  assume "isThoughtTooSimilar c st"
  then obtain mem where mem: "mem \<in> set (take 3 st)"
    and sim: "similar_to_memory (trim (toLowerCase c)) mem"
    by (auto simp: isThoughtTooSimilar_def list_ex_iff)
  define a where "a = trim (toLowerCase c)"
  define b where "b = trim (toLowerCase (m_text mem))"
  from sim have len: "min (length a) (length b) \<ge> 5"
    and alt: "sublist (take (overlap_len (length b)) b) a \<or> sublist (take (overlap_len (length a)) a) b"
    by (auto simp: similar_to_memory_def Let_def a_def b_def js_includes_sublist split: if_splits)
  have "covers_shorter a b \<or> covers_shorter b a"
  proof (rule disjE[OF alt])
    assume h: "sublist (take (overlap_len (length b)) b) a"
    have "0.6 * real (min (length a) (length b)) \<le> 0.6 * real (length b)" by simp
    with overlap_len_bounds[of "length b"] h show ?thesis
      unfolding covers_shorter_def by (intro disjI1 exI[of _ "overlap_len (length b)"]) linarith
  next
    assume h: "sublist (take (overlap_len (length a)) a) b"
    have "0.6 * real (min (length b) (length a)) \<le> 0.6 * real (length a)" by simp
    with overlap_len_bounds[of "length a"] h show ?thesis
      unfolding covers_shorter_def by (intro disjI2 exI[of _ "overlap_len (length a)"]) linarith
  qed
  with len mem show ?thesis
    unfolding isTooSimilar_spec_def a_def b_def by (auto simp: Let_def)
qed

lemma similar_example:
  "isThoughtTooSimilar ''I keep cycling back to memory'' [mk_fragment ''I keep cycling back to memory again'']"
  by code_simp

lemma dissimilar_example:
  "\<not> isThoughtTooSimilar ''a totally different idea'' [mk_fragment ''memory and perception'']"
  by code_simp

lemma prefix_inside_not_flagged:
  "\<not> isThoughtTooSimilar ''zzzzabcdef'' [mk_fragment ''abcdefqqqqqqqqqqqqqq'']"
  by code_simp

lemma prefix_inside_covers:
  "isTooSimilar_spec ''zzzzabcdef'' [mk_fragment ''abcdefqqqqqqqqqqqqqq'']"
proof -
  have a: "trim (toLowerCase ''zzzzabcdef'') = ''zzzzabcdef''" by code_simp
  have b: "trim (toLowerCase (m_text (mk_fragment ''abcdefqqqqqqqqqqqqqq''))) = ''abcdefqqqqqqqqqqqqqq''"
    by code_simp
  have s: "sublist (take 6 ''abcdefqqqqqqqqqqqqqq'') ''zzzzabcdef''" by code_simp
  have "covers_shorter ''zzzzabcdef'' ''abcdefqqqqqqqqqqqqqq''"
    unfolding covers_shorter_def using s by (intro exI[of _ 6]) simp
  then show ?thesis
    unfolding isTooSimilar_spec_def
    by (intro exI[of _ "mk_fragment ''abcdefqqqqqqqqqqqqqq''"]) (simp add: a b Let_def)
qed

text \<open>
  Claim C4. The rule of the specification measures the leading substring against the
  shorter string; \<^verbatim>\<open>isThoughtTooSimilar\<close> takes 60 percent of the length of the string
  whose beginning it cuts. For the candidate \<^verbatim>\<open>zzzzabcdef\<close> and the memory
  \<^verbatim>\<open>abcdefqqqqqqqqqqqqqq\<close> the candidate contains the first 6 characters of the memory,
  60 percent of the shorter length 10, so the rule of the specification flags the pair,
  and the function does not.
\<close>

theorem similarity_threshold_divergence:
  "isTooSimilar_spec ''zzzzabcdef'' [mk_fragment ''abcdefqqqqqqqqqqqqqq''] \<and>
   \<not> isThoughtTooSimilar ''zzzzabcdef'' [mk_fragment ''abcdefqqqqqqqqqqqqqq'']"
  by (rule conjI [OF prefix_inside_covers prefix_inside_not_flagged])

section \<open>Properties of the emotional gradient\<close>

lemma gradient_sum_expand:
  "gradient_sum g = g Curiosity + g Calm + g Anxiety + g Reflective + g Dreaming"
  by (simp add: gradient_sum_def emotions_def)

lemma gradient_sum_divide: "gradient_sum (\<lambda>k. g k / c) = gradient_sum g / c"
  by (simp add: gradient_sum_expand add_divide_distrib)

lemma gradient_sum_nonneg: "(\<And>k. 0 \<le> g k) \<Longrightarrow> 0 \<le> gradient_sum g"
  by (simp add: gradient_sum_expand)

lemma gradient_sum_pos: "(\<And>k. 0 \<le> g k) \<Longrightarrow> 0 < g c \<Longrightarrow> 0 < gradient_sum g"
proof -
  assume nn: "\<And>k. 0 \<le> g k" and pos: "0 < g c"
  have "0 \<le> g Curiosity" "0 \<le> g Calm" "0 \<le> g Anxiety" "0 \<le> g Reflective" "0 \<le> g Dreaming"
    using nn by auto
  with pos show ?thesis
    unfolding gradient_sum_expand by (cases c) auto
qed

lemma gradient_sum_scaled: "gradient_sum (\<lambda>k. g k * c) = gradient_sum g * c"
  by (simp add: gradient_sum_expand distrib_right)

lemma perturb_boosted:
  "perturb tension d prev = (\<lambda>k. boosted_weights tension d prev k / gradient_sum (boosted_weights tension d prev))"
  by (simp add: perturb_def boosted_weights_def Let_def)

lemma boosted_nonneg: "(\<And>k. 0 \<le> prev k) \<Longrightarrow> 0 \<le> boosted_weights tension d prev k"
  by (simp add: boosted_weights_def Let_def)

lemma boosted_sum_pos:
  assumes nn: "\<And>k. 0 \<le> prev k" and pos: "0 < gradient_sum prev"
  shows "0 < gradient_sum (boosted_weights tension d prev)"
proof (cases "p_gate d < 0.2 + tension * 0.3")
  case True
  define c where "c = (if tension > 0.5 \<and> p_anxiety d < 0.5 then Anxiety else p_pick d)"
  have "0 < boosted_weights tension d prev c"
    using True by (simp add: boosted_weights_def Let_def c_def)
  moreover have "\<And>k. 0 \<le> boosted_weights tension d prev k"
    using nn by (rule boosted_nonneg)
  ultimately show ?thesis by (rule gradient_sum_pos[rotated])
next
  case False
  have "boosted_weights tension d prev = (\<lambda>k. prev k * 0.95)"
    using False nn by (auto simp: boosted_weights_def Let_def max_def)
  then have "gradient_sum (boosted_weights tension d prev) = gradient_sum prev * 0.95"
    by (simp only: gradient_sum_scaled)
  with pos show ?thesis by simp
qed

text \<open>
  Claim C2. After the perturbation of a cycle (decay of every weight by 0.95, a boost of
  0.1 for one emotion when the gate opens, renormalisation) the weights sum to 1, for
  every gradient of non-negative weights with a positive sum, every tension and all
  numbers drawn. Over the reals the sum is exactly 1.
\<close>

theorem perturb_sums_to_one:
  assumes "\<And>k. 0 \<le> prev k" and "0 < gradient_sum prev" and "0 \<le> tension" and "tension \<le> 1"
  shows "gradient_sum (perturb tension d prev) = 1"
proof -
  have "0 < gradient_sum (boosted_weights tension d prev)"
    using assms(1,2) by (rule boosted_sum_pos)
  then show ?thesis
    unfolding perturb_boosted gradient_sum_divide by simp
qed

lemma default_gradient_nonneg: "0 \<le> default_gradient k"
  by (cases k) (simp_all add: default_gradient_def)

lemma default_gradient_sum: "gradient_sum default_gradient = 1.2"
  by (simp add: gradient_sum_expand default_gradient_def)

theorem perturb_sums_to_one_witness:
  "gradient_sum (perturb 0.8 \<lparr>p_gate = 0.1, p_pick = Calm, p_anxiety = 0.3\<rparr> default_gradient) = 1"
  by (rule perturb_sums_to_one) (simp_all add: default_gradient_nonneg default_gradient_sum)

section \<open>Properties of the call to the text generator\<close>

lemma failed_with_simps [simp]:
  "returned (failed_with m) = m" "llm_error (failed_with m) = Some m"
  by (simp_all add: failed_with_def)






















section \<open>Properties of the scheduler cycle\<close>

lemma perturbations_append [simp]: "perturbations (xs @ ys) = perturbations xs + perturbations ys"
  by (simp add: perturbations_def)

lemma perturbations_Nil [simp]: "perturbations [] = 0"
  by (simp add: perturbations_def)

lemma perturbations_Cons [simp]:
  "perturbations (a # as) = (if is_perturbation a then 1 else 0) + perturbations as"
  by (simp add: perturbations_def)

lemma prelude_no_perturbation: "perturbations (prelude_actions s i) = 0"
  by (simp add: prelude_actions_def external_actions_def)

lemma dream_no_perturbation: "perturbations (dream_actions s i) = 0"
  by (simp add: dream_actions_def Let_def)

lemma subconscious_no_perturbation: "perturbations (subconscious_actions s i) = 0"
  by (simp add: subconscious_actions_def)

lemma rumination_no_perturbation: "perturbations (rumination_actions s i) = 0"
  by (simp add: rumination_actions_def)

lemma schema_no_perturbation: "perturbations (schema_actions s i) = 0"
  by (simp add: schema_actions_def)

lemma inspection_no_perturbation: "perturbations (inspection_actions s i) = 0"
  by (simp add: inspection_actions_def Let_def)

lemma goal_no_perturbation: "perturbations (goal_actions s i) = 0"
  by (simp add: goal_actions_def Let_def)

lemma topic_shift_no_perturbation: "perturbations (topic_shift_actions s i t) = 0"
  by (simp add: topic_shift_actions_def Let_def)

lemma normal_perturbations:
  "perturbations (normal_actions s i) = (if topic s = None then 0 else 1)"
  by (simp add: normal_actions_def Let_def topic_shift_no_perturbation split: option.splits)

lemma thinking_perturbations:
  "perturbations (thinking_actions s i) =
     (if goal_directed s i then 0 else if topic s = None then 0 else 1)"
  by (simp add: thinking_actions_def goal_no_perturbation normal_perturbations)

lemma dream_cycle_sample:
  "kind_of_cycle (default_state 10000) dream_inputs = DreamCycle \<and>
   perturbations (cycle_actions (default_state 10000) dream_inputs) = 0"
  by code_simp

text \<open>
  Claim C7, as the code has it. The perturbation of the gradient is the last update of
  the normal cycle. A cycle runs it exactly once when it reaches the normal thought
  (after the subconscious cycle and the schema check, which do not end the cycle), and not
  at all when the dream, self-inspection or goal-directed branch returns early, or when
  the thought generation throws for want of a topic.
\<close>

theorem perturbation_once_in_normal_cycle:
  "perturbations (cycle_actions s i) = (if kind_of_cycle s i = NormalCycle then 1 else 0)"
  by (simp add: cycle_actions_def kind_of_cycle_def prelude_no_perturbation dream_no_perturbation
      subconscious_no_perturbation rumination_no_perturbation schema_no_perturbation
      inspection_no_perturbation thinking_perturbations)

text \<open>
  Claim C7 as stated fails: with a draw below the dream chance the cycle of the default
  state is a dream cycle and issues no perturbation.
\<close>

theorem dream_cycle_skips_perturbation:
  "kind_of_cycle (default_state 10000) dream_inputs = DreamCycle \<and>
   perturbations (cycle_actions (default_state 10000) dream_inputs) \<noteq> 1"
  using dream_cycle_sample by (simp only: zero_neq_one not_False_eq_True simp_thms)

subsection \<open>Bounds of the memory stack and of the gradient\<close>

lemma stack_ok_insert:
  "stack_ok ms \<Longrightarrow> 0.1 \<le> m_strength f \<Longrightarrow> m_strength f \<le> 1 \<Longrightarrow> stack_ok (insert_fragment f ms)"
  by (auto simp: stack_ok_def insert_fragment_def list_all_iff dest: in_set_takeD)

lemma decayed_strength:
  "0 \<le> r \<Longrightarrow> r \<le> 1 \<Longrightarrow> 0.1 \<le> x \<Longrightarrow> x \<le> 1 \<Longrightarrow> 0.1 \<le> max 0.1 (x * r) \<and> max 0.1 (x * r) \<le> (1::real)"
proof -
  assume "0 \<le> r" "r \<le> 1" "0.1 \<le> x" "x \<le> 1"
  then have "x * r \<le> 1 * 1" by (intro mult_mono) auto
  then show ?thesis by simp
qed

lemma stack_ok_insert_decayed:
  assumes "stack_ok ms" "0 \<le> r" "r \<le> 1" "0.1 \<le> m_strength f" "m_strength f \<le> 1"
  shows "stack_ok (insert_decayed r f ms)"
proof -
  define L where "L = f # map (decay_fragment r) ms"
  have all: "\<forall>m \<in> set L. 0.1 \<le> m_strength m \<and> m_strength m \<le> 1"
    using assms decayed_strength[OF assms(2,3)]
    by (auto simp: L_def stack_ok_def list_all_iff decay_fragment_def)
  have "set (take 10 L) \<subseteq> set L" by (rule set_take_subset)
  with all have "list_all (\<lambda>m. 0.1 \<le> m_strength m \<and> m_strength m \<le> 1) (take 10 L)"
    unfolding list_all_iff by blast
  moreover have "length (take 10 L) \<le> 10" by simp
  ultimately show ?thesis unfolding stack_ok_def insert_decayed_def L_def by blast
qed

lemma stack_ok_permute: "stack_ok ms \<Longrightarrow> stack_ok (permute p ms)"
proof (cases "sort p = [0..<length ms]")
  case False
  then show "stack_ok ms \<Longrightarrow> stack_ok (permute p ms)" by (simp add: permute_def)
next
  case True
  assume ok: "stack_ok ms"
  from True have len: "length p = length ms" by (metis length_sort length_upt minus_nat.diff_0)
  from True have "set p = {0..<length ms}" by (metis set_sort set_upt)
  then have "\<And>j. j \<in> set p \<Longrightarrow> ms ! j \<in> set ms" by simp
  with ok len True show "stack_ok (permute p ms)"
    by (auto simp: stack_ok_def permute_def list_all_iff)
qed

lemma rate_in_unit:
  "gradient_ok g \<Longrightarrow> 0 \<le> memoryDecayRate (emotionModulators g m) \<and> memoryDecayRate (emotionModulators g m) \<le> 1"
proof -
  assume "gradient_ok g"
  then have "0 \<le> g Anxiety" "g Anxiety \<le> 1" "0 \<le> g Calm" "g Calm \<le> 1"
    by (auto simp: gradient_ok_def)
  moreover have "memoryDecayRate (emotionModulators g m) = 0.95 + (g Anxiety * 0.03) - (g Calm * 0.02)"
    by (simp add: emotionModulators_def Let_def)
  ultimately show ?thesis by simp
qed

lemma fold_nudge_other: "k \<notin> fst ` set kds \<Longrightarrow> fold nudge kds g k = g k"
  by (induction kds arbitrary: g) (auto simp: nudge_def)

lemma fold_nudge_at:
  "distinct (map fst kds) \<Longrightarrow> (k, d) \<in> set kds \<Longrightarrow> fold nudge kds g k = nudge (k, d) g k"
proof (induction kds arbitrary: g)
  case Nil
  then show ?case by simp
next
  case (Cons a kds)
  have e1: "fold nudge (a # kds) g k = fold nudge kds (nudge a g) k" by simp
  show ?case
  proof (cases "a = (k, d)")
    case True
    with Cons.prems have "k \<notin> fst ` set kds" by auto
    then have "fold nudge kds (nudge a g) k = nudge a g k" by (rule fold_nudge_other)
    with e1 True show ?thesis by (simp only:)
  next
    case False
    with Cons.prems have in_rest: "(k, d) \<in> set kds" and ne: "fst a \<noteq> k"
      by (auto simp: rev_image_eqI)
    from Cons.prems have "distinct (map fst kds)" by simp
    from Cons.IH[OF this in_rest, of "nudge a g"]
    have "fold nudge kds (nudge a g) k = nudge (k, d) (nudge a g) k" .
    moreover have "nudge (k, d) (nudge a g) k = nudge (k, d) g k"
      using ne by (cases a) (simp add: nudge_def)
    ultimately show ?thesis using e1 by (simp only:)
  qed
qed

lemma nudge_unit: "(\<forall>k. 0 \<le> g k \<and> g k \<le> 1) \<Longrightarrow> 0 \<le> nudge kd g k \<and> nudge kd g k \<le> 1"
proof -
  assume u: "\<forall>k. 0 \<le> g k \<and> g k \<le> 1"
  obtain k' d where kd: "kd = (k', d)" by (cases kd)
  from u have "0 \<le> g k'" "g k' \<le> 1" "0 \<le> g k" "g k \<le> 1" by auto
  then show ?thesis by (auto simp: kd nudge_def)
qed

lemma fold_nudge_unit:
  "(\<forall>k. 0 \<le> g k \<and> g k \<le> 1) \<Longrightarrow> (\<forall>k. 0 \<le> fold nudge kds g k \<and> fold nudge kds g k \<le> 1)"
proof (induction kds arbitrary: g)
  case Nil
  then show ?case by simp
next
  case (Cons a kds)
  have "\<forall>k. 0 \<le> nudge a g k \<and> nudge a g k \<le> 1" using nudge_unit[OF Cons.prems] by blast
  from Cons.IH[OF this] show ?case by simp
qed

lemma gradient_ok_adjust:
  assumes ok: "gradient_ok g" and kds: "kds = [] \<or> (distinct (map fst kds) \<and> list_ex (\<lambda>kd. snd kd > 0) kds)"
  shows "gradient_ok (adjust kds g)"
proof (cases "kds = []")
  case True
  with ok show ?thesis by (simp add: adjust_def)
next
  case False
  with kds obtain k d where dist: "distinct (map fst kds)" and mem: "(k, d) \<in> set kds" and pos: "d > 0"
    by (auto simp: list_ex_iff)
  from ok have unit: "\<forall>k. 0 \<le> g k \<and> g k \<le> 1" by (simp add: gradient_ok_def)
  have "fold nudge kds g k = min 1 (g k + d)"
    using fold_nudge_at[OF dist mem, of g] pos by (simp add: nudge_def)
  moreover have "0 \<le> g k" using unit by simp
  ultimately have "0 < fold nudge kds g k" using pos by simp
  with fold_nudge_unit[OF unit] show ?thesis
    unfolding gradient_ok_def adjust_def by blast
qed

lemma gradient_sum_ge: "(\<And>k. 0 \<le> g k) \<Longrightarrow> g c \<le> gradient_sum g"
proof -
  assume nn: "\<And>k. 0 \<le> g k"
  have "0 \<le> g Curiosity" "0 \<le> g Calm" "0 \<le> g Anxiety" "0 \<le> g Reflective" "0 \<le> g Dreaming"
    using nn by auto
  then show ?thesis unfolding gradient_sum_expand by (cases c) auto
qed

lemma gradient_ok_perturb:
  assumes ok: "gradient_ok prev"
  shows "gradient_ok (perturb tension d prev)"
proof -
  let ?b = "boosted_weights tension d prev"
  from ok have nn: "\<And>k. 0 \<le> prev k" and ex: "\<exists>k. 0 < prev k" by (auto simp: gradient_ok_def)
  from ex obtain c where "0 < prev c" by blast
  with nn have "0 < gradient_sum prev" by (rule gradient_sum_pos)
  with nn have S: "0 < gradient_sum ?b" by (rule boosted_sum_pos)
  have bnn: "\<And>k. 0 \<le> ?b k" using nn by (rule boosted_nonneg)
  have ble: "\<And>k. ?b k \<le> gradient_sum ?b" using bnn by (rule gradient_sum_ge)
  have unit: "\<forall>k. 0 \<le> perturb tension d prev k \<and> perturb tension d prev k \<le> 1"
    unfolding perturb_boosted using S bnn ble by (simp add: divide_le_eq_1)
  have "\<exists>k. 0 < ?b k"
  proof (rule ccontr)
    assume "\<not> (\<exists>k. 0 < ?b k)"
    with bnn have "\<And>k. ?b k = 0" by (metis order_le_less)
    then have "gradient_sum ?b = 0" by (simp add: gradient_sum_expand)
    with S show False by simp
  qed
  then obtain k where "0 < ?b k" by blast
  with S have "0 < perturb tension d prev k" unfolding perturb_boosted by simp
  with unit show ?thesis unfolding gradient_ok_def by blast
qed

lemma rumination_strength: "rumination d n st = Some (f, k) \<Longrightarrow> m_strength f = 0.5"
  by (auto simp: rumination_def Let_def split: if_splits)

lemma ruminate_stack: "stack_ok (memoryStack t) \<Longrightarrow> stack_ok (memoryStack (ruminate d n t))"
  by (auto simp: ruminate_def stack_ok_insert dest: rumination_strength split: option.splits)

lemma ruminate_gradient:
  "gradient_ok (emotionalGradient t) \<Longrightarrow> gradient_ok (emotionalGradient (ruminate d n t))"
  by (auto simp: ruminate_def gradient_ok_adjust split: option.splits)

lemma schema_update_stack: "memoryStack (schema_update t) = memoryStack t"
  by (simp add: schema_update_def split: prod.splits option.splits)

lemma schema_update_gradient:
  "gradient_ok (emotionalGradient t) \<Longrightarrow> gradient_ok (emotionalGradient (schema_update t))"
  by (auto simp: schema_update_def gradient_ok_adjust split: prod.splits option.splits)

lemma meta_emotion_ok:
  "meta_emotion l = [] \<or> (distinct (map fst (meta_emotion l)) \<and> list_ex (\<lambda>kd. snd kd > 0) (meta_emotion l))"
  by (simp add: meta_emotion_def)

lemma apply_preserves_stack:
  "stack_ok (memoryStack t) \<Longrightarrow> action_ok a \<Longrightarrow> apply_action a t = Inr t' \<Longrightarrow>
     stack_ok (memoryStack t')"
  by (cases a)
    (auto simp: on_internal_def stack_ok_insert stack_ok_insert_decayed stack_ok_permute
      schema_update_stack ruminate_stack Let_def split: sum.splits)

lemma apply_preserves_gradient:
  "gradient_ok (emotionalGradient t) \<Longrightarrow> action_ok a \<Longrightarrow> apply_action a t = Inr t' \<Longrightarrow>
     gradient_ok (emotionalGradient t')"
  by (cases a)
    (auto simp: on_internal_def gradient_ok_adjust gradient_ok_perturb schema_update_gradient
      ruminate_gradient meta_emotion_ok Let_def split: sum.splits)

lemma run_preserves_bounds:
  "stack_ok (memoryStack t) \<Longrightarrow> gradient_ok (emotionalGradient t) \<Longrightarrow> list_all action_ok as \<Longrightarrow>
   run_actions as t = Inr t' \<Longrightarrow> stack_ok (memoryStack t') \<and> gradient_ok (emotionalGradient t')"
proof (induction as arbitrary: t)
  case Nil
  then show ?case by simp
next
  case (Cons a as)
  from Cons.prems(4) obtain u where u: "apply_action a t = Inr u" and rest: "run_actions as u = Inr t'"
    by (auto split: sum.splits)
  from Cons.prems(3) have a: "action_ok a" and as: "list_all action_ok as" by simp_all
  from apply_preserves_stack[OF Cons.prems(1) a u] apply_preserves_gradient[OF Cons.prems(2) a u]
  show ?case using Cons.IH as rest by blast
qed

lemma prelude_ok: "list_all action_ok (prelude_actions s i)"
  by (simp add: prelude_actions_def external_actions_def external_fragment_def)

lemma dream_ok: "list_all action_ok (dream_actions s i)"
  by (simp add: dream_actions_def dream_fragment_def Let_def)

lemma rumination_ok: "list_all action_ok (rumination_actions s i)"
  by (simp add: rumination_actions_def)

lemma subconscious_ok: "list_all action_ok (subconscious_actions s i)"
  by (simp add: subconscious_actions_def)

lemma schema_ok: "list_all action_ok (schema_actions s i)"
  by (simp add: schema_actions_def)

lemma inspection_ok: "list_all action_ok (inspection_actions s i)"
  by (simp add: inspection_actions_def Let_def)

lemma goal_ok: "list_all action_ok (goal_actions s i)"
  by (simp add: goal_actions_def goal_fragment_def Let_def)

lemma topic_shift_ok: "list_all action_ok (topic_shift_actions s i t)"
  by (simp add: topic_shift_actions_def Let_def)

lemma normal_ok: "gradient_ok (emotionalGradient s) \<Longrightarrow> list_all action_ok (normal_actions s i)"
  using rate_in_unit[of "emotionalGradient s" "cognitiveMaturity s"]
  by (simp add: normal_actions_def thought_fragment_def Let_def topic_shift_ok cycle_modulators_def
      split: option.splits)

lemma cycle_ok: "gradient_ok (emotionalGradient s) \<Longrightarrow> list_all action_ok (cycle_actions s i)"
  by (simp add: cycle_actions_def thinking_actions_def prelude_ok dream_ok subconscious_ok
      rumination_ok schema_ok inspection_ok goal_ok normal_ok)

lemma event_ok: "gradient_ok (emotionalGradient s) \<Longrightarrow> list_all action_ok (event_actions s ev)"
  by (cases ev) (simp_all add: cycle_ok intuition_fragment_def)

lemma default_gradient_ok: "gradient_ok default_gradient"
proof -
  have "\<forall>k. 0 \<le> default_gradient k \<and> default_gradient k \<le> 1"
  proof
    fix k show "0 \<le> default_gradient k \<and> default_gradient k \<le> 1"
      by (cases k) (simp_all add: default_gradient_def)
  qed
  moreover have "0 < default_gradient Calm" by (simp add: default_gradient_def)
  ultimately show ?thesis unfolding gradient_ok_def by blast
qed

lemma default_state_bounded:
  "stack_ok (memoryStack (default_state n))" "gradient_ok (emotionalGradient (default_state n))"
  by (simp_all add: default_state_def stack_ok_def default_gradient_ok)

lemma sample_tick_runs:
  "(case step (default_state 10000) (Tick sample_inputs) of Inr s' \<Rightarrow> True | Inl e \<Rightarrow> False)"
  by code_simp

text \<open>
  Claim C1. Every event of the engine (a cycle of the scheduler, the resolution of an
  intuition request, the end of a dream) keeps the bounds: when the memory stack has at
  most 10 fragments with strengths from 0.1 to 1 and the gradient is well formed before
  the event, then so it is after it. Each single update that the event issues keeps the
  bounds of the stack from whatever state it is applied to, so the order in which the
  updates take effect does not matter.
\<close>

theorem memory_stack_bounds:
  assumes "stack_ok (memoryStack s)" and "gradient_ok (emotionalGradient s)"
  shows "(step s ev = Inr s' \<longrightarrow>
            length (memoryStack s') \<le> 10 \<and>
            (\<forall>m \<in> set (memoryStack s'). 0.1 \<le> m_strength m \<and> m_strength m \<le> 1) \<and>
            gradient_ok (emotionalGradient s')) \<and>
         (\<forall>a \<in> set (event_actions s ev). \<forall>t t'.
            stack_ok (memoryStack t) \<longrightarrow> apply_action a t = Inr t' \<longrightarrow> stack_ok (memoryStack t'))"
proof -
  have ok: "list_all action_ok (event_actions s ev)" using assms(2) by (rule event_ok)
  have A: "step s ev = Inr s' \<longrightarrow>
            length (memoryStack s') \<le> 10 \<and>
            (\<forall>m \<in> set (memoryStack s'). 0.1 \<le> m_strength m \<and> m_strength m \<le> 1) \<and>
            gradient_ok (emotionalGradient s')"
  proof
    assume "step s ev = Inr s'"
    then have "run_actions (event_actions s ev) s = Inr s'" by (simp add: step_def)
    from run_preserves_bounds[OF assms ok this]
    have "stack_ok (memoryStack s')" "gradient_ok (emotionalGradient s')" by simp_all
    then show "length (memoryStack s') \<le> 10 \<and>
            (\<forall>m \<in> set (memoryStack s'). 0.1 \<le> m_strength m \<and> m_strength m \<le> 1) \<and>
            gradient_ok (emotionalGradient s')"
      by (simp add: stack_ok_def list_all_iff)
  qed
  have B: "\<forall>a \<in> set (event_actions s ev). \<forall>t t'.
            stack_ok (memoryStack t) \<longrightarrow> apply_action a t = Inr t' \<longrightarrow> stack_ok (memoryStack t')"
  proof (intro ballI allI impI)
    fix a t t'
    assume "a \<in> set (event_actions s ev)"
    with ok have "action_ok a" by (simp add: list_all_iff)
    moreover assume "stack_ok (memoryStack t)" "apply_action a t = Inr t'"
    ultimately show "stack_ok (memoryStack t')" using apply_preserves_stack by blast
  qed
  from A B show ?thesis by (rule conjI)
qed

theorem memory_stack_bounds_witness:
  "stack_ok (memoryStack (default_state 10000)) \<and>
   gradient_ok (emotionalGradient (default_state 10000)) \<and>
   (\<exists>s'. step (default_state 10000) (Tick sample_inputs) = Inr s' \<and>
         length (memoryStack s') \<le> 10 \<and>
         list_all (\<lambda>m. 0.1 \<le> m_strength m \<and> m_strength m \<le> 1) (memoryStack s'))"
proof -
  let ?s = "default_state 10000"
  obtain s' where run: "step ?s (Tick sample_inputs) = Inr s'"
    using sample_tick_runs by (cases "step ?s (Tick sample_inputs)") simp_all
  note b = default_state_bounded[of 10000]
  from memory_stack_bounds[OF b, of "Tick sample_inputs" s'] run
  have "length (memoryStack s') \<le> 10 \<and>
        list_all (\<lambda>m. 0.1 \<le> m_strength m \<and> m_strength m \<le> 1) (memoryStack s')"
    by (simp add: list_all_iff)
  with run b show ?thesis by blast
qed

text \<open>The bounds hold in every state that the engine reaches from a first start.\<close>

lemma reachable_bounded:
  "reachable_state s \<Longrightarrow> stack_ok (memoryStack s) \<and> gradient_ok (emotionalGradient s)"
proof (induction rule: reachable_state.induct)
  case (start n)
  show ?case using default_state_bounded[of n] by simp
next
  case (event s ev s')
  from event.IH have a: "stack_ok (memoryStack s)" and b: "gradient_ok (emotionalGradient s)"
    by simp_all
  from event.hyps(2) have "run_actions (event_actions s ev) s = Inr s'" by (simp add: step_def)
  from run_preserves_bounds[OF a b event_ok[OF b] this] show ?case .
qed

subsection \<open>The memory stack after a cycle\<close>

lemma run_append:
  "run_actions (xs @ ys) t = (case run_actions xs t of Inl e \<Rightarrow> Inl e | Inr u \<Rightarrow> run_actions ys u)"
  by (induction xs arbitrary: t) (auto split: sum.splits)

lemma run_appendE:
  assumes "run_actions (xs @ ys) t = Inr t'"
  obtains u where "run_actions xs t = Inr u" and "run_actions ys u = Inr t'"
  using assms by (auto simp: run_append split: sum.splits)

lemma run_keeps:
  assumes "\<And>a u u'. a \<in> set as \<Longrightarrow> apply_action a u = Inr u' \<Longrightarrow> obs u' = obs u"
    and "run_actions as t = Inr t'"
  shows "obs t' = obs t"
  using assms
proof (induction as arbitrary: t)
  case Nil
  then show ?case by simp
next
  case (Cons a as)
  from Cons.prems(2) obtain u where u: "apply_action a t = Inr u" and rest: "run_actions as u = Inr t'"
    by (auto split: sum.splits)
  have "obs u = obs t" using Cons.prems(1)[of a t u] u by simp
  moreover have "obs t' = obs u"
  proof (rule Cons.IH[OF _ rest])
    fix b v v'
    assume "b \<in> set as" and "apply_action b v = Inr v'"
    then show "obs v' = obs v" using Cons.prems(1)[of b v v'] by simp
  qed
  ultimately show ?case by simp
qed

lemma decay_fragment_fun:
  "decay_fragment r = (\<lambda>mem. mem\<lparr>m_strength := max 0.1 (m_strength mem * r)\<rparr>)"
  by (rule ext) (simp add: decay_fragment_def)

lemma rumination_cong:
  "conflicts a = conflicts b \<Longrightarrow> openQuestions a = openQuestions b \<Longrightarrow>
     rumination d n a = rumination d n b"
  by (simp add: rumination_def)

lemma prelude_effect:
  "run_actions (prelude_actions s i) t = Inr u \<Longrightarrow>
     memoryStack u = with_stimulus i (memoryStack t) \<and>
     conflicts (internalState u) = conflicts (internalState t) \<and>
     openQuestions (internalState u) = openQuestions (internalState t)"
  by (auto simp: prelude_actions_def external_actions_def with_stimulus_def insert_fragment_def
      on_internal_def select_subAgent_def split: if_splits)

lemma subconscious_effect:
  "run_actions (subconscious_actions s i) t = Inr u \<Longrightarrow>
     memoryStack u = memoryStack t \<and>
     conflicts (internalState u) = conflicts (internalState t) \<and>
     openQuestions (internalState u) = openQuestions (internalState t)"
  by (auto simp: subconscious_actions_def subconscious_update_def ruminate_stream_def Let_def
      split: if_splits sum.splits option.splits)

lemma sweep_effect:
  "run_actions [SweepFrequency] t = Inr u \<Longrightarrow>
     memoryStack u = memoryStack t \<and> internalState u = internalState t"
  by auto

lemma rumination_effect:
  assumes "run_actions (rumination_actions s i) t = Inr u"
    and "conflicts (internalState t) = conflicts (internalState s)"
    and "openQuestions (internalState t) = openQuestions (internalState s)"
  shows "memoryStack u = with_rumination s i (memoryStack t)"
proof -
  have "rumination (sub i) (now i) (internalState t) = rumination (sub i) (now i) (internalState s)"
    using assms(2,3) by (rule rumination_cong)
  with assms(1) show ?thesis
    by (auto simp: rumination_actions_def with_rumination_def ruminate_def insert_fragment_def
        split: if_splits option.splits)
qed

lemma schema_effect:
  "run_actions (schema_actions s i) t = Inr u \<Longrightarrow> memoryStack u = memoryStack t"
  by (auto simp: schema_actions_def schema_update_stack split: if_splits)

lemma inspection_effect:
  "run_actions (inspection_actions s i) t = Inr u \<Longrightarrow> memoryStack u = memoryStack t"
  by (auto simp: inspection_actions_def Let_def on_internal_def split: if_splits)

lemma goal_effect:
  "run_actions (goal_actions s i) t = Inr u \<Longrightarrow>
     memoryStack u = goal_fragment i # take 9 (memoryStack t)"
  by (auto simp: goal_actions_def Let_def on_internal_def insert_fragment_def)

lemma topic_shift_effect:
  "run_actions (topic_shift_actions s i newThought @ [Perturb x d]) t = Inr u \<Longrightarrow>
     memoryStack u = memoryStack t \<and> thought u = thought t"
  by (auto simp: topic_shift_actions_def Let_def on_internal_def split: if_splits)

lemma normal_effect:
  assumes "topic s = Some topic_now" and "run_actions (normal_actions s i) t = Inr u"
  shows "memoryStack u =
           insert_decayed (memoryDecayRate (cycle_modulators s)) (thought_fragment s i topic_now)
             (memoryStack t) \<and>
         thought u = new_thought s i topic_now"
proof -
  let ?shift = "topic_shift_actions s i (new_thought s i topic_now) @
                [Perturb (mentalTension (internalState s)) (perturbation i)]"
  from assms obtain v where v: "run_actions ?shift v = Inr u"
    and m: "memoryStack v =
      insert_decayed (memoryDecayRate (cycle_modulators s)) (thought_fragment s i topic_now)
        (memoryStack t)"
    and th: "thought v = new_thought s i topic_now"
    by (auto simp: normal_actions_def Let_def on_internal_def split: sum.splits)
  from topic_shift_effect[OF v] m th show ?thesis by simp
qed

lemma sort_goals_effect:
  "run_actions (if goals (internalState s) \<noteq> [] then [SortGoals] else []) t = Inr u \<Longrightarrow>
     memoryStack u = memoryStack t"
  by (auto simp: on_internal_def split: if_splits)

lemma dream_effect:
  assumes "dreams s i"
  shows "\<exists>s'. step s (Tick i) = Inr s' \<and>
           memoryStack s' =
             dream_fragment i # take 9 (with_stimulus i (permute (dream_shuffle i) (memoryStack s))) \<and>
           thought s' = ''(Dream Reflection): '' @ awaited (callLLM (runtime i) (reflection_llm i)) \<and>
           last (currentStream (internalState s')) = awaited (callLLM (runtime i) (reflection_llm i))"
  using assms
  by (simp add: step_def cycle_actions_def prelude_actions_def external_actions_def
      dream_actions_def Let_def on_internal_def with_stimulus_def insert_fragment_def
      dream_reflection_update_def stream_push_def)

lemma intuition_effect:
  "\<exists>s'. step s (IntuitionResolved rt outcome t) = Inr s' \<and>
     memoryStack s' = intuition_fragment rt outcome t # take 9 (memoryStack s) \<and>
     thought s' = ''(Intuition): '' @ awaited (callLLM rt outcome) \<and>
     last (currentStream (internalState s')) = awaited (callLLM rt outcome)"
  by (simp add: step_def on_internal_def insert_fragment_def stream_push_def)

lemma waking_prefix:
  assumes "\<not> dreams s i" and "step s (Tick i) = Inr s'"
  obtains t where "memoryStack t = earlier_insertions s i"
    and "run_actions (if inspects s then inspection_actions s i else thinking_actions s i) t = Inr s'"
proof -
  from assms have "run_actions (prelude_actions s i @ subconscious_actions s i @ [SweepFrequency] @
      rumination_actions s i @ schema_actions s i @
      (if inspects s then inspection_actions s i else thinking_actions s i)) s = Inr s'"
    by (simp add: step_def cycle_actions_def)
  then obtain t1 where p: "run_actions (prelude_actions s i) s = Inr t1"
    and r1: "run_actions (subconscious_actions s i @ [SweepFrequency] @
      rumination_actions s i @ schema_actions s i @
      (if inspects s then inspection_actions s i else thinking_actions s i)) t1 = Inr s'"
    by (rule run_appendE)
  from r1 obtain t2 where sc: "run_actions (subconscious_actions s i) t1 = Inr t2"
    and r2: "run_actions ([SweepFrequency] @ rumination_actions s i @ schema_actions s i @
      (if inspects s then inspection_actions s i else thinking_actions s i)) t2 = Inr s'"
    by (rule run_appendE)
  from r2 obtain t3 where sw: "run_actions [SweepFrequency] t2 = Inr t3"
    and r3: "run_actions (rumination_actions s i @ schema_actions s i @
      (if inspects s then inspection_actions s i else thinking_actions s i)) t3 = Inr s'"
    by (rule run_appendE)
  from r3 obtain t4 where ru: "run_actions (rumination_actions s i) t3 = Inr t4"
    and r4: "run_actions (schema_actions s i @
      (if inspects s then inspection_actions s i else thinking_actions s i)) t4 = Inr s'"
    by (rule run_appendE)
  from r4 obtain t5 where sh: "run_actions (schema_actions s i) t4 = Inr t5"
    and r5: "run_actions (if inspects s then inspection_actions s i else thinking_actions s i) t5 = Inr s'"
    by (rule run_appendE)
  note e1 = prelude_effect[OF p] and e2 = subconscious_effect[OF sc] and e3 = sweep_effect[OF sw]
  have c: "conflicts (internalState t3) = conflicts (internalState s)"
    and q: "openQuestions (internalState t3) = openQuestions (internalState s)"
    using e1 e2 e3 by simp_all
  from rumination_effect[OF ru c q] e1 e2 e3 schema_effect[OF sh]
  have "memoryStack t5 = earlier_insertions s i" by (simp add: earlier_insertions_def)
  from that[OF this r5] show thesis .
qed

lemma thinking_effect:
  assumes "run_actions (thinking_actions s i) t = Inr u"
  shows "if goal_directed s i then memoryStack u = goal_fragment i # take 9 (memoryStack t)
         else (case topic s of
                 None \<Rightarrow> memoryStack u = memoryStack t
               | Some topic_now \<Rightarrow>
                   memoryStack u =
                     insert_decayed (memoryDecayRate (cycle_modulators s))
                       (thought_fragment s i topic_now) (memoryStack t))"
proof -
  from assms obtain v where sg: "run_actions (if goals (internalState s) \<noteq> [] then [SortGoals] else []) t = Inr v"
    and rest: "run_actions (if goal_directed s i then goal_actions s i else normal_actions s i) v = Inr u"
    unfolding thinking_actions_def by (rule run_appendE)
  note m = sort_goals_effect[OF sg]
  show ?thesis
  proof (cases "goal_directed s i")
    case True
    with rest goal_effect[of s i v u] m show ?thesis by simp
  next
    case False
    show ?thesis
    proof (cases "topic s")
      case None
      with rest False m show ?thesis by (simp add: normal_actions_def)
    next
      case (Some topic_now)
      with rest False normal_effect[OF Some, of i v u] m show ?thesis by simp
    qed
  qed
qed

lemma cycle_memory:
  assumes "step s (Tick i) = Inr s'"
  shows "case kind_of_cycle s i of
           NormalCycle \<Rightarrow>
             \<exists>topic_now. topic s = Some topic_now \<and>
               memoryStack s' =
                 insert_decayed (memoryDecayRate (cycle_modulators s))
                   (thought_fragment s i topic_now) (earlier_insertions s i)
         | GoalDirected \<Rightarrow> memoryStack s' = goal_fragment i # take 9 (earlier_insertions s i)
         | DreamCycle \<Rightarrow>
             memoryStack s' =
               dream_fragment i # take 9 (with_stimulus i (permute (dream_shuffle i) (memoryStack s)))
         | SelfInspection \<Rightarrow> memoryStack s' = earlier_insertions s i
         | Aborted \<Rightarrow> memoryStack s' = earlier_insertions s i"
proof (cases "dreams s i")
  case True
  from dream_effect[OF True] assms True show ?thesis by (auto simp: kind_of_cycle_def)
next
  case False
  from False assms obtain t where t: "memoryStack t = earlier_insertions s i"
    and tail: "run_actions (if inspects s then inspection_actions s i else thinking_actions s i) t = Inr s'"
    by (rule waking_prefix)
  show ?thesis
  proof (cases "inspects s")
    case True
    with tail inspection_effect[of s i t s'] t False show ?thesis by (simp add: kind_of_cycle_def)
  next
    case ni: False
    with tail have "run_actions (thinking_actions s i) t = Inr s'" by simp
    from thinking_effect[OF this] t False ni show ?thesis
      by (auto simp: kind_of_cycle_def split: option.splits if_splits)
  qed
qed

lemma sample_normal_cycle:
  "kind_of_cycle (default_state 10000) sample_inputs = NormalCycle \<and>
   topic (default_state 10000) = Some ''consciousness'' \<and>
   map m_strength
     (take 10 (thought_fragment (default_state 10000) sample_inputs ''consciousness'' #
        map (\<lambda>mem. mem\<lparr>m_strength := max 0.1 (m_strength mem *
               memoryDecayRate (cycle_modulators (default_state 10000)))\<rparr>)
          (earlier_insertions (default_state 10000) sample_inputs))) = [1, 0.947, 0.947, 0.947]"
  by code_simp

lemma dream_insert_sample:
  "(case step (default_state 10000) (Tick dream_inputs) of
      Inr s' \<Rightarrow> map m_strength (memoryStack s') | Inl e \<Rightarrow> []) = [0.7, 1, 1, 1] \<and>
   map m_strength
     (insert_spec (memoryDecayRate (cycle_modulators (default_state 10000)))
        \<lparr>m_text = ''a door without a wall'', m_emotion = ''DREAMING'', m_strength = 0.7,
         m_timestamp = 5000, m_source = None\<rparr>
        (memoryStack (default_state 10000))) = [0.7, 0.947, 0.947, 0.947]"
  by code_simp

text \<open>
  Claim C5, as the code has it. Only the insertion of the normal cycle decays: it
  multiplies the strength of every fragment on the stack by the decay rate of the cycle,
  floors it at 0.1, prepends the new thought at strength 1 and keeps 10. The other sites
  prepend their fragment to the first 9 fragments and leave every strength as it is: the
  goal-directed thought, the dream (on the stack as the dream has shuffled it), the
  intuition, and, before any of them in the same cycle, the external stimulus and the
  rumination of the subconscious. A self-inspection cycle and a cycle without a topic
  store nothing of their own.
\<close>

theorem insertion_forms:
  "(step s (Tick i) = Inr s' \<longrightarrow>
      (case kind_of_cycle s i of
         NormalCycle \<Rightarrow>
           \<exists>topic_now. topic s = Some topic_now \<and>
             m_strength (thought_fragment s i topic_now) = 1 \<and>
             memoryStack s' =
               take 10 (thought_fragment s i topic_now #
                 map (\<lambda>mem. mem\<lparr>m_strength :=
                        max 0.1 (m_strength mem * memoryDecayRate (cycle_modulators s))\<rparr>)
                   (earlier_insertions s i))
       | GoalDirected \<Rightarrow> memoryStack s' = goal_fragment i # take 9 (earlier_insertions s i)
       | DreamCycle \<Rightarrow>
           memoryStack s' =
             dream_fragment i # take 9 (with_stimulus i (permute (dream_shuffle i) (memoryStack s)))
       | SelfInspection \<Rightarrow> memoryStack s' = earlier_insertions s i
       | Aborted \<Rightarrow> memoryStack s' = earlier_insertions s i)) \<and>
   (step s (IntuitionResolved rt outcome t) = Inr s'' \<longrightarrow>
      memoryStack s'' = intuition_fragment rt outcome t # take 9 (memoryStack s)) \<and>
   with_stimulus i ms = (if r_external i < 0.2 then external_fragment i # take 9 ms else ms) \<and>
   earlier_insertions s i =
     (if subconscious s then
        (case rumination (sub i) (now i) (internalState s) of
           None \<Rightarrow> with_stimulus i (memoryStack s)
         | Some (newMemory, raised) \<Rightarrow> newMemory # take 9 (with_stimulus i (memoryStack s)))
      else with_stimulus i (memoryStack s))"
proof (intro conjI impI)
  assume run: "step s (Tick i) = Inr s'"
  from cycle_memory[OF run]
  show "case kind_of_cycle s i of
         NormalCycle \<Rightarrow>
           \<exists>topic_now. topic s = Some topic_now \<and>
             m_strength (thought_fragment s i topic_now) = 1 \<and>
             memoryStack s' =
               take 10 (thought_fragment s i topic_now #
                 map (\<lambda>mem. mem\<lparr>m_strength :=
                        max 0.1 (m_strength mem * memoryDecayRate (cycle_modulators s))\<rparr>)
                   (earlier_insertions s i))
       | GoalDirected \<Rightarrow> memoryStack s' = goal_fragment i # take 9 (earlier_insertions s i)
       | DreamCycle \<Rightarrow>
           memoryStack s' =
             dream_fragment i # take 9 (with_stimulus i (permute (dream_shuffle i) (memoryStack s)))
       | SelfInspection \<Rightarrow> memoryStack s' = earlier_insertions s i
       | Aborted \<Rightarrow> memoryStack s' = earlier_insertions s i"
    by (cases "kind_of_cycle s i")
      (auto simp: insert_decayed_def decay_fragment_fun thought_fragment_def)
next
  assume "step s (IntuitionResolved rt outcome t) = Inr s''"
  with intuition_effect[of s rt outcome t]
  show "memoryStack s'' = intuition_fragment rt outcome t # take 9 (memoryStack s)" by auto
next
  show "with_stimulus i ms = (if r_external i < 0.2 then external_fragment i # take 9 ms else ms)"
    by (simp add: with_stimulus_def)
next
  show "earlier_insertions s i =
     (if subconscious s then
        (case rumination (sub i) (now i) (internalState s) of
           None \<Rightarrow> with_stimulus i (memoryStack s)
         | Some (newMemory, raised) \<Rightarrow> newMemory # take 9 (with_stimulus i (memoryStack s)))
      else with_stimulus i (memoryStack s))"
    by (simp add: earlier_insertions_def with_rumination_def)
qed

theorem insertion_forms_witness:
  "\<exists>s' s''. step (default_state 10000) (Tick sample_inputs) = Inr s' \<and>
     kind_of_cycle (default_state 10000) sample_inputs = NormalCycle \<and>
     map m_strength (memoryStack (default_state 10000)) = [1, 1, 1] \<and>
     map m_strength (memoryStack s') = [1, 0.947, 0.947, 0.947] \<and>
     step (default_state 10000) (IntuitionResolved sample_runtime (generated ''a flicker'') 7000) = Inr s'' \<and>
     map m_strength (memoryStack s'') = [0.8, 1, 1, 1]"
proof -
  let ?s = "default_state 10000"
  obtain s' where run: "step ?s (Tick sample_inputs) = Inr s'"
    using sample_tick_runs by (cases "step ?s (Tick sample_inputs)") simp_all
  obtain s'' where run2: "step ?s (IntuitionResolved sample_runtime (generated ''a flicker'') 7000) = Inr s''"
    using intuition_effect by blast
  note t = insertion_forms[of ?s sample_inputs s' sample_runtime "generated ''a flicker''" 7000 s'' "[]"]
  note k = sample_normal_cycle[THEN conjunct1]
  note tp = sample_normal_cycle[THEN conjunct2, THEN conjunct1]
  note ev = sample_normal_cycle[THEN conjunct2, THEN conjunct2]
  from t run have "case kind_of_cycle ?s sample_inputs of
         NormalCycle \<Rightarrow>
           \<exists>topic_now. topic ?s = Some topic_now \<and>
             m_strength (thought_fragment ?s sample_inputs topic_now) = 1 \<and>
             memoryStack s' =
               take 10 (thought_fragment ?s sample_inputs topic_now #
                 map (\<lambda>mem. mem\<lparr>m_strength :=
                        max 0.1 (m_strength mem * memoryDecayRate (cycle_modulators ?s))\<rparr>)
                   (earlier_insertions ?s sample_inputs))
       | GoalDirected \<Rightarrow> memoryStack s' = goal_fragment sample_inputs # take 9 (earlier_insertions ?s sample_inputs)
       | DreamCycle \<Rightarrow>
           memoryStack s' =
             dream_fragment sample_inputs # take 9 (with_stimulus sample_inputs (permute (dream_shuffle sample_inputs) (memoryStack ?s)))
       | SelfInspection \<Rightarrow> memoryStack s' = earlier_insertions ?s sample_inputs
       | Aborted \<Rightarrow> memoryStack s' = earlier_insertions ?s sample_inputs"
    by blast
  then have "memoryStack s' =
      take 10 (thought_fragment ?s sample_inputs ''consciousness'' #
         map (\<lambda>mem. mem\<lparr>m_strength := max 0.1 (m_strength mem * memoryDecayRate (cycle_modulators ?s))\<rparr>)
           (earlier_insertions ?s sample_inputs))"
    unfolding k using tp by simp
  then have a: "map m_strength (memoryStack s') = [1, 0.947, 0.947, 0.947]" using ev by simp
  from t run2 have "memoryStack s'' =
      intuition_fragment sample_runtime (generated ''a flicker'') 7000 # take 9 (memoryStack ?s)"
    by blast
  then have b: "map m_strength (memoryStack s'') = [0.8, 1, 1, 1]"
    by (simp add: intuition_fragment_def default_state_def)
  have c: "map m_strength (memoryStack ?s) = [1, 1, 1]" by (simp add: default_state_def)
  from run k c a run2 b show ?thesis by (intro exI[of _ s'] exI[of _ "s''"] conjI)
qed

text \<open>
  Claim C5 as stated fails: the dream cycle of the default state stores its fragment and
  leaves the three strengths at 1, where the insertion of the specification would have
  decayed them to 0.947.
\<close>

theorem dream_insert_does_not_decay:
  "(case step (default_state 10000) (Tick dream_inputs) of
      Inr s' \<Rightarrow> map m_strength (memoryStack s') | Inl e \<Rightarrow> []) \<noteq>
   map m_strength
     (insert_spec (memoryDecayRate (cycle_modulators (default_state 10000)))
        \<lparr>m_text = ''a door without a wall'', m_emotion = ''DREAMING'', m_strength = 0.7,
         m_timestamp = 5000, m_source = None\<rparr>
        (memoryStack (default_state 10000)))"
proof -
  note a = dream_insert_sample [THEN conjunct1] and b = dream_insert_sample [THEN conjunct2]
  show ?thesis unfolding a b by simp
qed

subsection \<open>Conflicts and tension after contradiction detection\<close>

lemma foldl_set_add:
  "set (foldl set_add acc xs) = set acc \<union> set xs \<and> (distinct acc \<longrightarrow> distinct (foldl set_add acc xs))"
  by (induction xs arbitrary: acc) (auto simp: set_add_def)

lemma array_from_set_set [simp]: "set (array_from_set xs) = set xs"
  using foldl_set_add[of "[]" xs] by (simp add: array_from_set_def)

lemma array_from_set_distinct [simp]: "distinct (array_from_set xs)"
  using foldl_set_add[of "[]" xs] by (simp add: array_from_set_def)

lemma foldl_add_found_distinct:
  "distinct acc \<Longrightarrow> distinct (foldl (\<lambda>acc x. add_found acc (f x)) acc xs)"
  by (induction xs arbitrary: acc) (auto simp: add_found_def set_add_def split: option.splits)

lemma foldl_add_found_nested_distinct:
  "distinct acc \<Longrightarrow>
   distinct (foldl (\<lambda>acc a. foldl (\<lambda>acc' b. add_found acc' (h a b)) acc (nb a)) acc ks)"
  by (induction ks arbitrary: acc) (auto simp: foldl_add_found_distinct)

lemma detectContradictions_distinct: "distinct (detectContradictions bs g)"
  by (simp add: detectContradictions_def Let_def foldl_add_found_nested_distinct
      foldl_add_found_distinct)

lemma default_detected:
  "detectContradictions (beliefs default_internalState) default_beliefGraph =
     [pair_message ''self'' ''undefined'' ''defined'']"
  by code_simp

text \<open>
  Claim C8, as the code has it. The self-inspection cycle sets the conflicts list to the
  deduplicated union of the previous conflicts and the detected contradictions, and raises
  the tension by 0.1 for every detected contradiction, whether or not it is already in
  the conflicts list, capped at 1. The detected contradictions are distinct, and this
  update is the first that the self-inspection branch issues.
\<close>

theorem contradictions_recorded:
  "set (conflicts (record_contradictions detected prev)) = set (conflicts prev) \<union> set detected \<and>
   distinct (conflicts (record_contradictions detected prev)) \<and>
   mentalTension (record_contradictions detected prev) =
     min 1 (mentalTension prev + 0.1 * real (length detected)) \<and>
   distinct (detectContradictions bs g) \<and>
   hd (inspection_actions s i) =
     RecordContradictions (detectContradictions (beliefs (internalState s)) (beliefGraph s))"
  by (simp add: record_contradictions_def detectContradictions_distinct inspection_actions_def Let_def)

text \<open>
  Claim C8 as stated fails: the default belief that the self is \<^verbatim>\<open>undefined\<close> is detected
  as a contradiction at every self-inspection (\<^verbatim>\<open>undefined\<close> contains \<^verbatim>\<open>defined\<close>). Once it is
  in the conflicts list it is not new, and the tension still rises by 0.1.
\<close>

theorem known_contradiction_raises_tension:
  "mentalTension (record_contradictions
      (detectContradictions (beliefs default_internalState) default_beliefGraph)
      (default_internalState\<lparr>conflicts := [pair_message ''self'' ''undefined'' ''defined'']\<rparr>)) = 0.1 \<and>
   tension_per_new_spec
      (default_internalState\<lparr>conflicts := [pair_message ''self'' ''undefined'' ''defined'']\<rparr>)
      (detectContradictions (beliefs default_internalState) default_beliefGraph) = 0"
  unfolding default_detected
  by (simp add: record_contradictions_def tension_per_new_spec_def default_internalState_def)

subsection \<open>What the sites store of the text generator\<close>


















section \<open>Properties of schema formation\<close>

lemma split_scan_words:
  "list_all is_word_char cur \<Longrightarrow> \<forall>w \<in> set (split_scan r cur s). list_all is_word_char w"
  by (induction r cur s rule: split_scan.induct) auto

lemma plus_not_word: "\<not> is_word_char (CHR ''+'')"
  by (simp add: is_word_char_def upper_letters_def lower_letters_def digit_chars_def)

lemma content_word_no_plus: "w \<in> set (content_words t) \<Longrightarrow> CHR ''+'' \<notin> set w"
proof -
  assume "w \<in> set (content_words t)"
  then have "w \<in> set (split_scan False [] (toLowerCase t))"
    by (simp add: content_words_def split_nonword_def)
  with split_scan_words[of "[]" False "toLowerCase t"] have "list_all is_word_char w" by simp
  with plus_not_word show ?thesis by (auto simp: list_all_iff)
qed

lemma split_acc_no_sep: "c \<notin> set x \<Longrightarrow> split_acc c cur (x @ rest) = split_acc c (cur @ x) rest"
  by (induction x arbitrary: cur) auto

lemma split_on_pair:
  "c \<notin> set x \<Longrightarrow> c \<notin> set y \<Longrightarrow> split_on c (x @ c # y) = [x, y]"
proof -
  assume x: "c \<notin> set x" and y: "c \<notin> set y"
  have "split_acc c [] (x @ c # y) = split_acc c x (c # y)"
    using split_acc_no_sep[OF x, of "[]" "c # y"] by simp
  also have "\<dots> = x # split_acc c [] (y @ [])" by simp
  also have "split_acc c [] (y @ []) = split_acc c y []"
    using split_acc_no_sep[OF y, of "[]" "[]"] by simp
  finally show ?thesis by (simp add: split_on_def)
qed

lemma key_parts_pair:
  "CHR ''+'' \<notin> set x \<Longrightarrow> CHR ''+'' \<notin> set y \<Longrightarrow> key_parts (x @ CHR ''+'' # y) = (x, y)"
  using split_on_pair[of "CHR ''+''" x y]
  by (simp add: key_parts_def nth_opt_def js_text_def)

lemma replace_plus_pair:
  "CHR ''+'' \<notin> set x \<Longrightarrow> replace_plus (x @ CHR ''+'' # y) = x @ CHR ''-'' # y"
proof -
  assume x: "CHR ''+'' \<notin> set x"
  then have t: "takeWhile (\<lambda>c. c \<noteq> CHR ''+'') (x @ CHR ''+'' # y) = x"
    by (subst takeWhile_append2) auto
  from x have d: "dropWhile (\<lambda>c. c \<noteq> CHR ''+'') (x @ CHR ''+'' # y) = CHR ''+'' # y"
    by (auto simp: dropWhile_append3)
  show ?thesis unfolding replace_plus_def using t d by simp
qed


lemma pairKey_cases:
  "pairKey a b = (if a \<le> b then a else b) @ CHR ''+'' # (if a \<le> b then b else a)"
  by (simp add: pairKey_def)

lemma single_pair_update:
  "content_words t = [a, b] \<Longrightarrow> updateConceptPairFrequency t freq = bump freq (pairKey a b)"
  by (simp add: updateConceptPairFrequency_def)

lemma bump_empty: "bump [] k = [(k, 1)]"
  by (simp add: bump_def obj_set_def count_of_def)

lemma bump_single: "bump [(k, m)] k = [(k, Suc m)]"
  by (simp add: bump_def obj_set_def count_of_def)

lemma feed_single:
  "content_words t = [a, b] \<Longrightarrow> feed n t [(pairKey a b, m)] = [(pairKey a b, m + n)]"
proof (induction n arbitrary: m)
  case 0
  then show ?case by (simp add: feed_def)
next
  case (Suc n)
  have "feed (Suc n) t [(pairKey a b, m)] = feed n t (updateConceptPairFrequency t [(pairKey a b, m)])"
    by (simp add: feed_def funpow_swap1)
  also have "\<dots> = feed n t [(pairKey a b, Suc m)]"
    using Suc.prems by (simp add: single_pair_update bump_single)
  also have "\<dots> = [(pairKey a b, Suc m + n)]" using Suc.IH[OF Suc.prems] .
  finally show ?case by simp
qed

lemma feed_empty:
  "content_words t = [a, b] \<Longrightarrow> feed n t [] = (if n = 0 then [] else [(pairKey a b, n)])"
proof (cases n)
  case 0
  then show ?thesis by (simp add: feed_def)
next
  case (Suc k)
  assume w: "content_words t = [a, b]"
  have "feed (Suc k) t [] = feed k t (updateConceptPairFrequency t [])"
    by (simp add: feed_def funpow_swap1)
  also have "\<dots> = feed k t [(pairKey a b, 1)]" using w by (simp add: single_pair_update bump_empty)
  also have "\<dots> = [(pairKey a b, 1 + k)]" using feed_single[OF w] .
  finally show ?thesis using Suc by simp
qed

lemma plus_key_not_index: "\<not> is_array_index (x @ CHR ''+'' # y)"
  by (simp add: is_array_index_def digit_chars_def)

lemma own_keys_single_pair: "own_keys [(pairKey a b, n)] = [pairKey a b]"
  using plus_key_not_index by (simp add: own_keys_def pairKey_cases)

lemma hyphen_not_prototype: "x @ CHR ''-'' # y \<notin> set prototype_names"
proof
  assume "x @ CHR ''-'' # y \<in> set prototype_names"
  moreover have "\<forall>p \<in> set prototype_names. CHR ''-'' \<notin> set p"
    by (simp add: prototype_names_def)
  ultimately have "CHR ''-'' \<notin> set (x @ CHR ''-'' # y)" by blast
  then show False by simp
qed

lemma js_get_hyphen:
  "js_get g (x @ CHR ''-'' # y) =
     (case map_of g (x @ CHR ''-'' # y) of Some v \<Rightarrow> Own v | None \<Rightarrow> Undefined)"
  using hyphen_not_prototype by (simp add: js_get_def split: option.splits)

lemma obj_set_fresh: "map_of obj k = None \<Longrightarrow> obj_set obj k v = obj @ [(k, v)]"
  by (simp add: obj_set_def)

lemma obj_set_length: "length (obj_set obj k v) \<le> length obj + 1"
  by (simp add: obj_set_def)

lemma schema_check_single:
  assumes x: "CHR ''+'' \<notin> set x" and y: "CHR ''+'' \<notin> set y"
  shows "schema_check g [(x @ CHR ''+'' # y, n)] =
           (if n > 3 \<and> map_of g (x @ CHR ''-'' # y) = None
            then (g @ [(x @ CHR ''-'' # y, [x, y, ''synthesis'', ''pattern''])],
                  [(x @ CHR ''+'' # y, 0)], Some (x @ CHR ''-'' # y))
            else (g, [(x @ CHR ''+'' # y, n)], None))"
proof -
  have keys: "own_keys [(x @ CHR ''+'' # y, n)] = [x @ CHR ''+'' # y]"
    using plus_key_not_index[of x y] by (simp add: own_keys_def)
  have scan: "schema_scan g [(x @ CHR ''+'' # y, n)] [x @ CHR ''+'' # y] =
      (if n > 3 \<and> map_of g (x @ CHR ''-'' # y) = None then Some (x @ CHR ''+'' # y) else None)"
    by (simp add: count_of_def replace_plus_pair[OF x] js_get_hyphen split: option.splits)
  have reset: "obj_set [(x @ CHR ''+'' # y, n)] (x @ CHR ''+'' # y) 0 = [(x @ CHR ''+'' # y, 0)]"
    by (simp add: obj_set_def)
  show ?thesis
    unfolding schema_check_def keys scan
    by (simp add: key_parts_pair[OF x y] obj_set_fresh reset Let_def)
qed

lemma schema_check_length: "length (fst (schema_check G F)) \<le> length G + 1"
  using obj_set_length[of G]
  by (auto simp: schema_check_def Let_def split: option.splits prod.splits)


lemma hello_world_words: "content_words ''hello world'' = [''hello'', ''world'']"
  by code_simp

lemma hello_world_fresh: "map_of default_conceptGraph (replace_plus (pairKey ''hello'' ''world'')) = None"
  by code_simp

text \<open>
  Claim C6. Let a fragment have exactly the two content words \<open>a\<close> and \<open>b\<close>, and let
  the graph have no node of the hyphenated name of the pair. Feeding the fragment \<open>n\<close>
  times into the empty frequency table leaves the one counter of the pair at \<open>n\<close>. With
  \<open>n\<close> up to 3 the schema check forms nothing; with \<open>n\<close> above 3 it adds the node of the
  hyphenated name, linked to the two words, \<^verbatim>\<open>synthesis\<close> and \<^verbatim>\<open>pattern\<close>, and resets the
  counter to 0. From then on the counter counts the further occurrences from 0 (so it
  exceeds 3 only after 4 more), and while the node is in the graph no check forms the
  schema of the pair again. No check adds more than one node.
\<close>

theorem schema_forms_once:
  assumes words: "content_words fragment_text = [a, b]"
    and fresh: "map_of g (replace_plus (pairKey a b)) = None"
  shows "feed n fragment_text [] = (if n = 0 then [] else [(pairKey a b, n)]) \<and>
         (n \<le> 3 \<longrightarrow> schema_check g (feed n fragment_text []) = (g, feed n fragment_text [], None)) \<and>
         (n > 3 \<longrightarrow> schema_check g (feed n fragment_text []) =
            (g @ [(replace_plus (pairKey a b),
                   [fst (key_parts (pairKey a b)), snd (key_parts (pairKey a b)), ''synthesis'',
                    ''pattern''])],
             [(pairKey a b, 0)], Some (replace_plus (pairKey a b)))) \<and>
         {fst (key_parts (pairKey a b)), snd (key_parts (pairKey a b))} = {a, b} \<and>
         replace_plus (pairKey a b) =
           fst (key_parts (pairKey a b)) @ ''-'' @ snd (key_parts (pairKey a b)) \<and>
         (\<forall>m g'. map_of g' (replace_plus (pairKey a b)) \<noteq> None \<longrightarrow>
            schema_check g' (feed m fragment_text [(pairKey a b, 0)]) = (g', [(pairKey a b, m)], None)) \<and>
         (\<forall>G F. length (fst (schema_check G F)) \<le> length G + 1)"
proof -
  define x where "x = (if a \<le> b then a else b)"
  define y where "y = (if a \<le> b then b else a)"
  have key: "pairKey a b = x @ CHR ''+'' # y" by (simp add: pairKey_cases x_def y_def)
  have "a \<in> set (content_words fragment_text)" "b \<in> set (content_words fragment_text)"
    using words by simp_all
  then have "CHR ''+'' \<notin> set a" "CHR ''+'' \<notin> set b" by (auto dest: content_word_no_plus)
  then have nx: "CHR ''+'' \<notin> set x" and ny: "CHR ''+'' \<notin> set y" by (auto simp: x_def y_def)
  have parts: "key_parts (pairKey a b) = (x, y)" unfolding key by (rule key_parts_pair[OF nx ny])
  have name: "replace_plus (pairKey a b) = x @ CHR ''-'' # y"
    unfolding key by (rule replace_plus_pair[OF nx])
  have fed: "feed n fragment_text [] = (if n = 0 then [] else [(pairKey a b, n)])"
    using words by (rule feed_empty)
  have fresh': "map_of g (x @ CHR ''-'' # y) = None" using fresh unfolding name .
  have c1: "n \<le> 3 \<longrightarrow> schema_check g (feed n fragment_text []) = (g, feed n fragment_text [], None)"
  proof (cases "n = 0")
    case True
    then show ?thesis by (simp add: feed_def schema_check_def own_keys_def)
  next
    case False
    then show ?thesis unfolding fed key by (simp add: schema_check_single[OF nx ny])
  qed
  have c2: "n > 3 \<longrightarrow> schema_check g (feed n fragment_text []) =
            (g @ [(replace_plus (pairKey a b),
                   [fst (key_parts (pairKey a b)), snd (key_parts (pairKey a b)), ''synthesis'',
                    ''pattern''])],
             [(pairKey a b, 0)], Some (replace_plus (pairKey a b)))"
    unfolding fed parts name unfolding key using fresh'
    by (simp add: schema_check_single[OF nx ny])
  have c3: "{fst (key_parts (pairKey a b)), snd (key_parts (pairKey a b))} = {a, b}"
    unfolding parts by (auto simp: x_def y_def)
  have c4: "replace_plus (pairKey a b) =
           fst (key_parts (pairKey a b)) @ ''-'' @ snd (key_parts (pairKey a b))"
    unfolding parts name by simp
  have c5: "\<forall>m g'. map_of g' (replace_plus (pairKey a b)) \<noteq> None \<longrightarrow>
            schema_check g' (feed m fragment_text [(pairKey a b, 0)]) = (g', [(pairKey a b, m)], None)"
  proof (intro allI impI)
    fix m and g' :: graph
    assume "map_of g' (replace_plus (pairKey a b)) \<noteq> None"
    then have "map_of g' (x @ CHR ''-'' # y) \<noteq> None" unfolding name .
    moreover have "feed m fragment_text [(pairKey a b, 0)] = [(pairKey a b, 0 + m)]"
      using words by (rule feed_single)
    ultimately show "schema_check g' (feed m fragment_text [(pairKey a b, 0)]) =
        (g', [(pairKey a b, m)], None)"
      unfolding key by (simp add: schema_check_single[OF nx ny])
  qed
  have c6: "\<forall>G F. length (fst (schema_check G F)) \<le> length G + 1"
    using schema_check_length by blast
  from fed c1 c2 c3 c4 c5 c6 show ?thesis by (intro conjI)
qed

theorem schema_forms_once_witness:
  "content_words ''hello world'' = [''hello'', ''world''] \<and>
   map_of default_conceptGraph (replace_plus (pairKey ''hello'' ''world'')) = None \<and>
   (3::nat) < 4 \<and>
   schema_check default_conceptGraph (feed 4 ''hello world'' []) =
     (default_conceptGraph @
        [(replace_plus (pairKey ''hello'' ''world''),
          [fst (key_parts (pairKey ''hello'' ''world'')), snd (key_parts (pairKey ''hello'' ''world'')),
           ''synthesis'', ''pattern''])],
      [(pairKey ''hello'' ''world'', 0)], Some (replace_plus (pairKey ''hello'' ''world'')))"
proof -
  note t = schema_forms_once [OF hello_world_words hello_world_fresh, of 4]
  have lt: "(3::nat) < 4" by simp
  from t have "(3::nat) < 4 \<longrightarrow> schema_check default_conceptGraph (feed 4 ''hello world'' []) =
     (default_conceptGraph @
        [(replace_plus (pairKey ''hello'' ''world''),
          [fst (key_parts (pairKey ''hello'' ''world'')), snd (key_parts (pairKey ''hello'' ''world'')),
           ''synthesis'', ''pattern''])],
      [(pairKey ''hello'' ''world'', 0)], Some (replace_plus (pairKey ''hello'' ''world'')))"
    by (rule conjunct2 [THEN conjunct2, THEN conjunct1])
  from this lt have "schema_check default_conceptGraph (feed 4 ''hello world'' []) =
     (default_conceptGraph @
        [(replace_plus (pairKey ''hello'' ''world''),
          [fst (key_parts (pairKey ''hello'' ''world'')), snd (key_parts (pairKey ''hello'' ''world'')),
           ''synthesis'', ''pattern''])],
      [(pairKey ''hello'' ''world'', 0)], Some (replace_plus (pairKey ''hello'' ''world'')))"
    by (rule mp)
  with hello_world_words hello_world_fresh lt show ?thesis by (intro conjI)
qed

lemma hello_world_schema:
  "schema_check default_conceptGraph (feed 4 ''hello world'' []) =
     (default_conceptGraph @ [(''hello-world'', [''hello'', ''world'', ''synthesis'', ''pattern''])],
      [(''hello+world'', 0)], Some ''hello-world'')"
  by code_simp

section \<open>Properties of topic selection\<close>

lemma obj_set_keys: "fst ` set (obj_set obj k v) = insert k (fst ` set obj)"
proof (cases "map_of obj k")
  case None
  then show ?thesis by (simp add: obj_set_def)
next
  case (Some w)
  from map_of_SomeD[OF Some] have k: "k \<in> fst ` set obj" by (rule image_eqI[rotated]) simp
  have "fst ` set (map (\<lambda>(k', v'). if k' = k then (k', v) else (k', v')) obj) = fst ` set obj"
    by (induction obj) (auto split: if_splits)
  with Some k show ?thesis by (auto simp: obj_set_def)
qed

lemma obj_set_values:
  "(c, ns) \<in> set (obj_set obj k v) \<Longrightarrow> (c, ns) \<in> set obj \<or> (c = k \<and> ns = v)"
  by (auto simp: obj_set_def split: if_splits)

text \<open>
  What holds of every graph that the engine can hold: it has a node, no node has the
  empty name, and no node has the empty string for a neighbour.
\<close>

lemma content_word_nonempty: "w \<in> set (content_words t) \<Longrightarrow> w \<noteq> []"
  by (auto simp: content_words_def)

lemma ensure_node_sound:
  assumes "\<forall>(k, ns) \<in> set g. k \<noteq> [] \<and> [] \<notin> set ns" and "c \<noteq> []"
  shows "\<forall>(k, ns) \<in> set (ensure_node g c). k \<noteq> [] \<and> [] \<notin> set ns"
  using assms by (auto simp: ensure_node_def split: lookup.splits dest!: obj_set_values)

lemma push_link_sound:
  assumes "\<forall>(k, ns) \<in> set g. k \<noteq> [] \<and> [] \<notin> set ns" and "c \<noteq> []" and "d \<noteq> []"
    and "push_link g c d = Inr g'"
  shows "\<forall>(k, ns) \<in> set g'. k \<noteq> [] \<and> [] \<notin> set ns"
proof -
  from assms(4) obtain links where own: "js_get g c = Own links"
    and g': "g' = (if d \<in> set links then g else obj_set g c (links @ [d]))"
    by (auto simp: push_link_def split: lookup.splits)
  from own have "map_of g c = Some links" by (auto simp: js_get_def split: option.splits if_splits)
  then have "(c, links) \<in> set g" by (rule map_of_SomeD)
  with assms(1) have "[] \<notin> set links" by auto
  with assms(1,2,3) g' show ?thesis by (auto dest!: obj_set_values)
qed

lemma link_pair_sound:
  assumes "\<forall>(k, ns) \<in> set g. k \<noteq> [] \<and> [] \<notin> set ns" and "c \<noteq> []" and "d \<noteq> []"
    and "link_pair g c d = Inr g'"
  shows "\<forall>(k, ns) \<in> set g'. k \<noteq> [] \<and> [] \<notin> set ns"
proof -
  from assms(4) obtain g1 where a: "push_link g c d = Inr g1"
    and b: "push_link (ensure_node g1 d) d c = Inr g'"
    by (auto simp: link_pair_def split: sum.splits)
  note s1 = push_link_sound[OF assms(1,2,3) a]
  note s2 = ensure_node_sound[OF s1 assms(3)]
  from push_link_sound[OF s2 assms(3) assms(2) b] show ?thesis .
qed

lemma link_all_sound:
  assumes "\<forall>(k, ns) \<in> set g. k \<noteq> [] \<and> [] \<notin> set ns" and "c \<noteq> []" and "[] \<notin> set ds"
    and "link_all g c ds = Inr g'"
  shows "\<forall>(k, ns) \<in> set g'. k \<noteq> [] \<and> [] \<notin> set ns"
  using assms
proof (induction ds arbitrary: g)
  case Nil
  then show ?case by simp
next
  case (Cons d ds)
  from Cons.prems(3) have d: "d \<noteq> []" and ds: "[] \<notin> set ds" by auto
  show ?case
  proof (cases "c \<noteq> d")
    case True
    with Cons.prems(4) obtain g1 where a: "link_pair g c d = Inr g1" and b: "link_all g1 c ds = Inr g'"
      by (auto split: sum.splits)
    from Cons.IH[OF link_pair_sound[OF Cons.prems(1,2) d a] Cons.prems(2) ds b] show ?thesis .
  next
    case False
    with Cons.prems(4) have "link_all g c ds = Inr g'" by simp
    from Cons.IH[OF Cons.prems(1,2) ds this] show ?thesis .
  qed
qed

lemma hebbian_loop_sound:
  assumes "\<forall>(k, ns) \<in> set g. k \<noteq> [] \<and> [] \<notin> set ns" and "[] \<notin> set ws"
    and "hebbian_loop g ws = Inr g'"
  shows "\<forall>(k, ns) \<in> set g'. k \<noteq> [] \<and> [] \<notin> set ns"
  using assms
proof (induction ws arbitrary: g)
  case Nil
  then show ?case by simp
next
  case (Cons w ws)
  from Cons.prems(2) have w: "w \<noteq> []" and ws: "[] \<notin> set ws" by auto
  from Cons.prems(3) obtain g1 where a: "link_all (ensure_node g w) w ws = Inr g1"
    and b: "hebbian_loop g1 ws = Inr g'"
    by (auto split: sum.splits)
  note s1 = ensure_node_sound[OF Cons.prems(1) w]
  from Cons.IH[OF link_all_sound[OF s1 w ws a] ws b] show ?case .
qed

lemma hebbian_update_sound:
  assumes "\<forall>(k, ns) \<in> set g. k \<noteq> [] \<and> [] \<notin> set ns" and "hebbian_update t g = Inr g'"
  shows "\<forall>(k, ns) \<in> set g'. k \<noteq> [] \<and> [] \<notin> set ns"
proof (cases "length (content_words t) > 1")
  case True
  have "[] \<notin> set (content_words t)" using content_word_nonempty by blast
  from hebbian_loop_sound[OF assms(1) this] assms(2) True show ?thesis
    by (simp add: hebbian_update_def Let_def)
next
  case False
  with assms show ?thesis by (simp add: hebbian_update_def Let_def)
qed

text \<open>
  Every key of the frequency table is made of two content words with a plus sign
  between them.
\<close>

lemma pair_key_shape:
  assumes "w \<in> set (content_words t)" and "v \<in> set (content_words t)"
  shows "\<exists>a b. pairKey w v = a @ CHR ''+'' # b \<and> a \<noteq> [] \<and> b \<noteq> [] \<and>
           CHR ''+'' \<notin> set a \<and> CHR ''+'' \<notin> set b"
  using content_word_no_plus[OF assms(1)] content_word_no_plus[OF assms(2)]
    content_word_nonempty[OF assms(1)] content_word_nonempty[OF assms(2)]
  by (auto simp: pairKey_cases)

lemma bump_keys: "fst ` set (bump freq k) = insert k (fst ` set freq)"
  by (simp add: bump_def obj_set_keys)

lemma freq_inner_keys:
  "fst ` set (freq_inner freq w vs) = fst ` set freq \<union> (\<lambda>v. pairKey w v) ` set vs"
  by (induction vs arbitrary: freq) (auto simp: bump_keys)

lemma freq_outer_keys:
  "k \<in> fst ` set (freq_outer freq ws) \<Longrightarrow>
     k \<in> fst ` set freq \<or> (\<exists>w \<in> set ws. \<exists>v \<in> set ws. k = pairKey w v)"
proof (induction ws arbitrary: freq)
  case Nil
  then show ?case by simp
next
  case (Cons w ws)
  from Cons.prems have "k \<in> fst ` set (freq_outer (freq_inner freq w ws) ws)" by simp
  from Cons.IH[OF this] show ?case by (auto simp: freq_inner_keys)
qed

lemma sweep_keys_sound:
  assumes "\<forall>k \<in> fst ` set freq. \<exists>a b. k = a @ CHR ''+'' # b \<and> a \<noteq> [] \<and> b \<noteq> [] \<and>
             CHR ''+'' \<notin> set a \<and> CHR ''+'' \<notin> set b"
  shows "\<forall>k \<in> fst ` set (updateConceptPairFrequency t freq).
           \<exists>a b. k = a @ CHR ''+'' # b \<and> a \<noteq> [] \<and> b \<noteq> [] \<and>
             CHR ''+'' \<notin> set a \<and> CHR ''+'' \<notin> set b"
proof
  fix k
  assume "k \<in> fst ` set (updateConceptPairFrequency t freq)"
  then have "k \<in> fst ` set freq \<or>
      (\<exists>w \<in> set (content_words t). \<exists>v \<in> set (content_words t). k = pairKey w v)"
    unfolding updateConceptPairFrequency_def by (rule freq_outer_keys)
  with assms pair_key_shape[of _ t]
  show "\<exists>a b. k = a @ CHR ''+'' # b \<and> a \<noteq> [] \<and> b \<noteq> [] \<and>
             CHR ''+'' \<notin> set a \<and> CHR ''+'' \<notin> set b"
    by blast
qed

lemma schema_scan_member: "schema_scan g freq ks = Some k \<Longrightarrow> k \<in> set ks"
  by (induction ks) (auto split: if_splits)

lemma own_keys_set: "set (own_keys obj) = fst ` set obj"
  by (auto simp: own_keys_def Let_def)

lemma schema_check_sound:
  assumes g: "\<forall>(k, ns) \<in> set g. k \<noteq> [] \<and> [] \<notin> set ns"
    and f: "\<forall>k \<in> fst ` set freq. \<exists>a b. k = a @ CHR ''+'' # b \<and> a \<noteq> [] \<and> b \<noteq> [] \<and>
             CHR ''+'' \<notin> set a \<and> CHR ''+'' \<notin> set b"
    and sc: "schema_check g freq = (g', freq', formed)"
  shows "(\<forall>(k, ns) \<in> set g'. k \<noteq> [] \<and> [] \<notin> set ns) \<and>
         (\<forall>k \<in> fst ` set freq'. \<exists>a b. k = a @ CHR ''+'' # b \<and> a \<noteq> [] \<and> b \<noteq> [] \<and>
             CHR ''+'' \<notin> set a \<and> CHR ''+'' \<notin> set b)"
proof (cases "schema_scan g freq (own_keys freq)")
  case None
  with sc g f show ?thesis by (simp add: schema_check_def)
next
  case (Some k)
  from schema_scan_member[OF Some] have kin: "k \<in> fst ` set freq" by (simp add: own_keys_set)
  with f obtain a b where k: "k = a @ CHR ''+'' # b" and a: "a \<noteq> []" and b: "b \<noteq> []"
    and na: "CHR ''+'' \<notin> set a" and nb: "CHR ''+'' \<notin> set b" by blast
  have parts: "key_parts k = (a, b)" unfolding k by (rule key_parts_pair[OF na nb])
  from sc Some parts have g': "g' = obj_set g (a @ ''-'' @ b) [a, b, ''synthesis'', ''pattern'']"
    and f': "freq' = obj_set freq k 0"
    by (simp_all add: schema_check_def Let_def)
  have "\<forall>(k, ns) \<in> set g'. k \<noteq> [] \<and> [] \<notin> set ns"
    unfolding g' using g a b by (auto dest!: obj_set_values)
  moreover have "fst ` set freq' = fst ` set freq" unfolding f' using kin by (auto simp: obj_set_keys)
  ultimately show ?thesis using f by simp
qed

lemma default_graph_sound: "\<forall>(k, ns) \<in> set default_conceptGraph. k \<noteq> [] \<and> [] \<notin> set ns"
  by (simp add: default_conceptGraph_def)

lemma reachable_sound:
  "reachable_graph g freq \<Longrightarrow>
     (\<forall>(k, ns) \<in> set g. k \<noteq> [] \<and> [] \<notin> set ns) \<and>
     (\<forall>k \<in> fst ` set freq. \<exists>a b. k = a @ CHR ''+'' # b \<and> a \<noteq> [] \<and> b \<noteq> [] \<and>
         CHR ''+'' \<notin> set a \<and> CHR ''+'' \<notin> set b)"
proof (induction rule: reachable_graph.induct)
  case initial
  show ?case using default_graph_sound by simp
next
  case (hebbian g freq newThought g')
  from hebbian.IH hebbian_update_sound[OF _ hebbian.hyps(2)] show ?case by blast
next
  case (sweep g freq memoryText)
  from sweep.IH sweep_keys_sound[of freq memoryText] show ?case by blast
next
  case (schema g freq g' freq' formed)
  from schema.IH schema_check_sound[OF _ _ schema.hyps(2)] show ?case by blast
qed

lemma obj_set_grows: "length obj \<le> length (obj_set obj k v)"
  by (simp add: obj_set_def)

lemma ensure_node_grows: "length g \<le> length (ensure_node g c)"
  by (simp add: ensure_node_def obj_set_grows split: lookup.splits)

lemma push_link_grows: "push_link g c d = Inr g' \<Longrightarrow> length g \<le> length g'"
  by (auto simp: push_link_def obj_set_grows split: lookup.splits if_splits)

lemma link_pair_grows: "link_pair g c d = Inr g' \<Longrightarrow> length g \<le> length g'"
proof -
  assume "link_pair g c d = Inr g'"
  then obtain g1 where a: "push_link g c d = Inr g1" and b: "push_link (ensure_node g1 d) d c = Inr g'"
    by (auto simp: link_pair_def split: sum.splits)
  from push_link_grows[OF a] ensure_node_grows[of g1 d] push_link_grows[OF b] show ?thesis by simp
qed

lemma link_all_grows: "link_all g c ds = Inr g' \<Longrightarrow> length g \<le> length g'"
proof (induction ds arbitrary: g)
  case Nil
  then show ?case by simp
next
  case (Cons d ds)
  show ?case
  proof (cases "c \<noteq> d")
    case True
    with Cons.prems obtain g1 where a: "link_pair g c d = Inr g1" and b: "link_all g1 c ds = Inr g'"
      by (auto split: sum.splits)
    from link_pair_grows[OF a] Cons.IH[OF b] show ?thesis by simp
  next
    case False
    with Cons.prems have "link_all g c ds = Inr g'" by simp
    from Cons.IH[OF this] show ?thesis .
  qed
qed

lemma hebbian_loop_grows: "hebbian_loop g ws = Inr g' \<Longrightarrow> length g \<le> length g'"
proof (induction ws arbitrary: g)
  case Nil
  then show ?case by simp
next
  case (Cons w ws)
  from Cons.prems obtain g1 where a: "link_all (ensure_node g w) w ws = Inr g1"
    and b: "hebbian_loop g1 ws = Inr g'"
    by (auto split: sum.splits)
  from ensure_node_grows[of g w] link_all_grows[OF a] Cons.IH[OF b] show ?case by simp
qed

lemma hebbian_update_grows: "hebbian_update t g = Inr g' \<Longrightarrow> length g \<le> length g'"
  by (auto simp: hebbian_update_def Let_def dest: hebbian_loop_grows split: if_splits)

lemma schema_check_grows: "schema_check g f = (g', f', r) \<Longrightarrow> length g \<le> length g'"
  using obj_set_grows[of g]
  by (auto simp: schema_check_def Let_def split: option.splits prod.splits)

lemma reachable_nonempty: "reachable_graph g freq \<Longrightarrow> g \<noteq> []"
proof (induction rule: reachable_graph.induct)
  case initial
  show ?case by (simp add: default_conceptGraph_def)
next
  case (hebbian g freq newThought g')
  from hebbian_update_grows[OF hebbian.hyps(2)] hebbian.IH show ?case by auto
next
  case (sweep g freq memoryText)
  then show ?case by simp
next
  case (schema g freq g' freq' formed)
  from schema_check_grows[OF schema.hyps(2)] schema.IH show ?case by auto
qed

text \<open>The graph and the table of every state that the engine reaches.\<close>

lemma sweep_reachable:
  "reachable_graph g freq \<Longrightarrow> reachable_graph g (sweep_frequency stack freq)"
  unfolding sweep_frequency_def
  by (induction stack arbitrary: freq) (auto intro: reachable_graph.sweep)

lemma apply_reachable:
  assumes "reachable_graph (conceptGraph t) (conceptFrequencyMap t)" and "apply_action a t = Inr t'"
  shows "reachable_graph (conceptGraph t') (conceptFrequencyMap t')"
proof (cases a)
  case SweepFrequency
  with assms sweep_reachable show ?thesis by auto
next
  case SchemaCheck
  obtain g' f' r where sc: "schema_check (conceptGraph t) (conceptFrequencyMap t) = (g', f', r)"
    by (cases "schema_check (conceptGraph t) (conceptFrequencyMap t)") auto
  from reachable_graph.schema[OF assms(1) sc] assms(2) SchemaCheck sc show ?thesis
    by (auto simp: schema_update_def split: option.splits)
next
  case (Hebbian x)
  with assms reachable_graph.hebbian[OF assms(1)] show ?thesis by (auto split: sum.splits)
qed (insert assms, auto simp: on_internal_def ruminate_def split: sum.splits option.splits)

lemma run_reachable:
  "reachable_graph (conceptGraph t) (conceptFrequencyMap t) \<Longrightarrow> run_actions as t = Inr t' \<Longrightarrow>
     reachable_graph (conceptGraph t') (conceptFrequencyMap t')"
proof (induction as arbitrary: t)
  case Nil
  then show ?case by simp
next
  case (Cons a as)
  from Cons.prems(2) obtain u where u: "apply_action a t = Inr u" and rest: "run_actions as u = Inr t'"
    by (auto split: sum.splits)
  from Cons.IH[OF apply_reachable[OF Cons.prems(1) u] rest] show ?case .
qed

lemma reachable_state_graph:
  "reachable_state s \<Longrightarrow> reachable_graph (conceptGraph s) (conceptFrequencyMap s)"
proof (induction rule: reachable_state.induct)
  case (start n)
  show ?case by (simp add: default_state_def reachable_graph.initial)
next
  case (event s ev s')
  from event.hyps(2) have "run_actions (event_actions s ev) s = Inr s'" by (simp add: step_def)
  from run_reachable[OF event.IH this] show ?case .
qed

lemma own_keys_length: "length (own_keys g) = length g"
proof -
  have "length (filter is_array_index (map fst g)) +
        length (filter (\<lambda>k. \<not> is_array_index k) (map fst g)) = length (map fst g)"
    by (rule sum_length_filter_compl)
  then show ?thesis by (simp add: own_keys_def Let_def del: filter_map)
qed

lemma drawn_index_less:
  assumes "0 < n" and "0 \<le> u" and "u < 1"
  shows "drawn_index u n < n"
proof -
  have n: "0 < real n" using assms(1) by simp
  have "u * real n < real n" using assms(3) n by simp
  then have "\<lfloor>u * real n\<rfloor> < int n" by linarith
  moreover have "0 \<le> \<lfloor>u * real n\<rfloor>" using assms(2) by simp
  ultimately show ?thesis unfolding drawn_index_def by linarith
qed

lemma drawn_index_interval:
  assumes "real j \<le> u * real n" and "u * real n < real j + 1"
  shows "drawn_index u n = j"
proof -
  have "\<lfloor>u * real n\<rfloor> = int j" using assms by linarith
  then show ?thesis by (simp add: drawn_index_def)
qed

lemma random_pick_drawn:
  assumes "xs \<noteq> []" and "0 \<le> u" and "u < 1"
  shows "random_pick u xs = Some (xs ! drawn_index u (length xs))"
  using drawn_index_less[of "length xs" u] assms
  by (simp add: random_pick_def nth_opt_def drawn_index_def)

lemma random_pick_empty: "random_pick u [] = None"
  by (simp add: random_pick_def nth_opt_def)

lemma identical_words_node:
  "hebbian_update ''abc abc'' default_conceptGraph = Inr (default_conceptGraph @ [(''abc'', [])]) \<and>
   selectNewTopic (default_conceptGraph @ [(''abc'', [])]) 0.5 ''abc'' None [] = Some ''abc''"
  by code_simp

lemma selected_topic:
  assumes "reachable_graph g freq" and "0 \<le> u" and "u < 1"
  shows "selectNewTopic g u currentThought agent att =
           Some (case find (concept_matches g (potentialTopics currentThought agent att)) (own_keys g) of
                   Some c \<Rightarrow>
                     if neighbours g c = [] then c
                     else neighbours g c ! drawn_index u (length (neighbours g c))
                 | None \<Rightarrow> own_keys g ! drawn_index u (length (own_keys g)))"
proof (cases "find (concept_matches g (potentialTopics currentThought agent att)) (own_keys g)")
  case None
  have "own_keys g \<noteq> []" using reachable_nonempty[OF assms(1)] own_keys_length[of g] by auto
  from random_pick_drawn[OF this assms(2,3)] None show ?thesis
    by (simp add: selectNewTopic_def Let_def)
next
  case (Some c)
  show ?thesis
  proof (cases "neighbours g c = []")
    case True
    with Some show ?thesis by (simp add: selectNewTopic_def Let_def random_pick_empty)
  next
    case False
    let ?ns = "neighbours g c"
    note pick = random_pick_drawn[OF False assms(2,3)]
    from False obtain ns where m: "map_of g c = Some ns" and ns: "?ns = ns"
      by (auto simp: neighbours_def split: option.splits)
    from m have "(c, ns) \<in> set g" by (rule map_of_SomeD)
    with reachable_sound[OF assms(1)] have "[] \<notin> set ns" by auto
    moreover have "?ns ! drawn_index u (length ?ns) \<in> set ?ns"
      using drawn_index_less[of "length ?ns" u] False assms(2,3) by simp
    ultimately have "?ns ! drawn_index u (length ?ns) \<noteq> []" using ns by metis
    with Some False pick show ?thesis by (simp add: selectNewTopic_def Let_def)
  qed
qed

lemma selected_nonempty:
  assumes "reachable_graph g freq" and "0 \<le> u" and "u < 1"
    and "selectNewTopic g u currentThought agent att = Some t"
  shows "t \<noteq> []"
proof -
  note snd = reachable_sound[OF assms(1), THEN conjunct1]
  have keys: "k \<noteq> []" if "k \<in> set (own_keys g)" for k
    using that snd by (auto simp: own_keys_set)
  have nbs: "x \<noteq> []" if "x \<in> set (neighbours g c)" for x c
  proof -
    from that obtain ns where m: "map_of g c = Some ns" and x: "x \<in> set ns"
      by (cases "map_of g c") (auto simp: neighbours_def)
    from map_of_SomeD[OF m] snd x show ?thesis by auto
  qed
  show ?thesis
  proof (cases "find (concept_matches g (potentialTopics currentThought agent att)) (own_keys g)")
    case None
    have ne: "own_keys g \<noteq> []" using reachable_nonempty[OF assms(1)] own_keys_length[of g] by auto
    from selected_topic[OF assms(1,2,3), of currentThought agent att] assms(4) None
    have "t = own_keys g ! drawn_index u (length (own_keys g))" by simp
    moreover have "own_keys g ! drawn_index u (length (own_keys g)) \<in> set (own_keys g)"
      using drawn_index_less[of "length (own_keys g)" u] ne assms(2,3) by simp
    ultimately show ?thesis using keys by metis
  next
    case (Some c)
    from find_Some_iff[THEN iffD1, OF Some] have c: "c \<in> set (own_keys g)" by (auto simp: in_set_conv_nth)
    show ?thesis
    proof (cases "neighbours g c = []")
      case True
      with selected_topic[OF assms(1,2,3), of currentThought agent att] assms(4) Some
      have "t = c" by simp
      with keys[OF c] show ?thesis by simp
    next
      case False
      with selected_topic[OF assms(1,2,3), of currentThought agent att] assms(4) Some
      have "t = neighbours g c ! drawn_index u (length (neighbours g c))" by simp
      moreover have "neighbours g c ! drawn_index u (length (neighbours g c)) \<in> set (neighbours g c)"
        using drawn_index_less[of "length (neighbours g c)" u] False assms(2,3) by simp
      ultimately show ?thesis using nbs by metis
    qed
  qed
qed

lemma remember_the_past:
  "selectNewTopic default_conceptGraph 0.5 ''I remember the past'' None [] = Some ''past'' \<and>
   find (concept_matches default_conceptGraph (potentialTopics ''I remember the past'' None []))
     (own_keys default_conceptGraph) = Some ''memory'' \<and>
   neighbours default_conceptGraph ''memory'' =
     [''recall'', ''storage'', ''forgetting'', ''past'', ''remember'', ''history''] \<and>
   length (neighbours default_conceptGraph ''memory'') = 6"
  by code_simp

lemma selection_samples:
  "selectNewTopic default_conceptGraph 0.5 ''I remember the past'' None [] = Some ''past'' \<and>
   selectNewTopic default_conceptGraph 0.5 ''zzz'' None [] = Some ''identity'' \<and>
   selectNewTopic default_conceptGraph 0.5 ''zzz''
     (Some \<lparr>sa_name = ''Rational'', sa_bias = ''logic, order, understanding'',
            sa_emotionProfile = [(''calm'', 0.8), (''curiosity'', 0.5)], sa_beliefBias = 0.01,
            sa_preferredTopics = [''logic'', ''structure'']\<rparr>) [] = Some ''chaos'' \<and>
   selectNewTopic default_conceptGraph 0.99 ''zzz'' None
     [\<lparr>a_concept = ''self'', a_weight = 0.8\<rparr>] = Some ''mind''"
  by code_simp

text \<open>
  Claim C9. On every concept graph that the engine can hold, starting from the default
  graph, \<^verbatim>\<open>selectNewTopic\<close> returns a defined, non-empty concept for every thought,
  sub-agent, attention stack and number drawn. What it returns is fixed by the draw \<open>u\<close>:
  for the first concept that matches, the neighbour at the index \<open>\<lfloor>u * n\<rfloor>\<close> of its \<open>n\<close>
  neighbours, or the concept itself when it has no neighbour; when no concept matches,
  the key at the index \<open>\<lfloor>u * n\<rfloor>\<close> of the \<open>n\<close> keys of the graph. The index is below \<open>n\<close>,
  and it is \<open>j\<close> exactly for the draws from \<open>j / n\<close> up to \<open>(j + 1) / n\<close>, so every entry is
  picked on an interval of draws of the same length. The graph of every state that the
  engine reaches is such a graph. A node without neighbours arises from a thought whose
  content words are all the same, and is then returned as its own topic. On the default
  graph with the draw 0.5, a thought of the past gives \<^verbatim>\<open>past\<close>, the neighbour 3 of the
  6 neighbours of \<^verbatim>\<open>memory\<close>; a thought that matches nothing gives \<^verbatim>\<open>identity\<close>, the key 5
  of the 10 keys, and with the sub-agent that prefers \<^verbatim>\<open>logic\<close> it gives \<^verbatim>\<open>chaos\<close>, the
  neighbour 3 of \<^verbatim>\<open>logic\<close>; with \<^verbatim>\<open>self\<close> in the attention stack and the draw 0.99 it gives
  \<^verbatim>\<open>mind\<close>, the last neighbour of \<^verbatim>\<open>consciousness\<close>.
\<close>

theorem selectNewTopic_total:
  assumes "reachable_graph g freq" and "0 \<le> u" and "u < 1"
  shows "selectNewTopic g u currentThought agent att =
           Some (case find (concept_matches g (potentialTopics currentThought agent att)) (own_keys g) of
                   Some c \<Rightarrow>
                     if neighbours g c = [] then c
                     else neighbours g c ! drawn_index u (length (neighbours g c))
                 | None \<Rightarrow> own_keys g ! drawn_index u (length (own_keys g))) \<and>
         (\<exists>t. selectNewTopic g u currentThought agent att = Some t \<and> t \<noteq> []) \<and>
         own_keys g \<noteq> [] \<and>
         (0 < n \<longrightarrow> drawn_index u n < n) \<and>
         (real j \<le> u * real n \<and> u * real n < real j + 1 \<longrightarrow> drawn_index u n = j) \<and>
         drawn_index u n = nat \<lfloor>u * real n\<rfloor> \<and>
         (reachable_state s \<longrightarrow> reachable_graph (conceptGraph s) (conceptFrequencyMap s)) \<and>
         hebbian_update ''abc abc'' default_conceptGraph =
           Inr (default_conceptGraph @ [(''abc'', [])]) \<and>
         selectNewTopic (default_conceptGraph @ [(''abc'', [])]) 0.5 ''abc'' None [] = Some ''abc'' \<and>
         selectNewTopic default_conceptGraph 0.5 ''I remember the past'' None [] = Some ''past'' \<and>
         selectNewTopic default_conceptGraph 0.5 ''zzz'' None [] = Some ''identity'' \<and>
         selectNewTopic default_conceptGraph 0.5 ''zzz''
           (Some \<lparr>sa_name = ''Rational'', sa_bias = ''logic, order, understanding'',
                  sa_emotionProfile = [(''calm'', 0.8), (''curiosity'', 0.5)], sa_beliefBias = 0.01,
                  sa_preferredTopics = [''logic'', ''structure'']\<rparr>) [] = Some ''chaos'' \<and>
         selectNewTopic default_conceptGraph 0.99 ''zzz'' None
           [\<lparr>a_concept = ''self'', a_weight = 0.8\<rparr>] = Some ''mind''"
proof -
  note c1 = selected_topic[OF assms, of currentThought agent att]
  have c2: "\<exists>t. selectNewTopic g u currentThought agent att = Some t \<and> t \<noteq> []"
    using c1 selected_nonempty[OF assms, of currentThought agent att] by blast
  have c3: "own_keys g \<noteq> []" using reachable_nonempty[OF assms(1)] own_keys_length[of g] by auto
  have c4: "0 < n \<longrightarrow> drawn_index u n < n" using drawn_index_less[OF _ assms(2,3)] by blast
  have c5: "real j \<le> u * real n \<and> u * real n < real j + 1 \<longrightarrow> drawn_index u n = j"
    using drawn_index_interval by blast
  have c6: "drawn_index u n = nat \<lfloor>u * real n\<rfloor>" by (simp add: drawn_index_def)
  have c7: "reachable_state s \<longrightarrow> reachable_graph (conceptGraph s) (conceptFrequencyMap s)"
    using reachable_state_graph by blast
  note c8 = identical_words_node[THEN conjunct1] and c9 = identical_words_node[THEN conjunct2]
  note c10 = selection_samples[THEN conjunct1]
  note c11 = selection_samples[THEN conjunct2, THEN conjunct1]
  note c12 = selection_samples[THEN conjunct2, THEN conjunct2, THEN conjunct1]
  note c13 = selection_samples[THEN conjunct2, THEN conjunct2, THEN conjunct2]
  from c1 c2 c3 c4 c5 c6 c7 c8 c9 c10 c11 c12 c13 show ?thesis by (intro conjI)
qed

theorem selectNewTopic_total_witness:
  "reachable_graph default_conceptGraph [] \<and> (0::real) \<le> 0.5 \<and> (0.5::real) < 1 \<and>
   selectNewTopic default_conceptGraph 0.5 ''I remember the past'' None [] = Some ''past'' \<and>
   find (concept_matches default_conceptGraph (potentialTopics ''I remember the past'' None []))
     (own_keys default_conceptGraph) = Some ''memory'' \<and>
   ''past'' = neighbours default_conceptGraph ''memory'' ! drawn_index 0.5 6 \<and>
   (0::nat) < 6 \<and> drawn_index 0.5 6 < 6 \<and>
   real (3::nat) \<le> 0.5 * real (6::nat) \<and> 0.5 * real (6::nat) < real (3::nat) + 1 \<and>
   drawn_index 0.5 6 = 3 \<and>
   reachable_state (default_state 10000) \<and>
   reachable_graph (conceptGraph (default_state 10000)) (conceptFrequencyMap (default_state 10000))"
proof -
  have a: "reachable_graph default_conceptGraph []" by (rule reachable_graph.initial)
  have b: "(0::real) \<le> 0.5" and c: "(0.5::real) < 1" by simp_all
  note T = selectNewTopic_total[OF a b c, where currentThought = "''I remember the past''"
      and agent = None and att = "[]" and n = 6 and j = 3 and s = "default_state 10000"]
  note m = remember_the_past[THEN conjunct2, THEN conjunct1]
  note nb = remember_the_past[THEN conjunct2, THEN conjunct2, THEN conjunct1]
  note len = remember_the_past[THEN conjunct2, THEN conjunct2, THEN conjunct2]
  have ne: "neighbours default_conceptGraph ''memory'' \<noteq> []" unfolding nb by simp
  from T[THEN conjunct1] have sel: "selectNewTopic default_conceptGraph 0.5 ''I remember the past'' None [] =
      Some (neighbours default_conceptGraph ''memory'' ! drawn_index 0.5 6)"
    unfolding m using ne by (simp add: len)
  note r3 = T[THEN conjunct2, THEN conjunct2, THEN conjunct2]
  note i1 = r3[THEN conjunct1] and i2 = r3[THEN conjunct2, THEN conjunct1]
    and i4 = r3[THEN conjunct2, THEN conjunct2, THEN conjunct2, THEN conjunct1]
  have h1: "(0::nat) < 6" by simp
  have h2: "real (3::nat) \<le> 0.5 * real (6::nat)" and h3: "0.5 * real (6::nat) < real (3::nat) + 1"
    by simp_all
  have h4: "reachable_state (default_state 10000)" by (rule reachable_state.start)
  from i1 h1 have d1: "drawn_index 0.5 6 < 6" by (rule mp)
  from i2 h2 h3 have d2: "drawn_index 0.5 6 = 3" by blast
  from i4 h4 have d3: "reachable_graph (conceptGraph (default_state 10000))
      (conceptFrequencyMap (default_state 10000))" by (rule mp)
  from sel have p: "selectNewTopic default_conceptGraph 0.5 ''I remember the past'' None [] = Some ''past''"
    unfolding d2 nb by simp
  from sel p have q: "''past'' = neighbours default_conceptGraph ''memory'' ! drawn_index 0.5 6" by simp
  from a b c p m q h1 d1 h2 h3 d2 h4 d3 show ?thesis by (intro conjI)
qed

end
